(* ===== verification/Kernel_Prelude.thy ===== *)
theory Kernel_Prelude
  imports Main "HOL-Library.Word"
begin

section \<open>Prelude: C integers, table scans, tables keyed by an id\<close>

text \<open>
  What every component of the kernel model shares: the types that stand for the C types, the
  two's complement reading of a signed overflow, the linear scan the C code writes as a
  \<open>for\<close> loop over a static table, and the interface \<open>id_table\<close> that the task table and the
  semaphore table both provide (an entry is found by its id, ids of used entries are unique).
\<close>

subsection \<open>Types of the C code\<close>

type_synonym u32 = "32 word"
type_synonym u64 = "64 word"

text \<open>A \<open>const char *\<close>: \<open>None\<close> is the null pointer.\<close>

type_synonym c_string = "string option"

abbreviation (input) INT_MAX :: int where "INT_MAX \<equiv> 2147483647"
abbreviation (input) INT_MIN :: int where "INT_MIN \<equiv> -2147483648"

text \<open>
  A C \<open>int\<close> is an \<open>int\<close> of HOL; \<open>wrap_int\<close> is what a 32-bit two's complement machine makes of
  a result outside the range. (In C such an overflow is undefined behaviour: the definitions
  use \<open>wrap_int\<close> exactly where the source lets it happen.)
\<close>

definition wrap_int :: "int \<Rightarrow> int" where
  "wrap_int x = (x + 2147483648) mod 4294967296 - 2147483648"

definition c_int :: "int \<Rightarrow> bool" where
  "c_int x \<longleftrightarrow> INT_MIN \<le> x \<and> x \<le> INT_MAX"

named_theorems kernel_frames
  \<open>what an operation leaves alone: equations that read a field of its result\<close>

lemma wrap_int_id [simp]: "c_int x \<Longrightarrow> wrap_int x = x"
  by (simp add: wrap_int_def c_int_def)

lemma c_int_wrap_int [simp]: "c_int (wrap_int x)"
proof -
  have "0 \<le> (x + 2147483648) mod 4294967296" and "(x + 2147483648) mod 4294967296 < 4294967296"
    by simp_all
  then show ?thesis unfolding wrap_int_def c_int_def by linarith
qed

lemma wrap_int_succ_INT_MAX: "wrap_int (INT_MAX + 1) = INT_MIN"
  by (simp add: wrap_int_def)

subsection \<open>The scan of a table for the first matching entry\<close>

fun first_index :: "('a \<Rightarrow> bool) \<Rightarrow> 'a list \<Rightarrow> nat option" where
  "first_index P [] = None"
| "first_index P (x # xs) = (if P x then Some 0 else map_option Suc (first_index P xs))"

lemma first_index_None [simp]: "first_index P xs = None \<longleftrightarrow> (\<forall>x \<in> set xs. \<not> P x)"
  by (induction xs) auto

lemma first_index_SomeD:
  assumes "first_index P xs = Some i"
  shows first_index_less: "i < length xs" and first_index_holds: "P (xs ! i)"
    and first_index_first: "j < i \<Longrightarrow> \<not> P (xs ! j)"
proof -
  have "i < length xs \<and> P (xs ! i) \<and> (\<forall>j < i. \<not> P (xs ! j))"
    using assms by (induction xs arbitrary: i) (auto simp: nth_Cons split: if_splits nat.splits)
  then show "i < length xs" and "P (xs ! i)" and "j < i \<Longrightarrow> \<not> P (xs ! j)" by blast+
qed

lemma first_index_SomeI:
  "i < length xs \<Longrightarrow> P (xs ! i) \<Longrightarrow> (\<And>j. j < i \<Longrightarrow> \<not> P (xs ! j)) \<Longrightarrow> first_index P xs = Some i"
proof (induction xs arbitrary: i)
  case Nil
  then show ?case by simp
next
  case (Cons x xs)
  show ?case
  proof (cases i)
    case 0
    with Cons.prems show ?thesis by simp
  next
    case (Suc k)
    have "\<not> P x" using Cons.prems(3)[of 0] Suc by simp
    moreover have "first_index P xs = Some k"
    proof (rule Cons.IH)
      show "k < length xs" and "P (xs ! k)" using Cons.prems(1,2) Suc by simp_all
      show "\<not> P (xs ! j)" if "j < k" for j using Cons.prems(3)[of "Suc j"] Suc that by simp
    qed
    ultimately show ?thesis using Suc by simp
  qed
qed

lemma first_index_unique:
  "i < length xs \<Longrightarrow> P (xs ! i) \<Longrightarrow> (\<And>j. j < length xs \<Longrightarrow> P (xs ! j) \<Longrightarrow> j = i) \<Longrightarrow>
   first_index P xs = Some i"
  by (rule first_index_SomeI) (metis order.strict_trans order.strict_implies_not_eq)+

lemma first_index_cong:
  "length xs = length ys \<Longrightarrow> (\<And>i. i < length xs \<Longrightarrow> P (xs ! i) = Q (ys ! i)) \<Longrightarrow>
   first_index P xs = first_index Q ys"
proof (induction xs ys rule: list_induct2)
  case Nil
  then show ?case by simp
next
  case (Cons x xs y ys)
  have "P x = Q y" using Cons.prems[of 0] by simp
  moreover have "first_index P xs = first_index Q ys"
  proof (rule Cons.IH)
    show "P (xs ! i) = Q (ys ! i)" if "i < length xs" for i
      using Cons.prems[of "Suc i"] that by simp
  qed
  ultimately show ?case by simp
qed

lemma first_index_update_other:
  "i < length xs \<Longrightarrow> P y = P (xs ! i) \<Longrightarrow> first_index P (xs[i := y]) = first_index P xs"
  by (rule first_index_cong) (auto simp: nth_list_update)

lemma nth_update_eq_if: "i < length xs \<Longrightarrow> xs[i := y] ! j = (if j = i then y else xs ! j)"
  by (auto simp: nth_list_update)

subsection \<open>Tables keyed by an id\<close>

definition unique_ids :: "('e \<Rightarrow> bool) \<Rightarrow> ('e \<Rightarrow> int) \<Rightarrow> 'e list \<Rightarrow> bool" where
  "unique_ids used ident xs \<longleftrightarrow>
     (\<forall>i j. i < length xs \<longrightarrow> j < length xs \<longrightarrow> used (xs ! i) \<longrightarrow> used (xs ! j) \<longrightarrow>
        ident (xs ! i) = ident (xs ! j) \<longrightarrow> i = j)"

text \<open>
  The client of a table looks entries up by id; the provider promises that the lookup is the
  first used entry with that id, and that ids up to 0 are never found.
\<close>

locale id_table =
  fixes used :: "'e \<Rightarrow> bool" and ident :: "'e \<Rightarrow> int" and lookup :: "int \<Rightarrow> 'e list \<Rightarrow> nat option"
  assumes lookup_nonpos: "k \<le> 0 \<Longrightarrow> lookup k xs = None"
    and lookup_scan: "0 < k \<Longrightarrow> lookup k xs = first_index (\<lambda>e. used e \<and> ident e = k) xs"
begin

lemma lookup_SomeD:
  assumes "lookup k xs = Some i"
  shows "i < length xs" and "used (xs ! i)" and "ident (xs ! i) = k" and "0 < k"
proof -
  show k: "0 < k" using assms lookup_nonpos[of k xs] by (cases "k \<le> 0") auto
  with assms have "first_index (\<lambda>e. used e \<and> ident e = k) xs = Some i" by (simp add: lookup_scan)
  then show "i < length xs" and "used (xs ! i)" and "ident (xs ! i) = k"
    using first_index_SomeD[of _ xs i] by blast+
qed

lemma lookup_None: "0 < k \<Longrightarrow> lookup k xs = None \<longleftrightarrow> (\<forall>e \<in> set xs. used e \<longrightarrow> ident e \<noteq> k)"
  by (auto simp: lookup_scan)

lemma lookup_found:
  "unique_ids used ident xs \<Longrightarrow> i < length xs \<Longrightarrow> used (xs ! i) \<Longrightarrow> 0 < ident (xs ! i) \<Longrightarrow>
   lookup (ident (xs ! i)) xs = Some i"
  by (auto simp: lookup_scan unique_ids_def intro!: first_index_unique)

lemma lookup_update_same:
  "i < length xs \<Longrightarrow> used y = used (xs ! i) \<Longrightarrow> ident y = ident (xs ! i) \<Longrightarrow>
   lookup k (xs[i := y]) = lookup k xs"
  by (cases "0 < k") (auto simp: lookup_scan lookup_nonpos intro!: first_index_update_other)

lemma unique_update_same:
  assumes "i < length xs" and "used y = used (xs ! i)" and "ident y = ident (xs ! i)"
  shows "unique_ids used ident (xs[i := y]) = unique_ids used ident xs"
proof -
  have "used (xs[i := y] ! j) = used (xs ! j)" and "ident (xs[i := y] ! j) = ident (xs ! j)" for j
    using assms by (simp_all add: nth_update_eq_if)
  then show ?thesis by (simp add: unique_ids_def)
qed

lemma unique_insert:
  "unique_ids used ident xs \<Longrightarrow> i < length xs \<Longrightarrow> 0 < ident y \<Longrightarrow> lookup (ident y) xs = None \<Longrightarrow>
   unique_ids used ident (xs[i := y])"
  by (force simp: unique_ids_def nth_update_eq_if lookup_None)

text \<open>Insertion into a free slot: the new id is found there, every other id where it was.\<close>

lemma lookup_insert:
  assumes "i < length xs" and "\<not> used (xs ! i)" and "used y" and "0 < ident y"
    and "lookup (ident y) xs = None"
  shows "lookup k (xs[i := y]) = (if k = ident y then Some i else lookup k xs)"
proof (cases "k \<le> 0")
  case True
  with assms(4) show ?thesis by (auto simp: lookup_nonpos)
next
  case False
  show ?thesis
  proof (cases "k = ident y")
    case True
    have "first_index (\<lambda>e. used e \<and> ident e = k) (xs[i := y]) = Some i"
      using assms True by (intro first_index_unique) (auto simp: nth_update_eq_if lookup_None split: if_splits)
    with False True show ?thesis by (simp add: lookup_scan)
  next
    case other: False
    have "first_index (\<lambda>e. used e \<and> ident e = k) (xs[i := y])
        = first_index (\<lambda>e. used e \<and> ident e = k) xs"
      using assms(1,2) other by (intro first_index_cong) (auto simp: nth_update_eq_if)
    with False other show ?thesis by (simp add: lookup_scan)
  qed
qed

end

end
