(* ===== verification/Console.thy ===== *)
theory Console
  imports Kernel_Prelude
begin

section \<open>HAL console and the number formatters of the kernel modules\<close>

text \<open>
  The console of \<open>kernel/include/hal/console.h\<close> is the text handed to \<open>hal_console_putc\<close> and
  \<open>hal_console_write\<close>, in order: the field \<open>con\<close>. It is the root of the kernel's state record;
  every module extends that record with the static variables of its C file. A run of
  consecutive writes is one \<open>say\<close>, with the texts in the order of the calls. Each C module
  has a private copy of the decimal and hexadecimal formatters; they are modelled as the text
  they put on the console. The text goes out through \<open>serial.c\<close>, which may never come back: \<open>Serial\<close> puts
  the two together (\<open>on_line\<close>).
\<close>

subsection \<open>The console\<close>

record console =
  con :: string

definition hal_console_putc :: "char \<Rightarrow> 'a console_scheme \<Rightarrow> 'a console_scheme" where
  "hal_console_putc c s = s\<lparr>con := con s @ [c]\<rparr>"

definition hal_console_write :: "c_string \<Rightarrow> 'a console_scheme \<Rightarrow> 'a console_scheme" where
  "hal_console_write message s =
     (case message of None \<Rightarrow> s | Some m \<Rightarrow> fold hal_console_putc m s)"

definition writes :: "string list \<Rightarrow> 'a console_scheme \<Rightarrow> 'a console_scheme" where
  "writes ms s = s\<lparr>con := con s @ concat ms\<rparr>"

text \<open>A log line whose texts are read from the state it is written in.\<close>

definition say :: "('a console_scheme \<Rightarrow> string list) \<Rightarrow> 'a console_scheme \<Rightarrow> 'a console_scheme" where
  "say f s = writes (f s) s"

text \<open>A name printed without a null check: \<open>hal_console_write\<close> prints nothing for NULL.\<close>

definition name_text :: "c_string \<Rightarrow> string" where
  "name_text n = (case n of None \<Rightarrow> '''' | Some m \<Rightarrow> m)"

text \<open>A name printed as \<open>(name != NULL) ? name : dflt\<close>.\<close>

definition name_or :: "string \<Rightarrow> c_string \<Rightarrow> string" where
  "name_or dflt n = (case n of None \<Rightarrow> dflt | Some m \<Rightarrow> m)"

lemma fold_putc: "fold hal_console_putc m s = s\<lparr>con := con s @ m\<rparr>"
  by (induction m arbitrary: s) (simp_all add: hal_console_putc_def)

lemma hal_console_write_text: "hal_console_write n s = writes [name_text n] s"
  by (simp add: hal_console_write_def fold_putc writes_def name_text_def split: option.split)

lemma writes_append: "writes ms (writes ns s) = writes (ns @ ms) s"
  by (simp add: writes_def)

lemma writes_fold: "writes ms s = fold (\<lambda>m. hal_console_write (Some m)) ms s"
proof (induction ms arbitrary: s)
  case Nil
  show ?case by (simp add: writes_def)
next
  case (Cons m ms)
  have "writes (m # ms) s = writes ms (hal_console_write (Some m) s)"
    by (simp add: writes_def hal_console_write_def fold_putc)
  with Cons.IH show ?case by simp
qed

lemma con_writes [simp]: "con (writes ms s) = con s @ concat ms"
  by (simp add: writes_def)

lemma con_say [simp]: "con (say f s) = con s @ concat (f s)"
  by (simp add: say_def)

text \<open>The simplifier need not look into the texts of a log line.\<close>

lemma say_cong [cong]: "s = s' \<Longrightarrow> say f s = say f s'"
  by simp

subsection \<open>Decimal digits\<close>

definition digit_char :: "nat \<Rightarrow> char" where
  "digit_char d = char_of (48 + d)"

text \<open>
  The loop \<open>while (value > 0) { buffer[index++] = '0' + value % 10; value /= 10; }\<close>: the
  buffer after it, lowest digit first.
\<close>

fun digit_buffer :: "nat \<Rightarrow> string" where
  "digit_buffer v = (if v > 0 then digit_char (v mod 10) # digit_buffer (v div 10) else [])"

declare digit_buffer.simps [simp del]

text \<open>The whole formatter: \<open>0\<close> on its own, else the buffer from its end to its start.\<close>

definition decimal :: "nat \<Rightarrow> string" where
  "decimal v = (if v = 0 then [digit_char 0] else rev (digit_buffer v))"

text \<open>Reading a decimal text back.\<close>

definition digit_value :: "char \<Rightarrow> nat" where
  "digit_value c = of_char c - 48"

definition read_decimal :: "string \<Rightarrow> nat" where
  "read_decimal = foldl (\<lambda>n c. 10 * n + digit_value c) 0"

lemma digit_value_digit_char [simp]: "d < 10 \<Longrightarrow> digit_value (digit_char d) = d"
  by (simp add: digit_value_def digit_char_def)

lemma digit_buffer_value: "foldr (\<lambda>c n. 10 * n + digit_value c) (digit_buffer v) 0 = v"
proof (induction v rule: digit_buffer.induct)
  case (1 v)
  then show ?case by (subst digit_buffer.simps) auto
qed

lemma read_decimal_decimal: "read_decimal (decimal v) = v"
  by (simp add: read_decimal_def decimal_def digit_buffer_value foldl_conv_foldr)

lemma digit_buffer_digits: "c \<in> set (digit_buffer v) \<Longrightarrow> c \<in> digit_char ` {0..<10}"
proof (induction v rule: digit_buffer.induct)
  case (1 v)
  then show ?case by (subst (asm) (2) digit_buffer.simps) (auto split: if_splits)
qed

lemma digit_buffer_length: "v < 10 ^ n \<Longrightarrow> length (digit_buffer v) \<le> n"
proof (induction v arbitrary: n rule: digit_buffer.induct)
  case (1 v)
  show ?case
  proof (cases "v = 0")
    case True
    then show ?thesis by (subst digit_buffer.simps) simp
  next
    case False
    with "1.prems" obtain m where n: "n = Suc m" by (cases n) auto
    have "v div 10 < 10 ^ m" using "1.prems" n by (simp add: less_mult_imp_div_less mult.commute)
    with "1.IH" False have "length (digit_buffer (v div 10)) \<le> m" by simp
    with False n show ?thesis by (subst digit_buffer.simps) simp
  qed
qed

subsection \<open>Signed and unsigned formatters\<close>

text \<open>\<open>*_write_uint(unsigned long)\<close>: the decimal text of a 64-bit value.\<close>

definition text_of_ulong :: "u64 \<Rightarrow> string" where
  "text_of_ulong value = decimal (unat value)"

text \<open>
  The variant of \<open>task.c\<close>, \<open>semaphore.c\<close>, \<open>delay_queue.c\<close>, \<open>task_context.c\<close> and \<open>kernel.c\<close>:
  a negative value is negated as an \<open>int\<close> (which wraps for INT_MIN) and the result converted
  to \<open>unsigned long\<close>.
\<close>

definition text_of_int_via_ulong :: "int \<Rightarrow> string" where
  "text_of_int_via_ulong value =
     (if value < 0 then ''-'' @ text_of_ulong (word_of_int (wrap_int (- value)))
      else text_of_ulong (word_of_int value))"

text \<open>
  The variant of \<open>dispatcher.c\<close>, \<open>preemption.c\<close>, \<open>dispatch_pending.c\<close> and \<open>itron_api.c\<close>: the
  magnitude is an \<open>unsigned int\<close>.
\<close>

definition text_of_int_via_uint :: "int \<Rightarrow> string" where
  "text_of_int_via_uint value =
     (let magnitude = (word_of_int (if value < 0 then wrap_int (- value) else value) :: u32)
      in (if value < 0 then ''-'' else []) @ decimal (unat magnitude))"

text \<open>The formatters as the log lines of the modules use them.\<close>

abbreviation (input) ulong_str :: "u64 \<Rightarrow> string" where "ulong_str \<equiv> text_of_ulong"
abbreviation (input) u32_str :: "u32 \<Rightarrow> string" where "u32_str v \<equiv> text_of_ulong (ucast v)"
abbreviation (input) int_str :: "int \<Rightarrow> string" where "int_str \<equiv> text_of_int_via_ulong"
abbreviation (input) mag_str :: "int \<Rightarrow> string" where "mag_str \<equiv> text_of_int_via_uint"

definition read_int :: "string \<Rightarrow> int" where
  "read_int t =
     (case t of [] \<Rightarrow> 0
      | c # r \<Rightarrow> if c = CHR ''-'' then - int (read_decimal r) else int (read_decimal t))"

lemma decimal_not_minus: "decimal v \<noteq> [] \<and> hd (decimal v) \<noteq> CHR ''-''"
proof (cases "v = 0")
  case True
  then show ?thesis by (simp add: decimal_def digit_char_def char_of_def)
next
  case False
  have ne: "digit_buffer v \<noteq> []" using False by (subst digit_buffer.simps) simp
  then have "last (digit_buffer v) \<in> digit_char ` {0..<10}"
    using digit_buffer_digits last_in_set by blast
  moreover have "CHR ''-'' \<notin> digit_char ` {0..<10}"
    by (auto simp: digit_char_def dest!: arg_cong[where f = "of_char :: char \<Rightarrow> nat"])
  ultimately show ?thesis using False ne by (auto simp: decimal_def hd_rev)
qed

lemma read_int_decimal [simp]: "read_int (decimal v) = int v"
  using decimal_not_minus[of v] read_decimal_decimal[of v]
  by (cases "decimal v") (auto simp: read_int_def)

lemma read_int_minus_decimal [simp]: "read_int (CHR ''-'' # decimal v) = - int v"
  by (simp add: read_int_def read_decimal_decimal)

text \<open>Both signed formatters print the value itself, except the first one for INT_MIN.\<close>

lemma unat_word_of_int_nonneg:
  "0 \<le> v \<Longrightarrow> v < 2 ^ LENGTH('a::len) \<Longrightarrow> unat (word_of_int v :: 'a word) = nat v"
  by (simp add: unat_eq_nat_uint uint_word_of_int)

lemma read_int_via_ulong:
  assumes "c_int v" and "v \<noteq> INT_MIN"
  shows "read_int (text_of_int_via_ulong v) = v"
proof -
  have wrap: "wrap_int (- v) = - v" using assms by (simp add: c_int_def)
  show ?thesis
  proof (cases "v < 0")
    case True
    have "unat (word_of_int (- v) :: u64) = nat (- v)"
      using True assms(1) by (intro unat_word_of_int_nonneg) (simp_all add: c_int_def)
    then show ?thesis using True wrap by (simp add: text_of_int_via_ulong_def text_of_ulong_def del: of_int_minus)
  next
    case False
    have "unat (word_of_int v :: u64) = nat v"
      using False assms(1) by (intro unat_word_of_int_nonneg) (simp_all add: c_int_def)
    then show ?thesis using False by (simp add: text_of_int_via_ulong_def text_of_ulong_def)
  qed
qed

lemma uint_magnitude:
  assumes "c_int v" and "v < 0"
  shows "unat (word_of_int (wrap_int (- v)) :: u32) = nat (- v)"
proof (cases "v = INT_MIN")
  case True
  have "(word_of_int (wrap_int (- INT_MIN)) :: u32) = 2147483648" by (simp add: wrap_int_def)
  with True show ?thesis by simp
next
  case False
  with assms(1) have "wrap_int (- v) = - v" by (simp add: c_int_def)
  moreover have "unat (word_of_int (- v) :: u32) = nat (- v)"
    using assms by (intro unat_word_of_int_nonneg) (simp_all add: c_int_def)
  ultimately show ?thesis by simp
qed

lemma read_int_via_uint:
  assumes "c_int v"
  shows "read_int (text_of_int_via_uint v) = v"
proof (cases "v < 0")
  case True
  then show ?thesis
    using uint_magnitude[OF assms True] by (simp add: text_of_int_via_uint_def Let_def)
next
  case False
  then have "unat (word_of_int v :: u32) = nat v"
    using assms by (intro unat_word_of_int_nonneg) (simp_all add: c_int_def)
  then show ?thesis using False by (simp add: text_of_int_via_uint_def Let_def)
qed

lemma text_of_ulong_length: "length (text_of_ulong v) \<le> 20"
proof -
  have "unat v < 10 ^ 20" using unsigned_less[where 'a = nat, of v] by simp
  then show ?thesis
    using digit_buffer_length[of "unat v" 20] by (simp add: text_of_ulong_def decimal_def)
qed

subsection \<open>Hexadecimal\<close>

definition hex_digit :: "nat \<Rightarrow> char" where
  "hex_digit n = ''0123456789abcdef'' ! n"

text \<open>
  The loop over \<open>shift = 60, 56, \<dots>, 0\<close>: a nibble is printed once a nonzero one has been seen.
  The argument \<open>k\<close> counts the nibbles still to do (\<open>shift = 4 * (k - 1)\<close>).
\<close>

fun hex_nibbles :: "u64 \<Rightarrow> bool \<Rightarrow> nat \<Rightarrow> string" where
  "hex_nibbles value started 0 = []"
| "hex_nibbles value started (Suc k) =
     (let nibble = unat (and (drop_bit (4 * k) value) 15)
      in if nibble \<noteq> 0 \<or> started then hex_digit nibble # hex_nibbles value True k
         else hex_nibbles value started k)"

definition text_of_hex :: "u64 \<Rightarrow> string" where
  "text_of_hex value = ''0x'' @ (if value = 0 then ''0'' else hex_nibbles value False 16)"

definition hex_value :: "char \<Rightarrow> nat" where
  "hex_value c = (let n = of_char c in if n < (58::nat) then n - 48 else n - 87)"

definition read_hex :: "string \<Rightarrow> nat" where
  "read_hex t = foldl (\<lambda>n c. 16 * n + hex_value c) 0 (drop 2 t)"

lemma hex_value_hex_digit [simp]: "d < 16 \<Longrightarrow> hex_value (hex_digit d) = d"
  by (cases d rule: nat.exhaust; simp add: hex_value_def hex_digit_def numeral_eq_Suc less_Suc_eq)
     (auto simp: nth_Cons')

end
