(* ===== verification/Task.thy ===== *)
theory Task
  imports Console
begin

section \<open>Task control blocks and the task table (\<open>kernel/task.c\<close>, \<open>kernel/include/task.h\<close>)\<close>

text \<open>
  The static table of \<open>MAX_TASKS\<close> TCBs, the id counter, and every operation of \<open>task.c\<close>. A
  pointer to a TCB is an index into the table, the null pointer is \<open>None\<close>. An operation takes
  the state last and returns the C result with the new state. The operations work on any
  extension of the state of this module, which is how the later modules build on them.
\<close>

subsection \<open>Types and constants of \<open>task.h\<close>\<close>

abbreviation (input) MAX_TASKS :: nat where "MAX_TASKS \<equiv> 256"
abbreviation (input) TASK_ID_MAX :: int where "TASK_ID_MAX \<equiv> 2147483647"
abbreviation (input) TASK_ERR_FULL :: int where "TASK_ERR_FULL \<equiv> -1"
abbreviation (input) TASK_ERR_INVAL :: int where "TASK_ERR_INVAL \<equiv> -2"
abbreviation (input) TASK_ERR_ID_OVERFLOW :: int where "TASK_ERR_ID_OVERFLOW \<equiv> -3"
abbreviation (input) TASK_ERR_NOT_FOUND :: int where "TASK_ERR_NOT_FOUND \<equiv> -4"
abbreviation (input) TASK_ERR_BAD_STATE :: int where "TASK_ERR_BAD_STATE \<equiv> -5"

datatype task_wait_reason_t =
    TASK_WAIT_REASON_NONE
  | TASK_WAIT_REASON_SEMAPHORE
  | TASK_WAIT_REASON_DELAY
  | TASK_WAIT_REASON_SEMAPHORE_TIMEOUT
  | TASK_WAIT_REASON_SLEEP

datatype task_state_t =
    TASK_STATE_UNUSED
  | TASK_STATE_DORMANT
  | TASK_STATE_READY
  | TASK_STATE_RUNNING
  | TASK_STATE_WAITING

record task_context_t =
  rsp :: u64
  rbp :: u64
  rbx :: u64
  r12 :: u64
  r13 :: u64
  r14 :: u64
  r15 :: u64

text \<open>
  \<open>tcb_t\<close>. The members \<open>id\<close>, \<open>name\<close>, \<open>state\<close> and \<open>context\<close> are \<open>tid\<close>, \<open>tname\<close>, \<open>tstate\<close> and
  \<open>tcontext\<close> here; code and stack addresses are \<open>unsigned long\<close> values.
\<close>

record tcb_t =
  tid :: int
  tname :: c_string
  entry :: u64
  priority :: int
  tstate :: task_state_t
  wait_sem_id :: int
  wait_reason :: task_wait_reason_t
  delay_ticks_remaining :: u32
  stack_base :: u64
  stack_size :: u64
  stack_top :: u64
  tcontext :: task_context_t

record task_module = console +
  task_table :: "tcb_t list"
  next_task_id :: int

text \<open>The bytes 0 of the static table, which are also what \<open>task_init\<close> stores.\<close>

definition task_clear_context :: "task_context_t \<Rightarrow> task_context_t" where
  "task_clear_context c =
     c\<lparr>rsp := 0, rbp := 0, rbx := 0, r12 := 0, r13 := 0, r14 := 0, r15 := 0\<rparr>"

definition cleared_tcb :: "tcb_t \<Rightarrow> tcb_t" where
  "cleared_tcb t =
     t\<lparr>tid := 0, tname := None, entry := 0, priority := 0, tstate := TASK_STATE_UNUSED,
       wait_sem_id := 0, wait_reason := TASK_WAIT_REASON_NONE, delay_ticks_remaining := 0,
       stack_base := 0, stack_size := 0, stack_top := 0,
       tcontext := task_clear_context (tcontext t)\<rparr>"

subsection \<open>Texts for the log\<close>

definition task_write_context :: "task_context_t \<Rightarrow> string list" where
  "task_write_context c =
     ['' context.rsp='', text_of_hex (rsp c), '' context.rbp='', text_of_hex (rbp c),
      '' context.rbx='', text_of_hex (rbx c), '' context.r12='', text_of_hex (r12 c),
      '' context.r13='', text_of_hex (r13 c), '' context.r14='', text_of_hex (r14 c),
      '' context.r15='', text_of_hex (r15 c)]"

fun task_state_to_string :: "task_state_t \<Rightarrow> string" where
  "task_state_to_string TASK_STATE_UNUSED = ''UNUSED''"
| "task_state_to_string TASK_STATE_DORMANT = ''DORMANT''"
| "task_state_to_string TASK_STATE_READY = ''READY''"
| "task_state_to_string TASK_STATE_RUNNING = ''RUNNING''"
| "task_state_to_string TASK_STATE_WAITING = ''WAITING''"

fun task_wait_reason_to_string :: "task_wait_reason_t \<Rightarrow> string" where
  "task_wait_reason_to_string TASK_WAIT_REASON_NONE = ''none''"
| "task_wait_reason_to_string TASK_WAIT_REASON_SEMAPHORE = ''semaphore''"
| "task_wait_reason_to_string TASK_WAIT_REASON_DELAY = ''delay''"
| "task_wait_reason_to_string TASK_WAIT_REASON_SEMAPHORE_TIMEOUT = ''semaphore-timeout''"
| "task_wait_reason_to_string TASK_WAIT_REASON_SLEEP = ''sleep''"

subsection \<open>Reading and writing through a TCB pointer\<close>

definition tcb_at :: "nat \<Rightarrow> 'a task_module_scheme \<Rightarrow> tcb_t" where
  "tcb_at i s = task_table s ! i"

definition upd_tcb :: "nat \<Rightarrow> (tcb_t \<Rightarrow> tcb_t) \<Rightarrow> 'a task_module_scheme \<Rightarrow> 'a task_module_scheme" where
  "upd_tcb i f s = s\<lparr>task_table := (task_table s)[i := f (task_table s ! i)]\<rparr>"

text \<open>A log line that prints members of one TCB.\<close>

abbreviation (input) tcb_say ::
  "nat \<Rightarrow> (tcb_t \<Rightarrow> string list) \<Rightarrow> 'a task_module_scheme \<Rightarrow> 'a task_module_scheme" where
  "tcb_say i f s \<equiv> say (\<lambda>s. f (tcb_at i s)) s"

text \<open>
  The four members a state change assigns together: the state and the wait metadata.
\<close>

definition tcb_enter :: "task_state_t \<Rightarrow> int \<Rightarrow> task_wait_reason_t \<Rightarrow> u32 \<Rightarrow> tcb_t \<Rightarrow> tcb_t" where
  "tcb_enter st sem reason ticks t =
     t\<lparr>tstate := st, wait_sem_id := sem, wait_reason := reason, delay_ticks_remaining := ticks\<rparr>"

definition tcb_used :: "tcb_t \<Rightarrow> bool" where
  "tcb_used t \<longleftrightarrow> tstate t \<noteq> TASK_STATE_UNUSED"

subsection \<open>Initial stack pointer and context\<close>

definition task_calculate_stack_top :: "u64 \<Rightarrow> u64 \<Rightarrow> u64" where
  "task_calculate_stack_top base sz = base + sz"

definition task_initialize_context :: "tcb_t \<Rightarrow> tcb_t" where
  "task_initialize_context t = t\<lparr>tcontext := (task_clear_context (tcontext t))\<lparr>rsp := stack_top t\<rparr>\<rparr>"

definition task_configure_slot ::
  "int \<Rightarrow> c_string \<Rightarrow> u64 \<Rightarrow> int \<Rightarrow> u64 \<Rightarrow> u64 \<Rightarrow> task_state_t \<Rightarrow> tcb_t \<Rightarrow> tcb_t" where
  "task_configure_slot task_id name ent prio base sz initial_state slot =
     task_initialize_context
       (slot\<lparr>tid := task_id, tname := name, entry := ent, priority := prio, tstate := initial_state,
             wait_sem_id := 0, wait_reason := TASK_WAIT_REASON_NONE, delay_ticks_remaining := 0,
             stack_base := base, stack_size := sz, stack_top := task_calculate_stack_top base sz\<rparr>)"

subsection \<open>Slots and ids\<close>

definition find_free_slot :: "'a task_module_scheme \<Rightarrow> nat option" where
  "find_free_slot s = first_index (\<lambda>t. tstate t = TASK_STATE_UNUSED) (task_table s)"

definition allocate_task_id :: "'a task_module_scheme \<Rightarrow> int \<times> 'a task_module_scheme" where
  "allocate_task_id s =
     (if next_task_id s \<le> 0 \<or> next_task_id s \<ge> TASK_ID_MAX then (TASK_ERR_ID_OVERFLOW, s)
      else (next_task_id s, s\<lparr>next_task_id := next_task_id s + 1\<rparr>))"

definition scan_task_id :: "int \<Rightarrow> tcb_t list \<Rightarrow> nat option" where
  "scan_task_id task_id tt = first_index (\<lambda>t. tcb_used t \<and> tid t = task_id) tt"

definition task_id_is_in_use :: "int \<Rightarrow> 'a task_module_scheme \<Rightarrow> bool" where
  "task_id_is_in_use task_id s = (scan_task_id task_id (task_table s) \<noteq> None)"

definition lookup_tcb :: "int \<Rightarrow> tcb_t list \<Rightarrow> nat option" where
  "lookup_tcb task_id tt = (if task_id \<le> 0 then None else scan_task_id task_id tt)"

definition task_get_by_id :: "int \<Rightarrow> 'a task_module_scheme \<Rightarrow> nat option" where
  "task_get_by_id task_id s = lookup_tcb task_id (task_table s)"

text \<open>\<open>task_get_mutable_by_id\<close> is the same scan; the pointer it returns may be written through.\<close>

definition task_get_mutable_by_id :: "int \<Rightarrow> 'a task_module_scheme \<Rightarrow> nat option" where
  "task_get_mutable_by_id task_id s = lookup_tcb task_id (task_table s)"

definition task_get_count :: int where
  "task_get_count = int MAX_TASKS"

definition task_get_by_index :: "int \<Rightarrow> nat option" where
  "task_get_by_index index = (if index < 0 \<or> index \<ge> int MAX_TASKS then None else Some (nat index))"

subsection \<open>Initialisation, registration, creation\<close>

definition task_init :: "'a task_module_scheme \<Rightarrow> 'a task_module_scheme" where
  "task_init s =
     (let s = s\<lparr>task_table := map cleared_tcb (task_table s)\<rparr>;
          s = s\<lparr>next_task_id := 1\<rparr>
      in say (\<lambda>s. [''[kernel] task init\<newline>'']) s)"

definition task_register ::
  "c_string \<Rightarrow> u64 \<Rightarrow> int \<Rightarrow> u64 \<Rightarrow> u64 \<Rightarrow> 'a task_module_scheme \<Rightarrow> int \<times> 'a task_module_scheme" where
  "task_register name ent prio base sz s =
     (if name = None \<or> ent = 0 \<or> base = 0 \<or> sz = 0 then (TASK_ERR_INVAL, s)
      else case find_free_slot s of
        None \<Rightarrow> (TASK_ERR_FULL, s)
      | Some slot \<Rightarrow>
          (let (ident, s) = allocate_task_id s
           in if ident < 0 then (ident, s)
              else let s = upd_tcb slot (task_configure_slot ident name ent prio base sz TASK_STATE_READY) s;
                       s = tcb_say slot (\<lambda>t. [''[task] registered: id='', int_str (tid t),
                             '' name='', name_text (tname t),
                             '' state='', task_state_to_string (tstate t),
                             '' wait_sem_id='', int_str (wait_sem_id t),
                             '' wait_reason='', task_wait_reason_to_string (wait_reason t),
                             '' delay_ticks_remaining='', u32_str (delay_ticks_remaining t),
                             '' prio='', int_str (priority t),
                             '' entry='', text_of_hex (entry t),
                             '' stack_base='', text_of_hex (stack_base t),
                             '' stack_size='', ulong_str (stack_size t),
                             '' stack_top='', text_of_hex (stack_top t)]
                            @ task_write_context (tcontext t) @ [''\<newline>'']) s
                   in (ident, s)))"

text \<open>
  \<open>next_task_id = task_id + 1\<close> is a signed addition without a guard: it overflows for the
  largest id.
\<close>

definition task_create_dormant ::
  "int \<Rightarrow> c_string \<Rightarrow> u64 \<Rightarrow> int \<Rightarrow> u64 \<Rightarrow> u64 \<Rightarrow> 'a task_module_scheme \<Rightarrow> int \<times> 'a task_module_scheme" where
  "task_create_dormant task_id name ent prio base sz s =
     (if task_id \<le> 0 \<or> name = None \<or> ent = 0 \<or> base = 0 \<or> sz = 0 then (TASK_ERR_INVAL, s)
      else if task_id_is_in_use task_id s then (TASK_ERR_BAD_STATE, s)
      else case find_free_slot s of
        None \<Rightarrow> (TASK_ERR_FULL, s)
      | Some slot \<Rightarrow>
          (let s = upd_tcb slot (task_configure_slot task_id name ent prio base sz TASK_STATE_DORMANT) s;
               s = (if next_task_id s \<le> task_id then s\<lparr>next_task_id := wrap_int (task_id + 1)\<rparr> else s);
               s = tcb_say slot (\<lambda>t. [''[task] created: id='', int_str (tid t),
                     '' name='', name_text (tname t),
                     '' prio='', int_str (priority t),
                     '' state='', task_state_to_string (tstate t),
                     '' entry='', text_of_hex (entry t),
                     '' stack_base='', text_of_hex (stack_base t),
                     '' stack_size='', ulong_str (stack_size t),
                     '' stack_top='', text_of_hex (stack_top t)]
                    @ task_write_context (tcontext t) @ [''\<newline>'']) s
           in (0, s)))"

definition task_dump :: "'a task_module_scheme \<Rightarrow> 'a task_module_scheme" where
  "task_dump s =
     (let s = say (\<lambda>s. [''[task] dump start\<newline>'']) s;
          s = fold (\<lambda>t s. if tstate t = TASK_STATE_UNUSED then s
                else say (\<lambda>s. [''[task] id='', int_str (tid t),
                       '' name='', name_text (tname t),
                       '' prio='', int_str (priority t),
                       '' state='', task_state_to_string (tstate t),
                       '' wait_sem_id='', int_str (wait_sem_id t),
                       '' wait_reason='', task_wait_reason_to_string (wait_reason t),
                       '' delay_ticks_remaining='', u32_str (delay_ticks_remaining t),
                       '' entry='', text_of_hex (entry t),
                       '' stack_base='', text_of_hex (stack_base t),
                       '' stack_size='', ulong_str (stack_size t),
                       '' stack_top='', text_of_hex (stack_top t)]
                      @ task_write_context (tcontext t) @ [''\<newline>'']) s)
                (task_table s) s
      in say (\<lambda>s. [''[task] dump end\<newline>'']) s)"

subsection \<open>State changes by id\<close>

definition task_mark_running :: "int \<Rightarrow> 'a task_module_scheme \<Rightarrow> int \<times> 'a task_module_scheme" where
  "task_mark_running task_id s =
     (if task_id \<le> 0 then (TASK_ERR_INVAL, s)
      else case scan_task_id task_id (task_table s) of
        None \<Rightarrow> (TASK_ERR_NOT_FOUND, s)
      | Some i \<Rightarrow>
          if tstate (tcb_at i s) \<noteq> TASK_STATE_READY then (TASK_ERR_BAD_STATE, s)
          else (0, upd_tcb i (tcb_enter TASK_STATE_RUNNING 0 TASK_WAIT_REASON_NONE 0) s))"

definition task_mark_ready_from_running ::
  "int \<Rightarrow> 'a task_module_scheme \<Rightarrow> int \<times> 'a task_module_scheme" where
  "task_mark_ready_from_running task_id s =
     (if task_id \<le> 0 then (TASK_ERR_INVAL, s)
      else case scan_task_id task_id (task_table s) of
        None \<Rightarrow> (TASK_ERR_NOT_FOUND, s)
      | Some i \<Rightarrow>
          if tstate (tcb_at i s) \<noteq> TASK_STATE_RUNNING then (TASK_ERR_BAD_STATE, s)
          else (0, upd_tcb i (tcb_enter TASK_STATE_READY 0 TASK_WAIT_REASON_NONE 0) s))"

definition task_start_dormant :: "int \<Rightarrow> 'a task_module_scheme \<Rightarrow> int \<times> 'a task_module_scheme" where
  "task_start_dormant task_id s =
     (if task_id \<le> 0 then (TASK_ERR_INVAL, s)
      else case scan_task_id task_id (task_table s) of
        None \<Rightarrow> (TASK_ERR_NOT_FOUND, s)
      | Some i \<Rightarrow>
          if tstate (tcb_at i s) \<noteq> TASK_STATE_DORMANT then (TASK_ERR_BAD_STATE, s)
          else let s = upd_tcb i (tcb_enter TASK_STATE_READY 0 TASK_WAIT_REASON_NONE 0) s;
                   s = tcb_say i (\<lambda>t. [''[task] start: id='', int_str (tid t), '' name='', name_text (tname t),
                                '' DORMANT->READY\<newline>'']) s
               in (0, s))"

definition task_mark_dormant_from_entry_return ::
  "int \<Rightarrow> 'a task_module_scheme \<Rightarrow> int \<times> 'a task_module_scheme" where
  "task_mark_dormant_from_entry_return task_id s =
     (if task_id \<le> 0 then (TASK_ERR_INVAL, s)
      else case scan_task_id task_id (task_table s) of
        None \<Rightarrow> (TASK_ERR_NOT_FOUND, s)
      | Some i \<Rightarrow>
          if tstate (tcb_at i s) \<noteq> TASK_STATE_RUNNING \<and> tstate (tcb_at i s) \<noteq> TASK_STATE_READY
          then (TASK_ERR_BAD_STATE, s)
          else (0, upd_tcb i (tcb_enter TASK_STATE_DORMANT 0 TASK_WAIT_REASON_NONE 0) s))"

subsection \<open>RUNNING to WAITING\<close>

definition task_mark_waiting_on_sem ::
  "int \<Rightarrow> int \<Rightarrow> 'a task_module_scheme \<Rightarrow> int \<times> 'a task_module_scheme" where
  "task_mark_waiting_on_sem task_id sem_id s =
     (if task_id \<le> 0 \<or> sem_id \<le> 0 then (TASK_ERR_INVAL, s)
      else case task_get_mutable_by_id task_id s of
        None \<Rightarrow> (TASK_ERR_NOT_FOUND, s)
      | Some i \<Rightarrow>
          if tstate (tcb_at i s) \<noteq> TASK_STATE_RUNNING then (TASK_ERR_BAD_STATE, s)
          else let s = upd_tcb i (tcb_enter TASK_STATE_WAITING sem_id TASK_WAIT_REASON_SEMAPHORE 0) s;
                   s = tcb_say i (\<lambda>t. [''[task] waiting: id='', int_str (tid t), '' name='', name_text (tname t),
                        '' wait_sem_id='', int_str (wait_sem_id t),
                        '' wait_reason='', task_wait_reason_to_string (wait_reason t),
                        '' delay_ticks_remaining='', u32_str (delay_ticks_remaining t),
                        '' state='', task_state_to_string (tstate t), ''\<newline>'']) s
               in (0, s))"

definition task_mark_waiting_on_delay ::
  "int \<Rightarrow> u32 \<Rightarrow> 'a task_module_scheme \<Rightarrow> int \<times> 'a task_module_scheme" where
  "task_mark_waiting_on_delay task_id delay_ticks s =
     (if task_id \<le> 0 \<or> delay_ticks = 0 then (TASK_ERR_INVAL, s)
      else case task_get_mutable_by_id task_id s of
        None \<Rightarrow> (TASK_ERR_NOT_FOUND, s)
      | Some i \<Rightarrow>
          if tstate (tcb_at i s) \<noteq> TASK_STATE_RUNNING then (TASK_ERR_BAD_STATE, s)
          else let s = upd_tcb i (tcb_enter TASK_STATE_WAITING 0 TASK_WAIT_REASON_DELAY delay_ticks) s;
                   s = tcb_say i (\<lambda>t. [''[task] delay waiting: id='', int_str (tid t), '' name='', name_text (tname t),
                        '' delay_ticks='', u32_str (delay_ticks_remaining t),
                        '' wait_reason='', task_wait_reason_to_string (wait_reason t),
                        '' wait_sem_id='', ''none'',
                        '' state='', task_state_to_string (tstate t), ''\<newline>'']) s
               in (0, s))"

definition task_mark_waiting_on_sem_timeout ::
  "int \<Rightarrow> int \<Rightarrow> u32 \<Rightarrow> 'a task_module_scheme \<Rightarrow> int \<times> 'a task_module_scheme" where
  "task_mark_waiting_on_sem_timeout task_id sem_id timeout_ticks s =
     (if task_id \<le> 0 \<or> sem_id \<le> 0 \<or> timeout_ticks = 0 then (TASK_ERR_INVAL, s)
      else case task_get_mutable_by_id task_id s of
        None \<Rightarrow> (TASK_ERR_NOT_FOUND, s)
      | Some i \<Rightarrow>
          if tstate (tcb_at i s) \<noteq> TASK_STATE_RUNNING then (TASK_ERR_BAD_STATE, s)
          else let s = upd_tcb i (tcb_enter TASK_STATE_WAITING sem_id
                                    TASK_WAIT_REASON_SEMAPHORE_TIMEOUT timeout_ticks) s;
                   s = tcb_say i (\<lambda>t. [''[task] semaphore timeout waiting: id='', int_str (tid t),
                        '' name='', name_text (tname t),
                        '' sem id='', int_str (wait_sem_id t),
                        '' timeout_ticks='', u32_str (delay_ticks_remaining t),
                        '' wait_reason='', task_wait_reason_to_string (wait_reason t),
                        '' state='', task_state_to_string (tstate t), ''\<newline>'']) s
               in (0, s))"

definition task_mark_waiting_on_sleep ::
  "int \<Rightarrow> 'a task_module_scheme \<Rightarrow> int \<times> 'a task_module_scheme" where
  "task_mark_waiting_on_sleep task_id s =
     (if task_id \<le> 0 then (TASK_ERR_INVAL, s)
      else case task_get_mutable_by_id task_id s of
        None \<Rightarrow> (TASK_ERR_NOT_FOUND, s)
      | Some i \<Rightarrow>
          if tstate (tcb_at i s) \<noteq> TASK_STATE_RUNNING then (TASK_ERR_BAD_STATE, s)
          else let s = upd_tcb i (tcb_enter TASK_STATE_WAITING 0 TASK_WAIT_REASON_SLEEP 0) s;
                   s = tcb_say i (\<lambda>t. [''[task] sleep: id='', int_str (tid t), '' name='', name_text (tname t),
                        '' RUNNING->WAITING reason='', task_wait_reason_to_string (wait_reason t),
                        ''\<newline>'']) s
               in (0, s))"

subsection \<open>WAITING to READY\<close>

definition waits_on_sem :: "int \<Rightarrow> tcb_t \<Rightarrow> bool" where
  "waits_on_sem sem_id t \<longleftrightarrow> tstate t = TASK_STATE_WAITING \<and>
     wait_reason t = TASK_WAIT_REASON_SEMAPHORE \<and> wait_sem_id t = sem_id"

definition task_find_waiting_on_sem :: "int \<Rightarrow> 'a task_module_scheme \<Rightarrow> nat option" where
  "task_find_waiting_on_sem sem_id s =
     (if sem_id \<le> 0 then None else first_index (waits_on_sem sem_id) (task_table s))"

definition ready_log :: "tcb_t \<Rightarrow> string list" where
  "ready_log t =
     [''[task] ready: id='', int_str (tid t), '' name='', name_text (tname t),
      '' wait_sem_id='', ''none'',
      '' wait_reason='', task_wait_reason_to_string (wait_reason t),
      '' delay_ticks_remaining='', u32_str (delay_ticks_remaining t),
      '' state='', task_state_to_string (tstate t), ''\<newline>'']"

text \<open>
  \<open>task_wake_one_waiting_on_sem(sem_id, &woken)\<close>: the out parameter is the \<open>int option\<close> of the
  result, \<open>None\<close> when it was not written.
\<close>

definition task_wake_one_waiting_on_sem ::
  "int \<Rightarrow> 'a task_module_scheme \<Rightarrow> (int \<times> int option) \<times> 'a task_module_scheme" where
  "task_wake_one_waiting_on_sem sem_id s =
     (if sem_id \<le> 0 then ((TASK_ERR_INVAL, None), s)
      else case first_index (waits_on_sem sem_id) (task_table s) of
        None \<Rightarrow> ((TASK_ERR_NOT_FOUND, None), s)
      | Some i \<Rightarrow>
          (let s = upd_tcb i (tcb_enter TASK_STATE_READY 0 TASK_WAIT_REASON_NONE 0) s;
               t = tcb_at i s
           in ((0, Some (tid t)), tcb_say i ready_log s)))"

definition task_wake_waiting_on_sem_by_id ::
  "int \<Rightarrow> int \<Rightarrow> 'a task_module_scheme \<Rightarrow> int \<times> 'a task_module_scheme" where
  "task_wake_waiting_on_sem_by_id task_id sem_id s =
     (if task_id \<le> 0 \<or> sem_id \<le> 0 then (TASK_ERR_INVAL, s)
      else case task_get_mutable_by_id task_id s of
        None \<Rightarrow> (TASK_ERR_NOT_FOUND, s)
      | Some i \<Rightarrow>
          if tstate (tcb_at i s) \<noteq> TASK_STATE_WAITING \<or>
             (wait_reason (tcb_at i s) \<noteq> TASK_WAIT_REASON_SEMAPHORE \<and>
              wait_reason (tcb_at i s) \<noteq> TASK_WAIT_REASON_SEMAPHORE_TIMEOUT) \<or>
             wait_sem_id (tcb_at i s) \<noteq> sem_id
          then (TASK_ERR_BAD_STATE, s)
          else let s = upd_tcb i (tcb_enter TASK_STATE_READY 0 TASK_WAIT_REASON_NONE 0) s;
                   s = tcb_say i (\<lambda>t. ready_log t) s
               in (0, s))"

definition task_wake_waiting_on_delay_by_id ::
  "int \<Rightarrow> 'a task_module_scheme \<Rightarrow> int \<times> 'a task_module_scheme" where
  "task_wake_waiting_on_delay_by_id task_id s =
     (if task_id \<le> 0 then (TASK_ERR_INVAL, s)
      else case task_get_mutable_by_id task_id s of
        None \<Rightarrow> (TASK_ERR_NOT_FOUND, s)
      | Some i \<Rightarrow>
          if tstate (tcb_at i s) \<noteq> TASK_STATE_WAITING \<or>
             wait_reason (tcb_at i s) \<noteq> TASK_WAIT_REASON_DELAY
          then (TASK_ERR_BAD_STATE, s)
          else let s = upd_tcb i (tcb_enter TASK_STATE_READY 0 TASK_WAIT_REASON_NONE 0) s;
                   s = tcb_say i (\<lambda>t. [''[task] delay wakeup: id='', int_str (tid t),
                        '' name='', name_text (tname t), '' WAITING->READY\<newline>'']) s
               in (0, s))"

definition task_wake_waiting_on_sem_timeout_by_id ::
  "int \<Rightarrow> int \<Rightarrow> 'a task_module_scheme \<Rightarrow> int \<times> 'a task_module_scheme" where
  "task_wake_waiting_on_sem_timeout_by_id task_id sem_id s =
     (if task_id \<le> 0 \<or> sem_id \<le> 0 then (TASK_ERR_INVAL, s)
      else case task_get_mutable_by_id task_id s of
        None \<Rightarrow> (TASK_ERR_NOT_FOUND, s)
      | Some i \<Rightarrow>
          if tstate (tcb_at i s) \<noteq> TASK_STATE_WAITING \<or>
             wait_reason (tcb_at i s) \<noteq> TASK_WAIT_REASON_SEMAPHORE_TIMEOUT \<or>
             wait_sem_id (tcb_at i s) \<noteq> sem_id
          then (TASK_ERR_BAD_STATE, s)
          else let s = upd_tcb i (tcb_enter TASK_STATE_READY 0 TASK_WAIT_REASON_NONE 0) s;
                   s = tcb_say i (\<lambda>t. [''[task] semaphore timeout wakeup: id='', int_str (tid t),
                        '' name='', name_text (tname t), '' sem id='', int_str sem_id,
                        '' WAITING->READY\<newline>'']) s
               in (0, s))"

definition task_wake_waiting_on_sleep_by_id ::
  "int \<Rightarrow> 'a task_module_scheme \<Rightarrow> int \<times> 'a task_module_scheme" where
  "task_wake_waiting_on_sleep_by_id task_id s =
     (if task_id \<le> 0 then (TASK_ERR_INVAL, s)
      else case task_get_mutable_by_id task_id s of
        None \<Rightarrow> (TASK_ERR_NOT_FOUND, s)
      | Some i \<Rightarrow>
          if tstate (tcb_at i s) \<noteq> TASK_STATE_WAITING \<or>
             wait_reason (tcb_at i s) \<noteq> TASK_WAIT_REASON_SLEEP
          then (TASK_ERR_BAD_STATE, s)
          else let s = upd_tcb i (tcb_enter TASK_STATE_READY 0 TASK_WAIT_REASON_NONE 0) s;
                   s = tcb_say i (\<lambda>t. [''[task] wakeup: id='', int_str (tid t),
                        '' name='', name_text (tname t), '' WAITING->READY reason=sleep\<newline>'']) s
               in (0, s))"

subsection \<open>Reading the result of a write\<close>

lemma task_table_say [simp]:
  "task_table (say f s) = task_table s" "next_task_id (say f s) = next_task_id s"
  by (simp_all add: say_def writes_def)

lemma task_table_upd_tcb:
  "task_table (upd_tcb i f s) = (task_table s)[i := f (task_table s ! i)]"
  "next_task_id (upd_tcb i f s) = next_task_id s"
  by (simp_all add: upd_tcb_def)

lemma next_task_id_upd_tcb [simp]: "next_task_id (upd_tcb i f s) = next_task_id s"
  by (simp add: upd_tcb_def)

lemma length_task_table_upd_tcb [simp]: "length (task_table (upd_tcb i f s)) = length (task_table s)"
  by (simp add: upd_tcb_def)

lemma con_upd_tcb [simp]: "con (upd_tcb i f s) = con s"
  by (simp add: upd_tcb_def)

lemma tcb_at_say [simp]: "tcb_at i (say f s) = tcb_at i s"
  by (simp add: tcb_at_def)

lemma tcb_at_upd_tcb:
  "i < length (task_table s) \<Longrightarrow> tcb_at j (upd_tcb i f s) = (if j = i then f (tcb_at i s) else tcb_at j s)"
  by (simp add: tcb_at_def upd_tcb_def nth_update_eq_if)

lemma tcb_enter_simps [simp]:
  "tid (tcb_enter st k r d t) = tid t" "tname (tcb_enter st k r d t) = tname t"
  "entry (tcb_enter st k r d t) = entry t" "priority (tcb_enter st k r d t) = priority t"
  "tstate (tcb_enter st k r d t) = st" "wait_sem_id (tcb_enter st k r d t) = k"
  "wait_reason (tcb_enter st k r d t) = r" "delay_ticks_remaining (tcb_enter st k r d t) = d"
  "stack_base (tcb_enter st k r d t) = stack_base t" "stack_size (tcb_enter st k r d t) = stack_size t"
  "stack_top (tcb_enter st k r d t) = stack_top t" "tcontext (tcb_enter st k r d t) = tcontext t"
  by (simp_all add: tcb_enter_def)

lemma tcb_enter_enter [simp]: "tcb_enter st k r d (tcb_enter st' k' r' d' t) = tcb_enter st k r d t"
  by (simp add: tcb_enter_def)

lemma tcb_enter_delay [simp]: "tcb_enter st k r d (t\<lparr>delay_ticks_remaining := x\<rparr>) = tcb_enter st k r d t"
  by (simp add: tcb_enter_def)

lemma tcb_used_enter [simp]: "tcb_used (tcb_enter st k r d t) \<longleftrightarrow> st \<noteq> TASK_STATE_UNUSED"
  by (simp add: tcb_used_def)

lemma task_configure_slot_simps [simp]:
  "tid (task_configure_slot k n e p b z st t) = k" "tname (task_configure_slot k n e p b z st t) = n"
  "entry (task_configure_slot k n e p b z st t) = e" "priority (task_configure_slot k n e p b z st t) = p"
  "tstate (task_configure_slot k n e p b z st t) = st"
  "wait_sem_id (task_configure_slot k n e p b z st t) = 0"
  "wait_reason (task_configure_slot k n e p b z st t) = TASK_WAIT_REASON_NONE"
  "delay_ticks_remaining (task_configure_slot k n e p b z st t) = 0"
  "stack_base (task_configure_slot k n e p b z st t) = b"
  "stack_size (task_configure_slot k n e p b z st t) = z"
  "stack_top (task_configure_slot k n e p b z st t) = b + z"
  "rsp (tcontext (task_configure_slot k n e p b z st t)) = b + z"
  by (simp_all add: task_configure_slot_def task_initialize_context_def task_calculate_stack_top_def)

subsection \<open>The task table as a table keyed by the task id\<close>

interpretation tasks: id_table tcb_used tid lookup_tcb
  by unfold_locales (simp_all add: lookup_tcb_def scan_task_id_def)

lemma scan_task_id_lookup: "0 < k \<Longrightarrow> scan_task_id k tt = lookup_tcb k tt"
  by (simp add: lookup_tcb_def)

lemma task_get_by_id_frames [simp]:
  "task_get_by_id k (say f s) = task_get_by_id k s"
  "task_get_mutable_by_id k (say f s) = task_get_mutable_by_id k s"
  by (simp_all add: task_get_by_id_def task_get_mutable_by_id_def)

text \<open>A state change of a used TCB leaves every lookup as it was.\<close>

lemma lookup_upd_enter:
  assumes "lookup_tcb j (task_table s) = Some i" and "st \<noteq> TASK_STATE_UNUSED"
  shows "lookup_tcb k (task_table (upd_tcb i (tcb_enter st m r d) s)) = lookup_tcb k (task_table s)"
  unfolding task_table_upd_tcb using tasks.lookup_SomeD[OF assms(1)] assms(2)
  by (intro tasks.lookup_update_same) simp_all

subsection \<open>Well-formed task tables\<close>

text \<open>
  A TCB has wait metadata exactly when it is WAITING: a semaphore id for the two semaphore
  waits, remaining ticks for the two timed waits, neither for a sleeper.
\<close>

definition sem_reason :: "task_wait_reason_t \<Rightarrow> bool" where
  "sem_reason r \<longleftrightarrow> r = TASK_WAIT_REASON_SEMAPHORE \<or> r = TASK_WAIT_REASON_SEMAPHORE_TIMEOUT"

definition timed_reason :: "task_wait_reason_t \<Rightarrow> bool" where
  "timed_reason r \<longleftrightarrow> r = TASK_WAIT_REASON_DELAY \<or> r = TASK_WAIT_REASON_SEMAPHORE_TIMEOUT"

definition wait_data_ok :: "tcb_t \<Rightarrow> bool" where
  "wait_data_ok t \<longleftrightarrow>
     (tstate t = TASK_STATE_WAITING) = (wait_reason t \<noteq> TASK_WAIT_REASON_NONE) \<and>
     (if sem_reason (wait_reason t) then 0 < wait_sem_id t else wait_sem_id t = 0) \<and>
     timed_reason (wait_reason t) = (delay_ticks_remaining t \<noteq> 0)"

definition tasks_ok :: "tcb_t list \<Rightarrow> int \<Rightarrow> bool" where
  "tasks_ok tt n \<longleftrightarrow> length tt = MAX_TASKS \<and> 0 < n \<and> n \<le> INT_MAX \<and>
     unique_ids tcb_used tid tt \<and>
     (\<forall>t \<in> set tt. wait_data_ok t \<and> (tcb_used t \<longrightarrow> 0 < tid t \<and> tid t < n))"

lemma tasks_okD:
  assumes "tasks_ok tt n"
  shows "length tt = MAX_TASKS" and "unique_ids tcb_used tid tt"
    and "0 < n" and "n \<le> INT_MAX"
    and "i < MAX_TASKS \<Longrightarrow> wait_data_ok (tt ! i)"
    and "i < MAX_TASKS \<Longrightarrow> tcb_used (tt ! i) \<Longrightarrow> 0 < tid (tt ! i)"
    and "i < MAX_TASKS \<Longrightarrow> tcb_used (tt ! i) \<Longrightarrow> tid (tt ! i) < n"
  using assms nth_mem[of i tt] by (auto simp: tasks_ok_def)

lemma tasks_ok_lookup:
  "tasks_ok tt n \<Longrightarrow> i < MAX_TASKS \<Longrightarrow> tcb_used (tt ! i) \<Longrightarrow> lookup_tcb (tid (tt ! i)) tt = Some i"
  using tasks_okD[of tt n] by (intro tasks.lookup_found) auto

text \<open>Changing the state of a used TCB to a consistent one.\<close>

lemma tasks_ok_update:
  assumes "tasks_ok tt n" and "i < length tt" and "tid t = tid (tt ! i)"
    and "tcb_used t = tcb_used (tt ! i)" and "wait_data_ok t"
  shows "tasks_ok (tt[i := t]) n"
proof -
  have "x \<in> set (tt[i := t]) \<Longrightarrow> wait_data_ok x \<and> (tcb_used x \<longrightarrow> 0 < tid x \<and> tid x < n)" for x
    using assms tasks_okD[OF assms(1)] set_update_subset_insert[of tt i t]
    by (auto simp: tasks_ok_def dest!: subsetD)
  then show ?thesis
    using assms tasks_okD(1-4)[OF assms(1)] by (simp add: tasks_ok_def tasks.unique_update_same)
qed

text \<open>Configuring a free slot with a new id.\<close>

lemma tasks_ok_insert:
  assumes "tasks_ok tt n" and "i < length tt" and "0 < tid t" and "lookup_tcb (tid t) tt = None"
    and "wait_data_ok t" and "tid t < m" and "n \<le> m" and "m \<le> INT_MAX"
  shows "tasks_ok (tt[i := t]) m"
proof -
  have "x \<in> set (tt[i := t]) \<Longrightarrow> wait_data_ok x \<and> (tcb_used x \<longrightarrow> 0 < tid x \<and> tid x < m)" for x
    using assms set_update_subset_insert[of tt i t] by (force simp: tasks_ok_def dest!: subsetD)
  then show ?thesis
    using assms tasks_okD(1-4)[OF assms(1)] by (simp add: tasks_ok_def tasks.unique_insert)
qed

lemma wait_data_ok_enter [simp]:
  "wait_data_ok (tcb_enter TASK_STATE_READY 0 TASK_WAIT_REASON_NONE 0 t)"
  "wait_data_ok (tcb_enter TASK_STATE_RUNNING 0 TASK_WAIT_REASON_NONE 0 t)"
  "wait_data_ok (tcb_enter TASK_STATE_DORMANT 0 TASK_WAIT_REASON_NONE 0 t)"
  "0 < k \<Longrightarrow> wait_data_ok (tcb_enter TASK_STATE_WAITING k TASK_WAIT_REASON_SEMAPHORE 0 t)"
  "0 < k \<Longrightarrow> d \<noteq> 0 \<Longrightarrow> wait_data_ok (tcb_enter TASK_STATE_WAITING k TASK_WAIT_REASON_SEMAPHORE_TIMEOUT d t)"
  "d \<noteq> 0 \<Longrightarrow> wait_data_ok (tcb_enter TASK_STATE_WAITING 0 TASK_WAIT_REASON_DELAY d t)"
  "wait_data_ok (tcb_enter TASK_STATE_WAITING 0 TASK_WAIT_REASON_SLEEP 0 t)"
  by (simp_all add: wait_data_ok_def sem_reason_def timed_reason_def)

definition tasks_inv :: "'a task_module_scheme \<Rightarrow> bool" where
  "tasks_inv s \<longleftrightarrow> tasks_ok (task_table s) (next_task_id s)"

lemma tasks_inv_say [simp]: "tasks_inv (say f s) = tasks_inv s"
  by (simp add: tasks_inv_def)

lemma tasks_inv_enter:
  assumes "tasks_inv s" and "lookup_tcb j (task_table s) = Some i" and "st \<noteq> TASK_STATE_UNUSED"
    and "wait_data_ok (tcb_enter st k r d (task_table s ! i))"
  shows "tasks_inv (upd_tcb i (tcb_enter st k r d) s)"
  using assms tasks.lookup_SomeD[OF assms(2)]
  by (auto simp: tasks_inv_def task_table_upd_tcb intro!: tasks_ok_update)

subsection \<open>Every operation keeps the table well formed\<close>

lemmas task_op_defs =
  task_mark_running_def task_mark_ready_from_running_def task_start_dormant_def
  task_mark_dormant_from_entry_return_def task_mark_waiting_on_sem_def
  task_mark_waiting_on_delay_def task_mark_waiting_on_sem_timeout_def
  task_mark_waiting_on_sleep_def task_wake_waiting_on_sem_by_id_def
  task_wake_waiting_on_delay_by_id_def task_wake_waiting_on_sem_timeout_by_id_def
  task_wake_waiting_on_sleep_by_id_def

lemmas task_scan_defs =
  task_get_by_id_def task_get_mutable_by_id_def scan_task_id_lookup tcb_at_def

lemma tasks_inv_ops:
  assumes "tasks_inv s"
  shows tasks_inv_running: "tasks_inv (snd (task_mark_running k s))"
    and tasks_inv_ready: "tasks_inv (snd (task_mark_ready_from_running k s))"
    and tasks_inv_start: "tasks_inv (snd (task_start_dormant k s))"
    and tasks_inv_dormant: "tasks_inv (snd (task_mark_dormant_from_entry_return k s))"
    and tasks_inv_wait_sem: "tasks_inv (snd (task_mark_waiting_on_sem k m s))"
    and tasks_inv_wait_delay: "tasks_inv (snd (task_mark_waiting_on_delay k d s))"
    and tasks_inv_wait_sem_timeout: "tasks_inv (snd (task_mark_waiting_on_sem_timeout k m d s))"
    and tasks_inv_wait_sleep: "tasks_inv (snd (task_mark_waiting_on_sleep k s))"
    and tasks_inv_wake_sem: "tasks_inv (snd (task_wake_waiting_on_sem_by_id k m s))"
    and tasks_inv_wake_delay: "tasks_inv (snd (task_wake_waiting_on_delay_by_id k s))"
    and tasks_inv_wake_sem_timeout: "tasks_inv (snd (task_wake_waiting_on_sem_timeout_by_id k m s))"
    and tasks_inv_wake_sleep: "tasks_inv (snd (task_wake_waiting_on_sleep_by_id k s))"
  using assms
  by (auto simp: task_op_defs task_scan_defs Let_def intro!: tasks_inv_enter split: option.splits)

lemma find_free_slot_SomeD:
  assumes "find_free_slot s = Some i"
  shows "i < length (task_table s)" and "\<not> tcb_used (task_table s ! i)"
  using first_index_SomeD[OF assms[unfolded find_free_slot_def]] by (simp_all add: tcb_used_def)

lemma wait_data_ok_configure [simp]:
  "st \<noteq> TASK_STATE_WAITING \<Longrightarrow> wait_data_ok (task_configure_slot k n e p b z st t)"
  by (simp add: wait_data_ok_def sem_reason_def timed_reason_def)

lemma fresh_task_id:
  assumes "tasks_ok tt n" and "n \<le> k"
  shows "lookup_tcb k tt = None"
proof (rule ccontr)
  assume "lookup_tcb k tt \<noteq> None"
  then obtain i where i: "lookup_tcb k tt = Some i" by blast
  show False
    using tasks_okD(7)[OF assms(1), of i] tasks_okD(1)[OF assms(1)] tasks.lookup_SomeD[OF i] assms(2)
    by simp
qed

lemma tasks_inv_task_register:
  assumes "tasks_inv s"
  shows "tasks_inv (snd (task_register name ent prio base sz s))"
proof (cases "find_free_slot s")
  case None
  then show ?thesis using assms by (simp add: task_register_def)
next
  case (Some i)
  note slot = find_free_slot_SomeD[OF Some]
  have ok: "tasks_ok (task_table s) (next_task_id s)" using assms by (simp add: tasks_inv_def)
  have "tasks_ok ((task_table s)[i := t]) (next_task_id s + 1)"
    if "next_task_id s < TASK_ID_MAX"
      and "t = task_configure_slot (next_task_id s) name ent prio base sz TASK_STATE_READY (task_table s ! i)"
    for t
    using that slot ok tasks_okD(3)[OF ok]
    by (intro tasks_ok_insert[OF ok]) (auto intro: fresh_task_id[OF ok])
  with Some assms show ?thesis
    by (auto simp: task_register_def allocate_task_id_def Let_def tasks_inv_def upd_tcb_def)
qed

lemma task_id_in_use_lookup: "0 < k \<Longrightarrow> task_id_is_in_use k s = (lookup_tcb k (task_table s) \<noteq> None)"
  by (simp add: task_id_is_in_use_def scan_task_id_lookup)

lemma tasks_inv_task_create_dormant:
  assumes "tasks_inv s" and "k < INT_MAX"
  shows "tasks_inv (snd (task_create_dormant k name ent prio base sz s))"
proof (cases "find_free_slot s")
  case None
  then show ?thesis using assms by (simp add: task_create_dormant_def)
next
  case (Some i)
  note slot = find_free_slot_SomeD[OF Some]
  have ok: "tasks_ok (task_table s) (next_task_id s)" using assms by (simp add: tasks_inv_def)
  have "tasks_ok ((task_table s)[i := t]) (if next_task_id s \<le> k then wrap_int (k + 1) else next_task_id s)"
    if "0 < k" and "lookup_tcb k (task_table s) = None"
      and "t = task_configure_slot k name ent prio base sz TASK_STATE_DORMANT (task_table s ! i)"
    for t
    using that slot ok assms(2) tasks_okD(3,4)[OF ok]
    by (intro tasks_ok_insert[OF ok]) (auto simp: c_int_def)
  with Some assms show ?thesis
    by (auto simp: task_create_dormant_def Let_def tasks_inv_def upd_tcb_def task_id_in_use_lookup)
qed

text \<open>The initial values of the static variables, and \<open>task_init\<close>.\<close>

definition zero_tcb :: tcb_t where
  "zero_tcb = \<lparr>tid = 0, tname = None, entry = 0, priority = 0, tstate = TASK_STATE_UNUSED,
     wait_sem_id = 0, wait_reason = TASK_WAIT_REASON_NONE, delay_ticks_remaining = 0,
     stack_base = 0, stack_size = 0, stack_top = 0,
     tcontext = \<lparr>rsp = 0, rbp = 0, rbx = 0, r12 = 0, r13 = 0, r14 = 0, r15 = 0\<rparr>\<rparr>"

lemma cleared_tcb_zero: "cleared_tcb t = zero_tcb"
  by (simp add: cleared_tcb_def zero_tcb_def task_clear_context_def)

lemma tasks_ok_cleared: "length tt = MAX_TASKS \<Longrightarrow> tasks_ok (map cleared_tcb tt) 1"
  by (auto simp: tasks_ok_def unique_ids_def cleared_tcb_zero zero_tcb_def tcb_used_def
      wait_data_ok_def sem_reason_def timed_reason_def)

lemma tasks_inv_task_init: "length (task_table s) = MAX_TASKS \<Longrightarrow> tasks_inv (task_init s)"
  by (simp add: task_init_def tasks_inv_def tasks_ok_cleared)

end
