(* ===== verification/Semaphore.thy ===== *)
theory Semaphore
  imports Task
begin

section \<open>Semaphores and their wait queues (\<open>kernel/semaphore.c\<close>)\<close>

text \<open>
  The static semaphore table, its id counter and every operation of \<open>semaphore.c\<close> except the
  two functions that dispatch (\<open>sem_legacy_sig_sem_disabled\<close> and its helper), which are in
  \<open>Sem_Legacy\<close>. The wait queue of a semaphore is a ring of \<open>MAX_TASKS\<close> task ids; the second half of
  the theory shows that the ring is a FIFO list. Ring positions and counts, which are never
  negative, are natural numbers. An out parameter is an option in the result: \<open>None\<close> when the
  code does not write it.
\<close>

subsection \<open>Types and constants of \<open>semaphore.h\<close>\<close>

abbreviation (input) MAX_SEMAPHORES :: nat where "MAX_SEMAPHORES \<equiv> 16"
abbreviation (input) SEM_ID_MAX :: int where "SEM_ID_MAX \<equiv> 2147483647"
abbreviation (input) SEM_OK :: int where "SEM_OK \<equiv> 0"
abbreviation (input) SEM_ERR_FULL :: int where "SEM_ERR_FULL \<equiv> -1"
abbreviation (input) SEM_ERR_INVAL :: int where "SEM_ERR_INVAL \<equiv> -2"
abbreviation (input) SEM_ERR_OVERFLOW :: int where "SEM_ERR_OVERFLOW \<equiv> -4"
abbreviation (input) SEM_ERR_TASK :: int where "SEM_ERR_TASK \<equiv> -5"
abbreviation (input) SEM_WAIT_QUEUE_EMPTY :: int where "SEM_WAIT_QUEUE_EMPTY \<equiv> 2"
abbreviation (input) SEM_WAIT_REQUIRED :: int where "SEM_WAIT_REQUIRED \<equiv> 1"

record semaphore_t =
  sem_ident :: int
  sem_name :: c_string
  sem_count :: int
  sem_max_count :: int
  wait_queue :: "int list"
  wait_head :: nat
  wait_tail :: nat
  wait_count :: nat

record semaphore_module = task_module +
  semaphore_table :: "semaphore_t list"
  next_sem_id :: int

definition sem_at :: "nat \<Rightarrow> 'a semaphore_module_scheme \<Rightarrow> semaphore_t" where
  "sem_at i s = semaphore_table s ! i"

definition upd_sem ::
  "nat \<Rightarrow> (semaphore_t \<Rightarrow> semaphore_t) \<Rightarrow> 'a semaphore_module_scheme \<Rightarrow> 'a semaphore_module_scheme" where
  "upd_sem i f s = s\<lparr>semaphore_table := (semaphore_table s)[i := f (semaphore_table s ! i)]\<rparr>"

subsection \<open>The ring of one semaphore\<close>

definition sem_reset_wait_queue :: "semaphore_t \<Rightarrow> semaphore_t" where
  "sem_reset_wait_queue sem =
     sem\<lparr>wait_queue := replicate MAX_TASKS 0, wait_head := 0, wait_tail := 0, wait_count := 0\<rparr>"

definition ring_put :: "int \<Rightarrow> semaphore_t \<Rightarrow> semaphore_t" where
  "ring_put task_id sem =
     sem\<lparr>wait_queue := (wait_queue sem)[wait_tail sem := task_id],
         wait_tail := (wait_tail sem + 1) mod MAX_TASKS,
         wait_count := wait_count sem + 1\<rparr>"

definition ring_take :: "semaphore_t \<Rightarrow> int \<times> semaphore_t" where
  "ring_take sem =
     (wait_queue sem ! wait_head sem,
      sem\<lparr>wait_queue := (wait_queue sem)[wait_head sem := 0],
          wait_head := (wait_head sem + 1) mod MAX_TASKS,
          wait_count := wait_count sem - 1\<rparr>)"

text \<open>
  The first loop of \<open>sem_remove_waiter\<close>: it keeps every queued id but the first occurrence of
  \<open>task_id\<close>, and remembers whether it saw it. The other loops rebuild the ring from the kept ids.
\<close>

definition ring_keep :: "int \<Rightarrow> semaphore_t \<Rightarrow> bool \<times> int list" where
  "ring_keep task_id sem =
     fold (\<lambda>index (removed, kept).
             let queued_task_id = wait_queue sem ! ((wait_head sem + index) mod MAX_TASKS)
             in if \<not> removed \<and> queued_task_id = task_id then (True, kept)
                else (removed, kept @ [queued_task_id]))
       [0..<wait_count sem] (False, [])"

definition ring_rebuild :: "int list \<Rightarrow> semaphore_t \<Rightarrow> semaphore_t" where
  "ring_rebuild kept sem =
     (let sem = sem\<lparr>wait_queue := replicate MAX_TASKS 0, wait_head := 0,
                    wait_tail := length kept mod MAX_TASKS, wait_count := length kept\<rparr>
      in sem\<lparr>wait_queue := fold (\<lambda>index q. q[index := kept ! index]) [0..<length kept] (wait_queue sem)\<rparr>)"

subsection \<open>Slots and ids\<close>

definition find_free_semaphore_slot :: "'a semaphore_module_scheme \<Rightarrow> nat option" where
  "find_free_semaphore_slot s = first_index (\<lambda>sem. sem_ident sem = 0) (semaphore_table s)"

definition allocate_sem_id :: "'a semaphore_module_scheme \<Rightarrow> int \<times> 'a semaphore_module_scheme" where
  "allocate_sem_id s =
     (if next_sem_id s \<le> 0 \<or> next_sem_id s \<ge> SEM_ID_MAX then (SEM_ERR_OVERFLOW, s)
      else (next_sem_id s, s\<lparr>next_sem_id := next_sem_id s + 1\<rparr>))"

definition lookup_sem :: "int \<Rightarrow> semaphore_t list \<Rightarrow> nat option" where
  "lookup_sem sem_id st =
     (if sem_id \<le> 0 then None else first_index (\<lambda>sem. sem_ident sem = sem_id) st)"

definition find_semaphore_by_id :: "int \<Rightarrow> 'a semaphore_module_scheme \<Rightarrow> nat option" where
  "find_semaphore_by_id sem_id s = lookup_sem sem_id (semaphore_table s)"

definition sem_get_by_id :: "int \<Rightarrow> 'a semaphore_module_scheme \<Rightarrow> nat option" where
  "sem_get_by_id sem_id s = find_semaphore_by_id sem_id s"

subsection \<open>Initialisation and creation\<close>

definition cleared_sem :: "semaphore_t \<Rightarrow> semaphore_t" where
  "cleared_sem sem =
     sem_reset_wait_queue (sem\<lparr>sem_ident := 0, sem_name := None, sem_count := 0, sem_max_count := 0\<rparr>)"

definition sem_init :: "'a semaphore_module_scheme \<Rightarrow> int \<times> 'a semaphore_module_scheme" where
  "sem_init s =
     (let s = s\<lparr>semaphore_table := map cleared_sem (semaphore_table s)\<rparr>;
          s = s\<lparr>next_sem_id := 1\<rparr>;
          s = say (\<lambda>s. [''[sem] table initialized\<newline>'']) s
      in (SEM_OK, s))"

definition sem_create ::
  "c_string \<Rightarrow> int \<Rightarrow> int \<Rightarrow> 'a semaphore_module_scheme \<Rightarrow> int \<times> 'a semaphore_module_scheme" where
  "sem_create name initial_count max_count s =
     (if name = None \<or> initial_count < 0 \<or> max_count \<le> 0 \<or> initial_count > max_count
      then (SEM_ERR_INVAL, s)
      else case find_free_semaphore_slot s of
        None \<Rightarrow> (SEM_ERR_FULL, s)
      | Some slot \<Rightarrow>
          (let (ident, s) = allocate_sem_id s
           in if ident < 0 then (ident, s)
              else let s = upd_sem slot (\<lambda>sem. sem_reset_wait_queue
                             (sem\<lparr>sem_ident := ident, sem_name := name, sem_count := initial_count,
                                  sem_max_count := max_count\<rparr>)) s;
                       s = say (\<lambda>s. let sem = sem_at slot s in
                             [''[sem] initialized: id='', int_str (sem_ident sem),
                              '' name='', name_text (sem_name sem),
                              '' count='', int_str (sem_count sem),
                              '' max_count='', int_str (sem_max_count sem), ''\<newline>'']) s
                   in (ident, s)))"

subsection \<open>The count\<close>

text \<open>Result: the return code, \<open>*count_before\<close> and \<open>*count_after\<close>.\<close>

definition sem_take_if_available ::
  "int \<Rightarrow> 'a semaphore_module_scheme \<Rightarrow> (int \<times> int option \<times> int option) \<times> 'a semaphore_module_scheme" where
  "sem_take_if_available sem_id s =
     (case find_semaphore_by_id sem_id s of
        None \<Rightarrow> ((SEM_ERR_INVAL, None, None), s)
      | Some i \<Rightarrow>
          let before = sem_count (sem_at i s)
          in if before > 0
             then let s = upd_sem i (\<lambda>sem. sem\<lparr>sem_count := sem_count sem - 1\<rparr>) s
                  in ((SEM_OK, Some before, Some (sem_count (sem_at i s))), s)
             else ((SEM_WAIT_REQUIRED, Some before, Some before), s))"

definition sem_increment_count ::
  "int \<Rightarrow> 'a semaphore_module_scheme \<Rightarrow> (int \<times> int option \<times> int option) \<times> 'a semaphore_module_scheme" where
  "sem_increment_count sem_id s =
     (case find_semaphore_by_id sem_id s of
        None \<Rightarrow> ((SEM_ERR_INVAL, None, None), s)
      | Some i \<Rightarrow>
          let before = sem_count (sem_at i s)
          in if before \<ge> sem_max_count (sem_at i s)
             then ((SEM_ERR_OVERFLOW, Some before, Some before), s)
             else let s = upd_sem i (\<lambda>sem. sem\<lparr>sem_count := sem_count sem + 1\<rparr>) s
                  in ((SEM_OK, Some before, Some (sem_count (sem_at i s))), s))"

subsection \<open>The wait queue\<close>

definition sem_can_enqueue_waiter :: "int \<Rightarrow> int \<Rightarrow> 'a semaphore_module_scheme \<Rightarrow> int" where
  "sem_can_enqueue_waiter sem_id task_id s =
     (case find_semaphore_by_id sem_id s of
        None \<Rightarrow> SEM_ERR_INVAL
      | Some i \<Rightarrow>
          if task_id \<le> 0 then SEM_ERR_INVAL
          else if wait_count (sem_at i s) \<ge> MAX_TASKS then SEM_ERR_OVERFLOW
          else SEM_OK)"

definition sem_enqueue_waiter ::
  "int \<Rightarrow> int \<Rightarrow> 'a semaphore_module_scheme \<Rightarrow> int \<times> 'a semaphore_module_scheme" where
  "sem_enqueue_waiter sem_id task_id s =
     (case (find_semaphore_by_id sem_id s, task_get_by_id task_id s) of
        (Some i, Some t) \<Rightarrow>
          if task_id \<le> 0 then (SEM_ERR_INVAL, s)
          else if tstate (tcb_at t s) \<noteq> TASK_STATE_WAITING \<or>
             (wait_reason (tcb_at t s) \<noteq> TASK_WAIT_REASON_SEMAPHORE \<and>
              wait_reason (tcb_at t s) \<noteq> TASK_WAIT_REASON_SEMAPHORE_TIMEOUT) \<or>
             wait_sem_id (tcb_at t s) \<noteq> sem_id
          then (SEM_ERR_TASK,
                say (\<lambda>s. [''[sem-wq] enqueue rejected: reason=not-semaphore-waiter sem_id='',
                          int_str sem_id, '' task id='', int_str task_id, ''\<newline>'']) s)
          else if wait_count (sem_at i s) \<ge> MAX_TASKS
          then (SEM_ERR_OVERFLOW,
                say (\<lambda>s. [''[sem-wq] enqueue failed: reason=full sem id='', int_str sem_id,
                          '' task id='', int_str task_id,
                          '' name='', name_or ''(null)'' (tname (tcb_at t s)), ''\<newline>'']) s)
          else let s = upd_sem i (ring_put task_id) s;
                   s = say (\<lambda>s. [''[sem-wq] enqueue: sem id='', int_str sem_id,
                                 '' task id='', int_str task_id,
                                 '' name='', name_or ''(null)'' (tname (tcb_at t s)),
                                 '' queue_count='', int_str (int (wait_count (sem_at i s))), ''\<newline>'']) s
               in (SEM_OK, s)
      | _ \<Rightarrow> (SEM_ERR_INVAL, s))"

text \<open>The name a log line prints for a task id: \<open>(null)\<close> without a task or without a name.\<close>

definition name_of_id :: "int \<Rightarrow> 'a task_module_scheme \<Rightarrow> string" where
  "name_of_id task_id s =
     (case task_get_by_id task_id s of
        None \<Rightarrow> ''(null)''
      | Some t \<Rightarrow> name_or ''(null)'' (tname (tcb_at t s)))"

text \<open>Result: the return code and \<open>*task_id\<close>; all callers pass a non-null out pointer.\<close>

definition sem_dequeue_waiter ::
  "int \<Rightarrow> 'a semaphore_module_scheme \<Rightarrow> (int \<times> int option) \<times> 'a semaphore_module_scheme" where
  "sem_dequeue_waiter sem_id s =
     (case find_semaphore_by_id sem_id s of
        None \<Rightarrow> ((SEM_ERR_INVAL, None), s)
      | Some i \<Rightarrow>
          if wait_count (sem_at i s) = 0
          then ((SEM_WAIT_QUEUE_EMPTY, None),
                say (\<lambda>s. [''[sem-wq] empty: sem_id='', int_str sem_id, ''\<newline>'']) s)
          else let dequeued_task_id = fst (ring_take (sem_at i s));
                   s = upd_sem i (\<lambda>sem. snd (ring_take sem)) s;
                   s = say (\<lambda>s. [''[sem-wq] dequeue: sem_id='', int_str sem_id,
                                 '' task id='', int_str dequeued_task_id,
                                 '' name='', name_of_id dequeued_task_id s,
                                 '' queue_count='', int_str (int (wait_count (sem_at i s))), ''\<newline>'']) s
               in ((SEM_OK, Some dequeued_task_id), s))"

definition sem_remove_waiter ::
  "int \<Rightarrow> int \<Rightarrow> 'a semaphore_module_scheme \<Rightarrow> int \<times> 'a semaphore_module_scheme" where
  "sem_remove_waiter sem_id task_id s =
     (case find_semaphore_by_id sem_id s of
        None \<Rightarrow> (SEM_ERR_INVAL, s)
      | Some i \<Rightarrow>
          if task_id \<le> 0 then (SEM_ERR_INVAL, s)
          else if wait_count (sem_at i s) = 0 then (SEM_WAIT_QUEUE_EMPTY, s)
          else if \<not> fst (ring_keep task_id (sem_at i s)) then (SEM_WAIT_QUEUE_EMPTY, s)
          else let s = upd_sem i (\<lambda>sem. ring_rebuild (snd (ring_keep task_id sem)) sem) s;
                   s = say (\<lambda>s. [''[sem-wq] remove: sem id='', int_str sem_id,
                                 '' task id='', int_str task_id,
                                 '' name='', name_of_id task_id s,
                                 '' reason=timeout queue_count='',
                                 int_str (int (wait_count (sem_at i s))), ''\<newline>'']) s
               in (SEM_OK, s))"

definition sem_dump :: "'a semaphore_module_scheme \<Rightarrow> 'a semaphore_module_scheme" where
  "sem_dump s =
     (let s = say (\<lambda>s. [''[sem] dump start\<newline>'']) s;
          s = fold (\<lambda>sem s. if sem_ident sem = 0 then s
                else say (\<lambda>s. [''[sem] id='', int_str (sem_ident sem),
                       '' name='', name_text (sem_name sem),
                       '' count='', int_str (sem_count sem),
                       '' max_count='', int_str (sem_max_count sem),
                       '' wait_queue_count='', int_str (int (wait_count sem)), ''\<newline>'']) s)
                (semaphore_table s) s
      in say (\<lambda>s. [''[sem] dump end\<newline>'']) s)"

subsection \<open>Reading the result of a write\<close>

lemma semaphore_say [simp]:
  "semaphore_table (say f s) = semaphore_table s" "next_sem_id (say f s) = next_sem_id s"
  by (simp_all add: say_def writes_def)

lemma semaphore_upd_tcb [simp]:
  "semaphore_table (upd_tcb i f s) = semaphore_table s" "next_sem_id (upd_tcb i f s) = next_sem_id s"
  by (simp_all add: upd_tcb_def)

lemma task_upd_sem [simp]:
  "task_table (upd_sem i f s) = task_table s" "next_task_id (upd_sem i f s) = next_task_id s"
  "con (upd_sem i f s) = con s" "next_sem_id (upd_sem i f s) = next_sem_id s"
  by (simp_all add: upd_sem_def)

lemma semaphore_table_upd_sem:
  "semaphore_table (upd_sem i f s) = (semaphore_table s)[i := f (semaphore_table s ! i)]"
  by (simp add: upd_sem_def)

lemma sem_at_say [simp]: "sem_at i (say f s) = sem_at i s"
  by (simp add: sem_at_def)

lemma sem_at_upd_tcb [simp]: "sem_at i (upd_tcb j f s) = sem_at i s"
  by (simp add: sem_at_def)

lemma sem_at_upd_sem: "i < length (semaphore_table s) \<Longrightarrow> sem_at i (upd_sem i f s) = f (sem_at i s)"
  by (simp add: sem_at_def upd_sem_def)

lemma task_get_upd_sem [simp]:
  "task_get_by_id k (upd_sem i f s) = task_get_by_id k s"
  "task_get_mutable_by_id k (upd_sem i f s) = task_get_mutable_by_id k s"
  by (simp_all add: task_get_by_id_def task_get_mutable_by_id_def)

lemma tcb_at_upd_sem [simp]: "tcb_at i (upd_sem j f s) = tcb_at i s"
  by (simp add: tcb_at_def)

lemma find_semaphore_frames [simp]:
  "find_semaphore_by_id k (say f s) = find_semaphore_by_id k s"
  "find_semaphore_by_id k (upd_tcb i g s) = find_semaphore_by_id k s"
  by (simp_all add: find_semaphore_by_id_def)

subsection \<open>The semaphore table as a table keyed by the semaphore id\<close>

definition sem_used :: "semaphore_t \<Rightarrow> bool" where
  "sem_used sem \<longleftrightarrow> sem_ident sem \<noteq> 0"

interpretation sems: id_table sem_used sem_ident lookup_sem
proof
  fix k :: int and xs
  show "lookup_sem k xs = None" if "k \<le> 0" using that by (simp add: lookup_sem_def)
  show "lookup_sem k xs = first_index (\<lambda>e. sem_used e \<and> sem_ident e = k) xs" if "0 < k"
  proof -
    have "(\<lambda>e. sem_used e \<and> sem_ident e = k) = (\<lambda>e. sem_ident e = k)"
      using that by (auto simp: sem_used_def)
    with that show ?thesis by (simp add: lookup_sem_def)
  qed
qed

subsection \<open>FIFO queues\<close>

text \<open>
  A bounded queue as its clients see it: \<open>items\<close> is the abstract list. The clients of the wait
  queue use nothing else.
\<close>

locale fifo =
  fixes items :: "'q \<Rightarrow> 'a list" and ok :: "'q \<Rightarrow> bool" and capacity :: nat
    and put :: "'a \<Rightarrow> 'q \<Rightarrow> 'q" and get :: "'q \<Rightarrow> 'a \<times> 'q"
  assumes bound: "ok q \<Longrightarrow> length (items q) \<le> capacity"
    and put_items: "ok q \<Longrightarrow> length (items q) < capacity \<Longrightarrow> items (put x q) = items q @ [x]"
    and put_ok: "ok q \<Longrightarrow> length (items q) < capacity \<Longrightarrow> ok (put x q)"
    and get_item: "ok q \<Longrightarrow> items q \<noteq> [] \<Longrightarrow> fst (get q) = hd (items q)"
    and get_items: "ok q \<Longrightarrow> items q \<noteq> [] \<Longrightarrow> items (snd (get q)) = tl (items q)"
    and get_ok: "ok q \<Longrightarrow> items q \<noteq> [] \<Longrightarrow> ok (snd (get q))"
begin

fun drain :: "nat \<Rightarrow> 'q \<Rightarrow> 'a list \<times> 'q" where
  "drain 0 q = ([], q)"
| "drain (Suc n) q = (let (x, q) = get q; (xs, q) = drain n q in (x # xs, q))"

lemma put_all:
  "ok q \<Longrightarrow> length (items q) + length xs \<le> capacity \<Longrightarrow>
   ok (fold put xs q) \<and> items (fold put xs q) = items q @ xs"
proof (induction xs arbitrary: q)
  case Nil
  then show ?case by simp
next
  case (Cons x xs)
  have room: "length (items q) < capacity" using Cons.prems by simp
  have "length (items (put x q)) + length xs \<le> capacity"
    using Cons.prems room by (simp add: put_items)
  from Cons.IH[OF put_ok[OF Cons.prems(1) room] this] show ?case
    using Cons.prems(1) room by (simp add: put_items)
qed

lemma drain_items:
  "ok q \<Longrightarrow> n \<le> length (items q) \<Longrightarrow>
   fst (drain n q) = take n (items q) \<and> ok (snd (drain n q)) \<and> items (snd (drain n q)) = drop n (items q)"
proof (induction n arbitrary: q)
  case 0
  then show ?case by simp
next
  case (Suc n)
  then obtain y ys where ys: "items q = y # ys" by (cases "items q") auto
  then have "ok (snd (get q))" and "items (snd (get q)) = ys" and "fst (get q) = y"
    using Suc.prems get_ok get_items get_item by auto
  with Suc.IH[of "snd (get q)"] Suc.prems ys show ?case
    by (simp add: case_prod_beta Let_def)
qed

text \<open>What was put first comes out first.\<close>

lemma first_in_first_out:
  assumes "ok q" and "items q = []" and "length xs \<le> capacity"
  shows "fst (drain (length xs) (fold put xs q)) = xs"
proof -
  have "ok (fold put xs q)" and "items (fold put xs q) = xs"
    using put_all[of q xs] assms by simp_all
  then show ?thesis using drain_items[of "fold put xs q" "length xs"] by simp
qed

end

text \<open>The ids in the ring of a semaphore, oldest first.\<close>

definition waiters :: "semaphore_t \<Rightarrow> int list" where
  "waiters sem = map (\<lambda>k. wait_queue sem ! ((wait_head sem + k) mod MAX_TASKS)) [0..<wait_count sem]"

definition ring_ok :: "semaphore_t \<Rightarrow> bool" where
  "ring_ok sem \<longleftrightarrow> length (wait_queue sem) = MAX_TASKS \<and> wait_head sem < MAX_TASKS \<and>
     wait_count sem \<le> MAX_TASKS \<and> wait_tail sem = (wait_head sem + wait_count sem) mod MAX_TASKS"

lemma length_waiters [simp]: "length (waiters sem) = wait_count sem"
  by (simp add: waiters_def)

lemma waiters_nil [simp]: "waiters sem = [] \<longleftrightarrow> wait_count sem = 0"
  by (simp add: waiters_def)

text \<open>Within one turn of the ring, different offsets are different positions.\<close>

lemma ring_positions_le:
  fixes j k h :: nat
  assumes "j \<le> k" and "k < MAX_TASKS" and "(h + j) mod MAX_TASKS = (h + k) mod MAX_TASKS"
  shows "j = k"
proof -
  have "MAX_TASKS dvd (h + k) - (h + j)"
    using assms by (subst mod_eq_dvd_iff_nat[symmetric]) auto
  then have "MAX_TASKS dvd k - j" by simp
  then show ?thesis using assms(1,2) dvd_imp_le[of MAX_TASKS "k - j"] by (cases "k - j = 0") auto
qed

lemma ring_positions_distinct:
  assumes "j < MAX_TASKS" and "k < MAX_TASKS" and "(h + j) mod MAX_TASKS = (h + k) mod MAX_TASKS"
  shows "j = k"
  using assms ring_positions_le[of j k h] ring_positions_le[of k j h] by (cases "j \<le> k") auto

lemma ring_put_waiters:
  assumes "ring_ok sem" and "wait_count sem < MAX_TASKS"
  shows "waiters (ring_put x sem) = waiters sem @ [x]" and "ring_ok (ring_put x sem)"
proof -
  let ?h = "wait_head sem" and ?n = "wait_count sem"
  have tail: "wait_tail sem = (?h + ?n) mod MAX_TASKS" and len: "length (wait_queue sem) = MAX_TASKS"
    using assms(1) by (simp_all add: ring_ok_def)
  have "(wait_queue sem)[wait_tail sem := x] ! ((?h + k) mod MAX_TASKS)
      = wait_queue sem ! ((?h + k) mod MAX_TASKS)" if "k < ?n" for k
    using ring_positions_distinct[of k ?n ?h] that assms(2) tail by (intro nth_list_update_neq) auto
  moreover have "(wait_queue sem)[wait_tail sem := x] ! ((?h + ?n) mod MAX_TASKS) = x"
    using len tail by simp
  ultimately show "waiters (ring_put x sem) = waiters sem @ [x]"
    by (simp add: waiters_def ring_put_def)
  show "ring_ok (ring_put x sem)"
    using assms tail by (simp add: ring_ok_def ring_put_def mod_simps)
qed

lemma ring_take_waiters:
  assumes "ring_ok sem" and "waiters sem \<noteq> []"
  shows "fst (ring_take sem) = hd (waiters sem)" and "waiters (snd (ring_take sem)) = tl (waiters sem)"
    and "ring_ok (snd (ring_take sem))"
proof -
  let ?h = "wait_head sem"
  obtain n where n: "wait_count sem = Suc n" using assms(2) by (cases "wait_count sem") auto
  have head: "?h < MAX_TASKS" and len: "length (wait_queue sem) = MAX_TASKS" and bound: "Suc n \<le> MAX_TASKS"
    using assms(1) n by (simp_all add: ring_ok_def)
  show "fst (ring_take sem) = hd (waiters sem)"
    using n head by (simp add: ring_take_def waiters_def upt_rec hd_map)
  have "(wait_queue sem)[?h := 0] ! (((?h + 1) mod MAX_TASKS + k) mod MAX_TASKS)
      = wait_queue sem ! ((?h + Suc k) mod MAX_TASKS)" if "k < n" for k
  proof -
    have "((?h + 1) mod MAX_TASKS + k) mod MAX_TASKS = (?h + Suc k) mod MAX_TASKS"
      by (simp add: mod_simps)
    moreover have "?h \<noteq> (?h + Suc k) mod MAX_TASKS"
      using ring_positions_distinct[of "Suc k" 0 ?h] that bound head by auto
    ultimately show ?thesis by (simp del: add_Suc_right)
  qed
  then have "waiters (snd (ring_take sem))
      = map (\<lambda>k. wait_queue sem ! ((?h + Suc k) mod MAX_TASKS)) [0..<n]"
    by (simp add: waiters_def ring_take_def n)
  also have "\<dots> = tl (waiters sem)"
    by (simp add: waiters_def n upt_rec[of 0] map_tl[symmetric] flip: map_Suc_upt del: upt_Suc)
  finally show "waiters (snd (ring_take sem)) = tl (waiters sem)" .
  show "ring_ok (snd (ring_take sem))"
    using assms(1) n by (simp add: ring_ok_def ring_take_def mod_simps)
qed

lemma ring_ok_bound: "ring_ok sem \<Longrightarrow> wait_count sem \<le> MAX_TASKS"
  by (simp add: ring_ok_def)

interpretation waitq: fifo waiters ring_ok MAX_TASKS ring_put ring_take
  by unfold_locales (simp_all add: ring_put_waiters ring_take_waiters ring_ok_bound)

subsection \<open>Removal from the middle\<close>

lemma fold_keep:
  "fold (\<lambda>x (removed, kept). if \<not> removed \<and> x = k then (True, kept) else (removed, kept @ [x]))
     xs (r, acc) = (r \<or> k \<in> set xs, acc @ (if r then xs else remove1 k xs))"
  by (induction xs arbitrary: r acc) auto

lemma ring_keep_waiters:
  "ring_keep k sem = (k \<in> set (waiters sem), remove1 k (waiters sem))"
proof -
  have "ring_keep k sem
      = fold (\<lambda>x (removed, kept). if \<not> removed \<and> x = k then (True, kept) else (removed, kept @ [x]))
          (waiters sem) (False, [])"
    by (simp add: ring_keep_def waiters_def fold_map comp_def Let_def)
  then show ?thesis by (simp add: fold_keep)
qed

lemma fold_write_prefix:
  "n \<le> length kept \<Longrightarrow> n \<le> length q \<Longrightarrow>
   fold (\<lambda>i q. q[i := kept ! i]) [0..<n] q = take n kept @ drop n q"
proof (induction n)
  case 0
  show ?case by simp
next
  case (Suc n)
  then have "fold (\<lambda>i q. q[i := kept ! i]) [0..<Suc n] q = (take n kept @ drop n q)[n := kept ! n]"
    by simp
  also have "\<dots> = take n kept @ kept ! n # drop (Suc n) q"
    using Suc.prems by (simp add: list_update_append Cons_nth_drop_Suc[symmetric])
  finally show ?case using Suc.prems by (simp add: take_Suc_conv_app_nth)
qed

lemma ring_rebuild_queue:
  "length kept \<le> MAX_TASKS \<Longrightarrow>
   wait_queue (ring_rebuild kept sem) = kept @ replicate (MAX_TASKS - length kept) 0"
  by (simp add: ring_rebuild_def Let_def fold_write_prefix)

lemma ring_rebuild_waiters:
  assumes "length kept \<le> MAX_TASKS"
  shows "waiters (ring_rebuild kept sem) = kept" and "ring_ok (ring_rebuild kept sem)"
proof -
  have fields: "wait_head (ring_rebuild kept sem) = 0" "wait_count (ring_rebuild kept sem) = length kept"
      "wait_tail (ring_rebuild kept sem) = length kept mod MAX_TASKS"
    by (simp_all add: ring_rebuild_def Let_def)
  show "waiters (ring_rebuild kept sem) = kept"
    using assms by (intro nth_equalityI) (simp_all add: waiters_def fields ring_rebuild_queue nth_append)
  show "ring_ok (ring_rebuild kept sem)"
    using assms by (simp add: ring_ok_def fields ring_rebuild_queue)
qed

lemma ring_fields [simp]:
  "sem_ident (ring_put k sem) = sem_ident sem" "sem_count (ring_put k sem) = sem_count sem"
  "sem_max_count (ring_put k sem) = sem_max_count sem" "sem_name (ring_put k sem) = sem_name sem"
  "sem_ident (snd (ring_take sem)) = sem_ident sem" "sem_count (snd (ring_take sem)) = sem_count sem"
  "sem_max_count (snd (ring_take sem)) = sem_max_count sem" "sem_name (snd (ring_take sem)) = sem_name sem"
  "sem_ident (ring_rebuild q sem) = sem_ident sem" "sem_count (ring_rebuild q sem) = sem_count sem"
  "sem_max_count (ring_rebuild q sem) = sem_max_count sem" "sem_name (ring_rebuild q sem) = sem_name sem"
  by (simp_all add: ring_put_def ring_take_def ring_rebuild_def Let_def)

lemma reset_queue_waiters [simp]:
  "waiters (sem_reset_wait_queue sem) = []" "ring_ok (sem_reset_wait_queue sem)"
  "sem_ident (sem_reset_wait_queue sem) = sem_ident sem" "sem_count (sem_reset_wait_queue sem) = sem_count sem"
  "sem_max_count (sem_reset_wait_queue sem) = sem_max_count sem"
  by (simp_all add: sem_reset_wait_queue_def waiters_def ring_ok_def)

lemma waiters_count_update [simp]:
  "waiters (sem\<lparr>sem_count := c\<rparr>) = waiters sem" "ring_ok (sem\<lparr>sem_count := c\<rparr>) = ring_ok sem"
  by (simp_all add: waiters_def ring_ok_def)

subsection \<open>Well-formed semaphore tables\<close>

definition sem_ok :: "semaphore_t \<Rightarrow> bool" where
  "sem_ok sem \<longleftrightarrow> ring_ok sem \<and> distinct (waiters sem) \<and>
     0 \<le> sem_count sem \<and> sem_count sem \<le> sem_max_count sem \<and> sem_max_count sem \<le> INT_MAX \<and>
     (waiters sem \<noteq> [] \<longrightarrow> sem_count sem = 0) \<and>
     (if sem_used sem then 0 < sem_ident sem \<and> 0 < sem_max_count sem else waiters sem = [])"

definition sems_ok :: "semaphore_t list \<Rightarrow> int \<Rightarrow> bool" where
  "sems_ok st n \<longleftrightarrow> length st = MAX_SEMAPHORES \<and> 0 < n \<and> n \<le> INT_MAX \<and>
     unique_ids sem_used sem_ident st \<and>
     (\<forall>sem \<in> set st. sem_ok sem \<and> (sem_used sem \<longrightarrow> sem_ident sem < n))"

lemma sems_okD:
  assumes "sems_ok st n"
  shows "length st = MAX_SEMAPHORES" and "unique_ids sem_used sem_ident st"
    and "0 < n" and "n \<le> INT_MAX"
    and "i < MAX_SEMAPHORES \<Longrightarrow> sem_ok (st ! i)"
    and "i < MAX_SEMAPHORES \<Longrightarrow> sem_used (st ! i) \<Longrightarrow> sem_ident (st ! i) < n"
  using assms nth_mem[of i st] by (auto simp: sems_ok_def)

lemma sems_ok_update:
  assumes "sems_ok st n" and "i < length st" and "sem_ident sem = sem_ident (st ! i)" and "sem_ok sem"
  shows "sems_ok (st[i := sem]) n"
proof -
  have used: "sem_used sem = sem_used (st ! i)" using assms(3) by (simp add: sem_used_def)
  have "x \<in> set (st[i := sem]) \<Longrightarrow> sem_ok x \<and> (sem_used x \<longrightarrow> sem_ident x < n)" for x
    using assms used sems_okD[OF assms(1)] set_update_subset_insert[of st i sem]
    by (auto simp: sems_ok_def dest!: subsetD)
  then show ?thesis
    using assms used sems_okD(1-4)[OF assms(1)] by (simp add: sems_ok_def sems.unique_update_same)
qed

lemma sems_ok_insert:
  assumes "sems_ok st n" and "i < length st" and "sem_ident sem = n" and "n < INT_MAX" and "sem_ok sem"
  shows "sems_ok (st[i := sem]) (n + 1)"
proof -
  have n: "0 < n" using sems_okD(3)[OF assms(1)] .
  have fresh: "lookup_sem n st = None"
  proof (rule ccontr)
    assume "lookup_sem n st \<noteq> None"
    then obtain j where j: "lookup_sem n st = Some j" by blast
    show False
      using sems.lookup_SomeD[OF j] sems_okD(1)[OF assms(1)] sems_okD(6)[OF assms(1), of j] by simp
  qed
  have "x \<in> set (st[i := sem]) \<Longrightarrow> sem_ok x \<and> (sem_used x \<longrightarrow> sem_ident x < n + 1)" for x
    using assms set_update_subset_insert[of st i sem] by (force simp: sems_ok_def dest!: subsetD)
  then show ?thesis
    using assms n fresh sems_okD(1-4)[OF assms(1)] by (simp add: sems_ok_def sems.unique_insert)
qed

lemma sem_ok_put:
  assumes "sem_ok sem" and "k \<notin> set (waiters sem)" and "wait_count sem < MAX_TASKS"
    and "sem_count sem = 0" and "sem_used sem"
  shows "sem_ok (ring_put k sem)"
  using assms waiters_nil[of "ring_put k sem"]
  by (auto simp: sem_ok_def ring_put_waiters sem_used_def simp del: waiters_nil)

lemma sem_ok_take:
  assumes "sem_ok sem" and "waiters sem \<noteq> []"
  shows "sem_ok (snd (ring_take sem))"
  using assms
  by (auto simp: sem_ok_def ring_take_waiters sem_used_def distinct_tl simp del: waiters_nil split: if_splits)

lemma sem_ok_remove:
  assumes "sem_ok sem"
  shows "sem_ok (ring_rebuild (remove1 k (waiters sem)) sem)"
proof -
  have "length (remove1 k (waiters sem)) \<le> MAX_TASKS"
    using assms ring_ok_bound[of sem] by (auto simp: sem_ok_def length_remove1)
  then show ?thesis
    using assms
    by (auto simp: sem_ok_def ring_rebuild_waiters sem_used_def simp del: waiters_nil split: if_splits)
qed

definition sems_inv :: "'a semaphore_module_scheme \<Rightarrow> bool" where
  "sems_inv s \<longleftrightarrow> sems_ok (semaphore_table s) (next_sem_id s)"

lemma sems_inv_frames [simp]:
  "sems_inv (say f s) = sems_inv s" "sems_inv (upd_tcb i g s) = sems_inv s"
  by (simp_all add: sems_inv_def)

lemma sems_inv_upd_sem:
  "sems_inv s \<Longrightarrow> i < length (semaphore_table s) \<Longrightarrow> sem_ident (f (sem_at i s)) = sem_ident (sem_at i s) \<Longrightarrow>
   sem_ok (f (sem_at i s)) \<Longrightarrow> sems_inv (upd_sem i f s)"
  by (simp add: sems_inv_def semaphore_table_upd_sem sem_at_def sems_ok_update)

lemma find_semaphore_SomeD:
  assumes "find_semaphore_by_id k s = Some i"
  shows "i < length (semaphore_table s)" and "sem_used (sem_at i s)" and "sem_ident (sem_at i s) = k" and "0 < k"
  using sems.lookup_SomeD[of k "semaphore_table s" i] assms
  by (simp_all add: find_semaphore_by_id_def sem_at_def)

lemma sems_inv_sem_ok:
  "sems_inv s \<Longrightarrow> find_semaphore_by_id k s = Some i \<Longrightarrow> sem_ok (sem_at i s)"
  using find_semaphore_SomeD[of k s i] sems_okD(1,5)[of "semaphore_table s" "next_sem_id s"]
  by (simp add: sems_inv_def sem_at_def)

end
