(* ===== verification/Delay_Queue.thy ===== *)
theory Delay_Queue
  imports Semaphore
begin

section \<open>The delay queue (\<open>kernel/delay_queue.c\<close>)\<close>

text \<open>
  The array of waits with a time limit: a task id with the ticks it has left, the used entries
  first. A tick counts every entry down, and an entry that reaches zero wakes its task: a plain
  delay, or a semaphore wait with timeout, which also leaves the semaphore's wait queue.
\<close>

subsection \<open>Types and constants\<close>

abbreviation (input) DELAY_QUEUE_OK :: int where "DELAY_QUEUE_OK \<equiv> 0"
abbreviation (input) DELAY_QUEUE_ERR_INVAL :: int where "DELAY_QUEUE_ERR_INVAL \<equiv> -1"
abbreviation (input) DELAY_QUEUE_ERR_FULL :: int where "DELAY_QUEUE_ERR_FULL \<equiv> -2"
abbreviation (input) DELAY_QUEUE_ERR_DUPLICATE :: int where "DELAY_QUEUE_ERR_DUPLICATE \<equiv> -3"
abbreviation (input) DELAY_QUEUE_ERR_TASK_STATE :: int where "DELAY_QUEUE_ERR_TASK_STATE \<equiv> -4"

record delay_queue_entry_t =
  dq_task_id :: int
  dq_remaining :: u32

record delay_module = semaphore_module +
  delay_queue_entries :: "delay_queue_entry_t list"
  delay_queue_count :: nat

definition dq_at :: "nat \<Rightarrow> 'a delay_module_scheme \<Rightarrow> delay_queue_entry_t" where
  "dq_at i s = delay_queue_entries s ! i"

definition set_dq :: "nat \<Rightarrow> delay_queue_entry_t \<Rightarrow> 'a delay_module_scheme \<Rightarrow> 'a delay_module_scheme" where
  "set_dq i e s = s\<lparr>delay_queue_entries := (delay_queue_entries s)[i := e]\<rparr>"

subsection \<open>Names for the log\<close>

fun delay_queue_task_state_name :: "task_state_t \<Rightarrow> string" where
  "delay_queue_task_state_name TASK_STATE_UNUSED = ''UNUSED''"
| "delay_queue_task_state_name TASK_STATE_DORMANT = ''DORMANT''"
| "delay_queue_task_state_name TASK_STATE_READY = ''READY''"
| "delay_queue_task_state_name TASK_STATE_RUNNING = ''RUNNING''"
| "delay_queue_task_state_name TASK_STATE_WAITING = ''WAITING''"

text \<open>The switch has no case for \<open>TASK_WAIT_REASON_SLEEP\<close>: it takes the default.\<close>

definition delay_queue_wait_reason_name :: "task_wait_reason_t \<Rightarrow> string" where
  "delay_queue_wait_reason_name reason =
     (case reason of
        TASK_WAIT_REASON_NONE \<Rightarrow> ''none''
      | TASK_WAIT_REASON_SEMAPHORE \<Rightarrow> ''semaphore''
      | TASK_WAIT_REASON_DELAY \<Rightarrow> ''delay''
      | TASK_WAIT_REASON_SEMAPHORE_TIMEOUT \<Rightarrow> ''semaphore-timeout''
      | _ \<Rightarrow> ''unknown'')"

subsection \<open>Lookup, initialisation, insertion\<close>

text \<open>The C function returns -1 for \<open>None\<close>.\<close>

definition delay_queue_find_index_by_task_id :: "int \<Rightarrow> 'a delay_module_scheme \<Rightarrow> nat option" where
  "delay_queue_find_index_by_task_id task_id s =
     first_index (\<lambda>e. dq_task_id e = task_id) (take (delay_queue_count s) (delay_queue_entries s))"

definition delay_queue_init :: "'a delay_module_scheme \<Rightarrow> int \<times> 'a delay_module_scheme" where
  "delay_queue_init s =
     (let s = s\<lparr>delay_queue_entries :=
                  map (\<lambda>e. e\<lparr>dq_task_id := 0, dq_remaining := 0\<rparr>) (delay_queue_entries s)\<rparr>;
          s = s\<lparr>delay_queue_count := 0\<rparr>;
          s = say (\<lambda>s. [''[delay-q] initialized\<newline>'']) s
      in (DELAY_QUEUE_OK, s))"

definition delay_queue_can_enqueue :: "int \<Rightarrow> 'a delay_module_scheme \<Rightarrow> int" where
  "delay_queue_can_enqueue task_id s =
     (if task_id \<le> 0 then DELAY_QUEUE_ERR_INVAL
      else if delay_queue_find_index_by_task_id task_id s \<noteq> None then DELAY_QUEUE_ERR_DUPLICATE
      else if delay_queue_count s \<ge> MAX_TASKS then DELAY_QUEUE_ERR_FULL
      else DELAY_QUEUE_OK)"

definition delay_queue_enqueue ::
  "int \<Rightarrow> u32 \<Rightarrow> 'a delay_module_scheme \<Rightarrow> int \<times> 'a delay_module_scheme" where
  "delay_queue_enqueue task_id delay_ticks s =
     (case task_get_by_id task_id s of
        None \<Rightarrow> (DELAY_QUEUE_ERR_INVAL, s)
      | Some t \<Rightarrow>
          if delay_ticks = 0 then (DELAY_QUEUE_ERR_INVAL, s)
          else if tstate (tcb_at t s) \<noteq> TASK_STATE_WAITING \<or>
             (wait_reason (tcb_at t s) \<noteq> TASK_WAIT_REASON_DELAY \<and>
              wait_reason (tcb_at t s) \<noteq> TASK_WAIT_REASON_SEMAPHORE_TIMEOUT)
          then (DELAY_QUEUE_ERR_TASK_STATE,
                say (\<lambda>s. [''[delay-q] enqueue failed: reason=not-delay-compatible-waiter task id='',
                          int_str task_id, ''\<newline>'']) s)
          else let can_enqueue_result = delay_queue_can_enqueue task_id s
          in if can_enqueue_result = DELAY_QUEUE_ERR_FULL
          then (can_enqueue_result,
                say (\<lambda>s. [''[delay-q] enqueue failed: reason=full task id='', int_str task_id,
                          '' name='', name_or ''(null)'' (tname (tcb_at t s)),
                          '' delay_ticks='', u32_str delay_ticks, ''\<newline>'']) s)
          else if can_enqueue_result = DELAY_QUEUE_ERR_DUPLICATE
          then (can_enqueue_result,
                say (\<lambda>s. [''[delay-q] enqueue failed: reason=duplicate task id='', int_str task_id,
                          '' name='', name_or ''(null)'' (tname (tcb_at t s)),
                          '' delay_ticks='', u32_str delay_ticks, ''\<newline>'']) s)
          else if can_enqueue_result \<noteq> DELAY_QUEUE_OK then (can_enqueue_result, s)
          else let s = set_dq (delay_queue_count s)
                         \<lparr>dq_task_id = task_id, dq_remaining = delay_ticks\<rparr> s;
                   s = s\<lparr>delay_queue_count := delay_queue_count s + 1\<rparr>;
                   s = say (\<lambda>s. [''[delay-q] enqueue: task id='', int_str task_id,
                                 '' name='', name_or ''(null)'' (tname (tcb_at t s)),
                                 '' delay_ticks='', u32_str delay_ticks,
                                 '' queue_count='', int_str (int (delay_queue_count s)), ''\<newline>'']) s
               in (DELAY_QUEUE_OK, s))"

definition delay_queue_dump :: "'a delay_module_scheme \<Rightarrow> 'a delay_module_scheme" where
  "delay_queue_dump s =
     (let s = say (\<lambda>s. [''[delay-q] dump begin: count='', int_str (int (delay_queue_count s)), ''\<newline>'']) s;
          s = fold (\<lambda>index s.
                let e = dq_at index s;
                    s = say (\<lambda>s. [''[delay-q] entry: index='', int_str (int index),
                                  '' task id='', int_str (dq_task_id e)]) s
                in case task_get_by_id (dq_task_id e) s of
                     None \<Rightarrow> say (\<lambda>s. ['' name=(missing) remaining='', u32_str (dq_remaining e),
                                         '' reason=unknown state=UNKNOWN\<newline>'']) s
                   | Some t \<Rightarrow> tcb_say t (\<lambda>t. ['' name='', name_or ''(null)'' (tname t),
                                         '' remaining='', u32_str (dq_remaining e),
                                         '' reason='', delay_queue_wait_reason_name (wait_reason t),
                                         '' state='', delay_queue_task_state_name (tstate t),
                                         ''\<newline>'']) s)
                [0..<delay_queue_count s] s
      in say (\<lambda>s. [''[delay-q] dump end\<newline>'']) s)"

subsection \<open>Removal\<close>

text \<open>The loop that moves every later entry one place down.\<close>

definition dq_shift :: "nat list \<Rightarrow> 'a delay_module_scheme \<Rightarrow> 'a delay_module_scheme" where
  "dq_shift js s = fold (\<lambda>index s. set_dq index (dq_at (index + 1) s) s) js s"

definition delay_queue_remove_at :: "nat \<Rightarrow> 'a delay_module_scheme \<Rightarrow> 'a delay_module_scheme" where
  "delay_queue_remove_at remove_index s =
     (let s = dq_shift [remove_index..<delay_queue_count s - 1] s
      in if delay_queue_count s > 0
         then let s = set_dq (delay_queue_count s - 1) \<lparr>dq_task_id = 0, dq_remaining = 0\<rparr> s
              in s\<lparr>delay_queue_count := delay_queue_count s - 1\<rparr>
         else s)"

definition delay_queue_remove_sem_timeout_waiter ::
  "int \<Rightarrow> 'a delay_module_scheme \<Rightarrow> int \<times> 'a delay_module_scheme" where
  "delay_queue_remove_sem_timeout_waiter task_id s =
     (case task_get_mutable_by_id task_id s of
        None \<Rightarrow> (DELAY_QUEUE_ERR_INVAL, s)
      | Some t \<Rightarrow>
          if task_id \<le> 0 then (DELAY_QUEUE_ERR_INVAL, s)
          else if tstate (tcb_at t s) \<noteq> TASK_STATE_WAITING \<or>
             wait_reason (tcb_at t s) \<noteq> TASK_WAIT_REASON_SEMAPHORE_TIMEOUT
          then (DELAY_QUEUE_ERR_TASK_STATE,
                tcb_say t (\<lambda>t. [''[delay-q] remove rejected: task id='', int_str task_id,
                          '' name='', name_or ''(null)'' (tname t),
                          '' reason='', delay_queue_wait_reason_name (wait_reason t),
                          '' state='', delay_queue_task_state_name (tstate t), ''\<newline>'']) s)
          else case delay_queue_find_index_by_task_id task_id s of
            None \<Rightarrow> (DELAY_QUEUE_ERR_INVAL, s)
          | Some index \<Rightarrow>
              (let s = tcb_say t (\<lambda>t. [''[delay-q] remove: task id='', int_str task_id,
                          '' name='', name_or ''(null)'' (tname t),
                          '' reason=semaphore-timeout'']) s;
                   s = delay_queue_remove_at index s;
                   s = say (\<lambda>s. ['' queue_count='', int_str (int (delay_queue_count s)), ''\<newline>'']) s
               in (DELAY_QUEUE_OK, s)))"

subsection \<open>The tick\<close>

text \<open>
  What an expired entry does for its task: \<open>reason\<close> is the wait reason read at the start of the
  iteration, \<open>entry_id\<close> the task id of the entry.
\<close>

definition delay_queue_expire ::
  "nat option \<Rightarrow> task_wait_reason_t \<Rightarrow> int \<Rightarrow> 'a delay_module_scheme \<Rightarrow> 'a delay_module_scheme" where
  "delay_queue_expire task reason entry_id s =
     (case task of
        Some t \<Rightarrow>
          if reason = TASK_WAIT_REASON_SEMAPHORE_TIMEOUT
          then let (sem_remove_result, s) = sem_remove_waiter (wait_sem_id (tcb_at t s)) (tid (tcb_at t s)) s
               in if sem_remove_result = SEM_OK
                  then let s = tcb_say t (\<lambda>t. [''[twai-sem] timeout: semid='', int_str (wait_sem_id t),
                                 '' task id='', int_str (tid t),
                                 '' name='', name_or ''(null)'' (tname t), ''\<newline>'']) s;
                           s = snd (task_wake_waiting_on_sem_timeout_by_id (tid (tcb_at t s))
                                      (wait_sem_id (tcb_at t s)) s)
                       in say (\<lambda>s. [''[twai-sem] completed: result=E_TMOUT action=timeout\<newline>'']) s
                  else tcb_say t (\<lambda>t. [''[delay-q] semaphore timeout cleanup failed: task id='',
                                 int_str (tid t), '' err='', int_str sem_remove_result, ''\<newline>'']) s
          else if reason = TASK_WAIT_REASON_DELAY
          then snd (task_wake_waiting_on_delay_by_id (tid (tcb_at t s)) s)
          else say (\<lambda>s. [''[delay-q] timeout skipped: reason=invalid-task-state task id='',
                         int_str entry_id, ''\<newline>'']) s
      | None \<Rightarrow> say (\<lambda>s. [''[delay-q] timeout skipped: reason=invalid-task-state task id='',
                         int_str entry_id, ''\<newline>'']) s)"

definition dq_name :: "nat option \<Rightarrow> 'a delay_module_scheme \<Rightarrow> string" where
  "dq_name task s =
     (case task of None \<Rightarrow> ''(null)'' | Some t \<Rightarrow> name_or ''(null)'' (tname (tcb_at t s)))"

text \<open>
  The first half of an iteration: the entry and the TCB lose a tick. \<open>before\<close>, \<open>after\<close>, \<open>task\<close> and
  \<open>reason\<close> are the values read at its start.
\<close>

definition delay_queue_tick_down ::
  "nat \<Rightarrow> int \<Rightarrow> nat option \<Rightarrow> task_wait_reason_t \<Rightarrow> u32 \<Rightarrow> u32 \<Rightarrow> 'a delay_module_scheme \<Rightarrow>
   'a delay_module_scheme" where
  "delay_queue_tick_down index entry_id task reason before after s =
     (let s = set_dq index (dq_at index s\<lparr>dq_remaining := after\<rparr>) s;
          s = (case task of None \<Rightarrow> s
               | Some t \<Rightarrow> upd_tcb t (\<lambda>t. t\<lparr>delay_ticks_remaining := after\<rparr>) s)
      in say (\<lambda>s. [''[delay-q] tick entry: task id='', int_str entry_id,
                   '' name='', dq_name task s,
                   '' remaining '', u32_str before, ''->'', u32_str after,
                   '' reason='', delay_queue_wait_reason_name reason,
                   '' state='', (case task of None \<Rightarrow> ''UNKNOWN''
                       | Some t \<Rightarrow> delay_queue_task_state_name (tstate (tcb_at t s))), ''\<newline>'']) s)"

text \<open>The second half, for an entry without ticks left.\<close>

definition delay_queue_timeout ::
  "nat \<Rightarrow> int \<Rightarrow> nat option \<Rightarrow> task_wait_reason_t \<Rightarrow> 'a delay_module_scheme \<Rightarrow> 'a delay_module_scheme" where
  "delay_queue_timeout index entry_id task reason s =
     (let s = say (\<lambda>s. [''[delay-q] timeout reached: task id='', int_str entry_id,
                        '' name='', dq_name task s,
                        '' reason='', delay_queue_wait_reason_name reason]
                @ (case task of None \<Rightarrow> []
                   | Some t \<Rightarrow> if reason = TASK_WAIT_REASON_SEMAPHORE_TIMEOUT
                               then ['' sem id='', int_str (wait_sem_id (tcb_at t s))] else [])
                @ [''\<newline>'']) s;
          s = delay_queue_expire task reason entry_id s;
          s = say (\<lambda>s. [''[delay-q] remove: task id='', int_str entry_id,
                        '' name='', dq_name task s,
                        '' reason='', delay_queue_wait_reason_name reason]) s;
          s = delay_queue_remove_at index s
      in say (\<lambda>s. ['' queue_count='', int_str (int (delay_queue_count s)), ''\<newline>'']) s)"

text \<open>One iteration of the loop: the next index, the expired count and the state.\<close>

definition delay_queue_tick_entry ::
  "nat \<Rightarrow> int \<Rightarrow> 'a delay_module_scheme \<Rightarrow> nat \<times> int \<times> 'a delay_module_scheme" where
  "delay_queue_tick_entry index expired_count s =
     (let entry_id = dq_task_id (dq_at index s);
          task = task_get_mutable_by_id entry_id s;
          before = dq_remaining (dq_at index s);
          after = (if before > 0 then before - 1 else 0);
          reason = (case task of None \<Rightarrow> TASK_WAIT_REASON_NONE | Some t \<Rightarrow> wait_reason (tcb_at t s));
          s = delay_queue_tick_down index entry_id task reason before after s
      in if after > 0 then (index + 1, expired_count, s)
         else (index, expired_count + 1, delay_queue_timeout index entry_id task reason s))"

subsection \<open>The loop ends: every iteration leaves one entry less to visit\<close>

lemma delay_queue_say [simp]:
  "delay_queue_count (say f s) = delay_queue_count s"
  "delay_queue_entries (say f s) = delay_queue_entries s"
  by (simp_all add: say_def writes_def)

lemma delay_queue_upd_tcb [simp]:
  "delay_queue_count (upd_tcb i f s) = delay_queue_count s"
  "delay_queue_entries (upd_tcb i f s) = delay_queue_entries s"
  by (simp_all add: upd_tcb_def)

lemma delay_queue_upd_sem [simp]:
  "delay_queue_count (upd_sem i f s) = delay_queue_count s"
  "delay_queue_entries (upd_sem i f s) = delay_queue_entries s"
  by (simp_all add: upd_sem_def)

lemma delay_queue_count_set_dq [simp]: "delay_queue_count (set_dq i e s) = delay_queue_count s"
  by (simp add: set_dq_def)

lemma delay_queue_count_fold_set_dq [simp]:
  "delay_queue_count (fold (\<lambda>i s. set_dq i (f i s) s) is s) = delay_queue_count s"
  by (induction "is" arbitrary: s) simp_all

lemma delay_queue_count_shift [simp]: "delay_queue_count (dq_shift js s) = delay_queue_count s"
  unfolding dq_shift_def by (rule delay_queue_count_fold_set_dq)

lemma delay_queue_count_remove_at [simp]:
  "delay_queue_count (delay_queue_remove_at i s) = delay_queue_count s - 1"
  by (simp add: delay_queue_remove_at_def Let_def)

lemma delay_queue_sem_remove_waiter [simp]:
  "delay_queue_count (snd (sem_remove_waiter k m s)) = delay_queue_count s"
  "delay_queue_entries (snd (sem_remove_waiter k m s)) = delay_queue_entries s"
  by (auto simp: sem_remove_waiter_def Let_def split: option.splits)

lemma delay_queue_task_wakes [simp]:
  "delay_queue_count (snd (task_wake_waiting_on_sem_timeout_by_id k m s)) = delay_queue_count s"
  "delay_queue_entries (snd (task_wake_waiting_on_sem_timeout_by_id k m s)) = delay_queue_entries s"
  "delay_queue_count (snd (task_wake_waiting_on_delay_by_id k s)) = delay_queue_count s"
  "delay_queue_entries (snd (task_wake_waiting_on_delay_by_id k s)) = delay_queue_entries s"
  by (auto simp: task_op_defs Let_def split: option.splits)

lemma delay_queue_expire_frame [simp]:
  "delay_queue_count (delay_queue_expire t r k s) = delay_queue_count s"
  "delay_queue_entries (delay_queue_expire t r k s) = delay_queue_entries s"
  by (auto simp: delay_queue_expire_def Let_def case_prod_beta split: option.splits)

lemma delay_queue_count_tick [simp]:
  "delay_queue_count (delay_queue_tick_down i k t r b a s) = delay_queue_count s"
  "delay_queue_count (delay_queue_timeout i k t r s) = delay_queue_count s - 1"
  by (simp_all add: delay_queue_tick_down_def delay_queue_timeout_def Let_def split: option.split)

lemma delay_queue_tick_entry_count:
  assumes "delay_queue_tick_entry index expired s = (index', expired', s')"
  shows "index' = index + 1 \<and> delay_queue_count s' = delay_queue_count s \<or>
         index' = index \<and> delay_queue_count s' = delay_queue_count s - 1"
  using assms
  by (auto simp: delay_queue_tick_entry_def Let_def split: if_splits option.splits)

function delay_queue_tick_loop ::
  "nat \<Rightarrow> int \<Rightarrow> 'a delay_module_scheme \<Rightarrow> int \<times> 'a delay_module_scheme" where
  "delay_queue_tick_loop index expired_count s =
     (if index < delay_queue_count s
      then case delay_queue_tick_entry index expired_count s of
             (index, expired_count, s) \<Rightarrow> delay_queue_tick_loop index expired_count s
      else (expired_count, s))"
  by pat_completeness auto

termination
proof (relation "measure (\<lambda>(index, expired, s). delay_queue_count s - index)", goal_cases)
  case 1
  show ?case by simp
next
  case (2 index expired s index' r expired' s')
  then have "delay_queue_tick_entry index expired s = (index', expired', s')" by simp
  from delay_queue_tick_entry_count[OF this] 2(1) show ?case by auto
qed

declare delay_queue_tick_loop.simps [simp del]

definition delay_queue_tick :: "'a delay_module_scheme \<Rightarrow> int \<times> 'a delay_module_scheme" where
  "delay_queue_tick s =
     (let s = say (\<lambda>s. [''[delay-q] tick begin: count='', int_str (int (delay_queue_count s)), ''\<newline>'']) s;
          (expired_count, s) = delay_queue_tick_loop 0 0 s;
          s = say (\<lambda>s. [''[delay-q] tick end: expired='', int_str expired_count,
                        '' count='', int_str (int (delay_queue_count s)), ''\<newline>'']) s
      in (expired_count, s))"

subsection \<open>The queue as a list of pairs\<close>

definition dq_pair :: "delay_queue_entry_t \<Rightarrow> int \<times> u32" where
  "dq_pair e = (dq_task_id e, dq_remaining e)"

definition dq_items :: "'a delay_module_scheme \<Rightarrow> (int \<times> u32) list" where
  "dq_items s = map dq_pair (take (delay_queue_count s) (delay_queue_entries s))"

definition dq_ok :: "'a delay_module_scheme \<Rightarrow> bool" where
  "dq_ok s \<longleftrightarrow> length (delay_queue_entries s) = MAX_TASKS \<and> delay_queue_count s \<le> MAX_TASKS \<and>
     distinct (map fst (dq_items s))"

lemma dq_items_frames [simp]:
  "dq_items (say f s) = dq_items s" "dq_items (upd_tcb i g s) = dq_items s" "dq_items (upd_sem i h s) = dq_items s"
  by (simp_all add: dq_items_def)

lemma dq_ok_frames [simp]:
  "dq_ok (say f s) = dq_ok s" "dq_ok (upd_tcb i g s) = dq_ok s" "dq_ok (upd_sem i h s) = dq_ok s"
  by (simp_all add: dq_ok_def)

lemma task_set_dq [simp]:
  "task_table (set_dq i e s) = task_table s" "next_task_id (set_dq i e s) = next_task_id s"
  "semaphore_table (set_dq i e s) = semaphore_table s" "next_sem_id (set_dq i e s) = next_sem_id s"
  "task_table (s\<lparr>delay_queue_count := n\<rparr>) = task_table s"
  "next_task_id (s\<lparr>delay_queue_count := n\<rparr>) = next_task_id s"
  "semaphore_table (s\<lparr>delay_queue_count := n\<rparr>) = semaphore_table s"
  "next_sem_id (s\<lparr>delay_queue_count := n\<rparr>) = next_sem_id s"
  by (simp_all add: set_dq_def)

lemma length_dq_items: "dq_ok s \<Longrightarrow> length (dq_items s) = delay_queue_count s"
  by (simp add: dq_items_def dq_ok_def)

lemma dq_items_nth:
  "dq_ok s \<Longrightarrow> i < delay_queue_count s \<Longrightarrow> dq_items s ! i = dq_pair (dq_at i s)"
  by (simp add: dq_items_def dq_ok_def dq_at_def)

lemma find_index_items:
  "delay_queue_find_index_by_task_id k s = first_index (\<lambda>p. fst p = k) (dq_items s)"
proof -
  have "first_index (\<lambda>p. fst p = k) (map dq_pair xs) = first_index (\<lambda>e. dq_task_id e = k) xs" for xs
    by (induction xs) (simp_all add: dq_pair_def)
  then show ?thesis by (simp add: delay_queue_find_index_by_task_id_def dq_items_def)
qed

lemma find_index_None:
  "delay_queue_find_index_by_task_id k s = None \<longleftrightarrow> k \<notin> fst ` set (dq_items s)"
  by (auto simp: find_index_items)

text \<open>Appending an entry.\<close>

definition dq_append :: "int \<Rightarrow> u32 \<Rightarrow> 'a delay_module_scheme \<Rightarrow> 'a delay_module_scheme" where
  "dq_append k d s =
     (set_dq (delay_queue_count s) \<lparr>dq_task_id = k, dq_remaining = d\<rparr> s)\<lparr>delay_queue_count := delay_queue_count s + 1\<rparr>"

lemma dq_append_frames [simp]:
  "task_table (dq_append k d s) = task_table s" "next_task_id (dq_append k d s) = next_task_id s"
  "semaphore_table (dq_append k d s) = semaphore_table s" "next_sem_id (dq_append k d s) = next_sem_id s"
  by (simp_all add: dq_append_def)

lemma dq_items_append:
  assumes "dq_ok s" and "delay_queue_count s < MAX_TASKS"
  shows "dq_items (dq_append k d s) = dq_items s @ [(k, d)]"
  using assms
  by (simp add: dq_items_def dq_append_def set_dq_def dq_ok_def take_Suc_conv_app_nth dq_pair_def)

lemma dq_ok_append:
  assumes "dq_ok s" and "delay_queue_count s < MAX_TASKS" and "k \<notin> fst ` set (dq_items s)"
  shows "dq_ok (dq_append k d s)"
  using assms dq_items_append[OF assms(1,2), of k d]
  by (simp add: dq_ok_def dq_append_def set_dq_def)

text \<open>Closing the gap of a removed entry.\<close>

lemma entries_shift:
  assumes "i + m < length (delay_queue_entries s)"
  shows "delay_queue_entries (dq_shift [i..<i + m] s)
    = take i (delay_queue_entries s) @ take m (drop (Suc i) (delay_queue_entries s))
      @ drop (i + m) (delay_queue_entries s)"
  using assms
proof (induction m)
  case 0
  then show ?case by (simp add: dq_shift_def)
next
  case (Suc m)
  let ?xs = "delay_queue_entries s"
  let ?ys = "take i ?xs @ take m (drop (Suc i) ?xs) @ drop (i + m) ?xs"
  have ys: "?ys ! Suc (i + m) = ?xs ! Suc (i + m)" using Suc.prems by (simp add: nth_append)
  have "take i ?xs @ take (Suc m) (drop (Suc i) ?xs) @ drop (Suc (i + m)) ?xs = ?ys[i + m := ?xs ! Suc (i + m)]"
  proof -
    have "take (Suc m) (drop (Suc i) ?xs) = take m (drop (Suc i) ?xs) @ [?xs ! Suc (i + m)]"
      using Suc.prems by (simp add: take_Suc_conv_app_nth)
    moreover have "drop (i + m) ?xs = ?xs ! (i + m) # drop (Suc (i + m)) ?xs"
      using Suc.prems by (simp add: Cons_nth_drop_Suc)
    ultimately show ?thesis using Suc.prems by (simp add: list_update_append)
  qed
  moreover have "dq_shift [i..<i + Suc m] s
      = set_dq (i + m) (dq_at (i + m + 1) (dq_shift [i..<i + m] s)) (dq_shift [i..<i + m] s)"
    by (simp add: dq_shift_def)
  moreover have "delay_queue_entries (dq_shift [i..<i + m] s) = ?ys" using Suc by simp
  ultimately show ?case using ys by (simp add: set_dq_def dq_at_def)
qed

lemma dq_items_remove_at:
  assumes "dq_ok s" and "i < delay_queue_count s"
  shows "dq_items (delay_queue_remove_at i s) = take i (dq_items s) @ drop (Suc i) (dq_items s)"
proof -
  let ?xs = "delay_queue_entries s" and ?n = "delay_queue_count s"
  let ?f = "dq_shift [i..<?n - 1] s"
  obtain m where n: "?n = Suc (i + m)" using assms(2) less_imp_Suc_add by blast
  have len: "i + m < length ?xs" using assms n by (simp add: dq_ok_def)
  have entries: "delay_queue_entries ?f = take i ?xs @ take m (drop (Suc i) ?xs) @ drop (i + m) ?xs"
    using entries_shift[OF len] n by simp
  have "take (i + m) (delay_queue_entries (delay_queue_remove_at i s))
      = take (i + m) (delay_queue_entries ?f)"
    using n by (simp add: delay_queue_remove_at_def Let_def set_dq_def)
  also have "\<dots> = take i ?xs @ take m (drop (Suc i) ?xs)"
    unfolding entries using len by simp
  finally have "dq_items (delay_queue_remove_at i s) = map dq_pair (take i ?xs @ take m (drop (Suc i) ?xs))"
    using n by (simp add: dq_items_def)
  moreover have "take i (dq_items s) = map dq_pair (take i ?xs)"
    using n by (simp add: dq_items_def take_map)
  moreover have "drop (Suc i) (dq_items s) = map dq_pair (take m (drop (Suc i) ?xs))"
    using n by (simp add: dq_items_def drop_map drop_take)
  ultimately show ?thesis by simp
qed

lemma dq_shift_frames [simp]:
  "length (delay_queue_entries (dq_shift js s)) = length (delay_queue_entries s)"
  "task_table (dq_shift js s) = task_table s" "next_task_id (dq_shift js s) = next_task_id s"
  "semaphore_table (dq_shift js s) = semaphore_table s" "next_sem_id (dq_shift js s) = next_sem_id s"
proof -
  have "length (delay_queue_entries (dq_shift js s)) = length (delay_queue_entries s) \<and>
    task_table (dq_shift js s) = task_table s \<and> next_task_id (dq_shift js s) = next_task_id s \<and>
    semaphore_table (dq_shift js s) = semaphore_table s \<and> next_sem_id (dq_shift js s) = next_sem_id s"
  proof (induction js arbitrary: s)
    case Nil
    show ?case by (simp add: dq_shift_def)
  next
    case (Cons j js)
    have "dq_shift (j # js) s = dq_shift js (set_dq j (dq_at (j + 1) s) s)" by (simp add: dq_shift_def)
    with Cons show ?case by (simp add: set_dq_def)
  qed
  then show "length (delay_queue_entries (dq_shift js s)) = length (delay_queue_entries s)"
    "task_table (dq_shift js s) = task_table s" "next_task_id (dq_shift js s) = next_task_id s"
    "semaphore_table (dq_shift js s) = semaphore_table s" "next_sem_id (dq_shift js s) = next_sem_id s"
    by simp_all
qed

lemma remove_at_frames [simp]:
  "length (delay_queue_entries (delay_queue_remove_at i s)) = length (delay_queue_entries s)"
  "task_table (delay_queue_remove_at i s) = task_table s"
  "next_task_id (delay_queue_remove_at i s) = next_task_id s"
  "semaphore_table (delay_queue_remove_at i s) = semaphore_table s"
  "next_sem_id (delay_queue_remove_at i s) = next_sem_id s"
  by (simp_all add: delay_queue_remove_at_def Let_def set_dq_def)

lemma dq_ok_remove_at:
  assumes "dq_ok s" and "i < delay_queue_count s"
  shows "dq_ok (delay_queue_remove_at i s)"
proof -
  have "distinct (take i xs @ drop (Suc i) xs)" if "distinct xs" for xs :: "int list"
    using that set_take_disj_set_drop_if_distinct[of xs i "Suc i"] by auto
  from this[of "map fst (dq_items s)"] show ?thesis
    using assms by (auto simp: dq_ok_def dq_items_remove_at[OF assms] take_map drop_map)
qed

end
