(* ===== verification/Timer.thy ===== *)
theory Timer
  imports Delay_Queue
begin

section \<open>System ticks (\<open>kernel/timer.c\<close>)\<close>

text \<open>The 64-bit tick counter; a tick also runs the delay queue.\<close>

record timer_module = delay_module +
  system_ticks :: u64

definition timer_init :: "'a timer_module_scheme \<Rightarrow> 'a timer_module_scheme" where
  "timer_init s =
     (let s = s\<lparr>system_ticks := 0\<rparr>
      in say (\<lambda>s. [''[timer] init: tick='', ulong_str (system_ticks s), ''\<newline>'']) s)"

definition timer_tick :: "'a timer_module_scheme \<Rightarrow> 'a timer_module_scheme" where
  "timer_tick s =
     (let s = s\<lparr>system_ticks := system_ticks s + 1\<rparr>;
          s = say (\<lambda>s. [''[timer] tick: count='', ulong_str (system_ticks s), ''\<newline>'']) s
      in snd (delay_queue_tick s))"

definition timer_get_ticks :: "'a timer_module_scheme \<Rightarrow> u64" where
  "timer_get_ticks s = system_ticks s"

end
