(* ===== verification/Task_Context.thy ===== *)
theory Task_Context
  imports Timer "HOL-Library.Monad_Syntax"
begin

section \<open>Task contexts and switches (\<open>kernel/task_context.c\<close>)\<close>

text \<open>
  The prepared first frame of a task, the switch from the boot context into a task, the switch
  back when its entry returns, and the task-to-task switch. What is not C code under \<open>src/\<close> or
  depends on the machine is a parameter, the record \<open>kernel_env\<close>: the effect of the code at a task
  entry address, the address of the assembly trampoline and of the TCBs, and the callee-saved
  registers that \<open>arch_context_switch\<close> finds live at each of its call sites.

  A switch stores the live registers in the context it leaves and continues where the other
  context points. A context with a prepared frame has the trampoline's address on top of its
  stack and the TCB's address in r12, so it continues in \<open>task_context_enter\<close>. That function
  ends by switching to the boot context: the result \<open>Some s\<close> of its model is the state at that
  switch. \<open>None\<close> means that control does not come back (the CPU halts, or runs on from a frame
  which is not one of these).
\<close>

abbreviation (input) TASK_CONTEXT_OK :: int where "TASK_CONTEXT_OK \<equiv> 0"
abbreviation (input) TASK_CONTEXT_ERR_INVAL :: int where "TASK_CONTEXT_ERR_INVAL \<equiv> -1"
abbreviation (input) TASK_CONTEXT_ERR_BAD_STATE :: int where "TASK_CONTEXT_ERR_BAD_STATE \<equiv> -2"

record context_module = timer_module +
  boot_context :: task_context_t
  active_task :: "nat option"
  task_to_task_smoke_from :: "nat option"
  task_to_task_smoke_to :: "nat option"
  stack_mem :: "u64 \<Rightarrow> u64 option"

text \<open>The call sites of \<open>arch_context_switch\<close>: in \<open>task_context_switch_to_task\<close>, the two in
  \<open>task_context_enter\<close>, and the one in \<open>task_context_switch\<close>.\<close>

datatype switch_site = SITE_BOOT | SITE_TASK_TO_TASK nat | SITE_BACK nat | SITE_SWITCH nat

record 's kernel_env =
  entry_body :: "u64 \<Rightarrow> 's \<Rightarrow> 's option"
  trampoline_address :: u64
  tcb_base :: u64
  live_context :: "switch_site \<Rightarrow> 's \<Rightarrow> task_context_t"

subsection \<open>Texts\<close>

definition ptr_tcb :: "nat option \<Rightarrow> 'a task_module_scheme \<Rightarrow> tcb_t option" where
  "ptr_tcb p s = map_option (\<lambda>i. tcb_at i s) p"

definition context_task_name :: "tcb_t option \<Rightarrow> string" where
  "context_task_name task =
     (case task of None \<Rightarrow> ''(null)'' | Some t \<Rightarrow> name_or ''(unnamed)'' (tname t))"

fun context_task_state_name :: "task_state_t \<Rightarrow> string" where
  "context_task_state_name TASK_STATE_UNUSED = ''UNUSED''"
| "context_task_state_name TASK_STATE_DORMANT = ''DORMANT''"
| "context_task_state_name TASK_STATE_READY = ''READY''"
| "context_task_state_name TASK_STATE_RUNNING = ''RUNNING''"
| "context_task_state_name TASK_STATE_WAITING = ''WAITING''"

definition context_log_task_prefix :: "string \<Rightarrow> tcb_t option \<Rightarrow> string list" where
  "context_log_task_prefix label task =
     (case task of
        None \<Rightarrow> [label, '' none'']
      | Some t \<Rightarrow> [label, '' id='', int_str (tid t), '' name='', context_task_name task])"

definition context_log_rsp :: "string \<Rightarrow> u64 \<Rightarrow> string list" where
  "context_log_rsp label r = [label, text_of_hex r]"

subsection \<open>Validation and the first frame\<close>

definition context_validate_task :: "nat option \<Rightarrow> 'a task_module_scheme \<Rightarrow> int" where
  "context_validate_task task s =
     (case task of
        None \<Rightarrow> TASK_CONTEXT_ERR_INVAL
      | Some i \<Rightarrow>
          if stack_base (tcb_at i s) = 0 \<or> stack_top (tcb_at i s) = 0 then TASK_CONTEXT_ERR_INVAL
          else if stack_size (tcb_at i s) < 64 then TASK_CONTEXT_ERR_INVAL
          else if rsp (tcontext (tcb_at i s)) = 0 then TASK_CONTEXT_ERR_BAD_STATE
          else TASK_CONTEXT_OK)"

definition tcb_address :: "'s kernel_env \<Rightarrow> nat \<Rightarrow> u64" where
  "tcb_address env i = tcb_base env + 128 * of_nat i"

text \<open>The stack pointer after \<open>stack_top &= ~0xFUL\<close> and one push.\<close>

definition initial_rsp :: "u64 \<Rightarrow> u64" where
  "initial_rsp stack_end = and stack_end (not 15) - 8"

definition task_context_prepare_initial_frame ::
  "'s kernel_env \<Rightarrow> nat option \<Rightarrow> 'a context_module_scheme \<Rightarrow> int \<times> 'a context_module_scheme" where
  "task_context_prepare_initial_frame env task s =
     (case task of
        None \<Rightarrow> (TASK_CONTEXT_ERR_INVAL, say (\<lambda>s. [''[context] prepare failed: invalid task\<newline>'']) s)
      | Some i \<Rightarrow>
          if context_validate_task task s \<noteq> TASK_CONTEXT_OK
          then (TASK_CONTEXT_ERR_INVAL, say (\<lambda>s. [''[context] prepare failed: invalid task\<newline>'']) s)
          else let stack_pointer = initial_rsp (stack_top (tcb_at i s));
                   s = s\<lparr>stack_mem := (stack_mem s)(stack_pointer \<mapsto> trampoline_address env)\<rparr>;
                   s = upd_tcb i (\<lambda>t. t\<lparr>tcontext :=
                         \<lparr>rsp = stack_pointer, rbp = 0, rbx = 0, r12 = tcb_address env i,
                          r13 = 0, r14 = 0, r15 = 0\<rparr>\<rparr>) s;
                   s = tcb_say i (\<lambda>t. [''[context] prepared initial frame:'']
                         @ context_log_task_prefix '' task'' (Some t)
                         @ context_log_rsp '' context.rsp='' (rsp (tcontext t)) @ [''\<newline>'']) s
               in (TASK_CONTEXT_OK, s))"

subsection \<open>Where a context continues\<close>

text \<open>The TCB whose address is in r12 when the word at rsp is the trampoline.\<close>

definition resume_target :: "'s kernel_env \<Rightarrow> task_context_t \<Rightarrow> 'a context_module_scheme \<Rightarrow> nat option" where
  "resume_target env c s =
     (if stack_mem s (rsp c) = Some (trampoline_address env)
      then first_index (\<lambda>i. tcb_address env i = r12 c) [0..<MAX_TASKS] else None)"

definition save_context ::
  "nat \<Rightarrow> task_context_t \<Rightarrow> 'a context_module_scheme \<Rightarrow> 'a context_module_scheme" where
  "save_context i live s = upd_tcb i (\<lambda>t. t\<lparr>tcontext := live\<rparr>) s"

subsection \<open>The task side\<close>

text \<open>The end of an entry: the task becomes DORMANT, and the log says from which state.\<close>

definition task_context_finalize ::
  "nat \<Rightarrow> 'a context_module_scheme \<Rightarrow> 'a context_module_scheme" where
  "task_context_finalize t s =
     (let s = tcb_say t (\<lambda>t. [''[context] task entry returned:'']
                @ context_log_task_prefix '' task'' (Some t) @ [''\<newline>'']) s;
          returned_state = tstate (tcb_at t s);
          (finalize_result, s) = task_mark_dormant_from_entry_return (tid (tcb_at t s)) s
      in if finalize_result = 0
         then tcb_say t (\<lambda>t. [''[context] task entry finalized:'']
                @ context_log_task_prefix '' task'' (Some t)
                @ ['' '', context_task_state_name returned_state, ''->DORMANT\<newline>'']) s
         else tcb_say t (\<lambda>t. [''[context] task entry finalize failed:'']
                @ context_log_task_prefix '' task'' (Some t)
                @ ['' state='', context_task_state_name returned_state,
                   '' result='', int_str finalize_result, ''\<newline>'']) s)"

text \<open>
  \<open>task_context_enter\<close>. After the task-to-task switch the C function has a log line and falls
  through to the switch back; no code switches to a context saved there, so that part is never
  reached and the model continues in the second task only.
\<close>

partial_function (option) task_context_enter ::
  "'a context_module_scheme kernel_env \<Rightarrow> nat option \<Rightarrow> 'a context_module_scheme \<Rightarrow>
   'a context_module_scheme option" where
  "task_context_enter env task s =
     (case task of
        None \<Rightarrow> None
      | Some t \<Rightarrow>
          if entry (tcb_at t s) = 0 then None
          else do {
            s \<leftarrow> entry_body env (entry (tcb_at t s))
                   (tcb_say t (\<lambda>t. [''[context] entered task stack:'']
                      @ context_log_task_prefix '' task'' (Some t)
                      @ context_log_rsp '' current.rsp='' (rsp (tcontext t)) @ [''\<newline>'']) s);
            let s = task_context_finalize t s;
            if task_to_task_smoke_from s = Some t \<and> task_to_task_smoke_to s \<noteq> None
            then do {
              let next_task = the (task_to_task_smoke_to s);
              let s = s\<lparr>task_to_task_smoke_from := None, task_to_task_smoke_to := None\<rparr>;
              let s = s\<lparr>active_task := Some next_task\<rparr>;
              let s = say (\<lambda>s. [''[context] task-to-task switch begin:'']
                        @ context_log_task_prefix '' from'' (Some (tcb_at t s))
                        @ context_log_task_prefix '' to'' (Some (tcb_at next_task s))
                        @ context_log_rsp '' from.rsp.before='' (rsp (tcontext (tcb_at t s)))
                        @ context_log_rsp '' to.rsp.restore='' (rsp (tcontext (tcb_at next_task s)))
                        @ [''\<newline>'']) s;
              let s = save_context t (live_context env (SITE_TASK_TO_TASK t) s) s;
              n \<leftarrow> resume_target env (tcontext (tcb_at next_task s)) s;
              task_context_enter env (Some n) s
            }
            else do {
              let s = say (\<lambda>s. [''[context] switch back:'']
                        @ context_log_task_prefix '' from'' (Some (tcb_at t s)) @ ['' to=boot'']
                        @ context_log_rsp '' from.rsp.before='' (rsp (tcontext (tcb_at t s)))
                        @ context_log_rsp '' boot.rsp.restore='' (rsp (boot_context s)) @ [''\<newline>'']) s;
              Some (save_context t (live_context env (SITE_BACK t) s) s)
            }
          })"

subsection \<open>The switch between two tasks\<close>

text \<open>
  \<open>task_context_switch\<close>, which no code calls. Its part before the switch refuses invalid contexts and
  logs both stack pointers. A switch from a context to itself comes back at once. Another switch
  leaves \<open>from\<close> where it is: control goes on in \<open>to\<close> and comes back here only when a later switch
  restores the context saved in \<open>from\<close>; \<open>task_context_switch_resumed\<close> is what the function does then.
\<close>

datatype 's switch_outcome = Returned int 's | At_boot 's

definition task_context_switch_resumed ::
  "u64 \<Rightarrow> nat \<Rightarrow> 'a context_module_scheme \<Rightarrow> int \<times> 'a context_module_scheme" where
  "task_context_switch_resumed before_rsp f s =
     (TASK_CONTEXT_OK, tcb_say f (\<lambda>t. [''[context] switch resumed:'']
        @ context_log_task_prefix '' task'' (Some t)
        @ context_log_rsp '' from.rsp.before='' before_rsp
        @ context_log_rsp '' from.rsp.after='' (rsp (tcontext t)) @ [''\<newline>'']) s)"

definition task_context_switch ::
  "'a context_module_scheme kernel_env \<Rightarrow> nat option \<Rightarrow> nat option \<Rightarrow> 'a context_module_scheme \<Rightarrow>
   'a context_module_scheme switch_outcome option" where
  "task_context_switch env from to s =
     (if context_validate_task from s \<noteq> TASK_CONTEXT_OK \<or> context_validate_task to s \<noteq> TASK_CONTEXT_OK
      then Some (Returned TASK_CONTEXT_ERR_INVAL
             (say (\<lambda>s. [''[context] switch failed: invalid task context\<newline>'']) s))
      else do {
        let f = the from;
        let t = the to;
        let before_rsp = rsp (tcontext (tcb_at f s));
        let s = say (\<lambda>s. [''[context] switch begin:'']
                  @ context_log_task_prefix '' from'' (Some (tcb_at f s))
                  @ context_log_task_prefix '' to'' (Some (tcb_at t s))
                  @ context_log_rsp '' from.rsp.before='' before_rsp
                  @ context_log_rsp '' to.rsp.restore='' (rsp (tcontext (tcb_at t s))) @ [''\<newline>'']) s;
        let s = save_context f (live_context env (SITE_SWITCH f) s) s;
        if f = t
        then (case task_context_switch_resumed before_rsp f s of (r, s) \<Rightarrow> Some (Returned r s))
        else do {
          n \<leftarrow> resume_target env (tcontext (tcb_at t s)) s;
          s \<leftarrow> task_context_enter env (Some n) s;
          Some (At_boot s)
        }
      })"

subsection \<open>The boot side\<close>

text \<open>
  The switch to the boot context resumes this function only when \<open>boot_context\<close> still is what
  it saved: a nested switch from inside an entry overwrites it, and then control continues in
  the nested caller's frame.
\<close>

definition task_context_switch_to_task ::
  "'a context_module_scheme kernel_env \<Rightarrow> nat option \<Rightarrow> 'a context_module_scheme \<Rightarrow>
   (int \<times> 'a context_module_scheme) option" where
  "task_context_switch_to_task env to s =
     (case to of
        None \<Rightarrow> Some (TASK_CONTEXT_ERR_INVAL,
                  say (\<lambda>s. [''[context] boot switch failed: invalid task context\<newline>'']) s)
      | Some t \<Rightarrow>
          if context_validate_task to s \<noteq> TASK_CONTEXT_OK
          then Some (TASK_CONTEXT_ERR_INVAL,
                  say (\<lambda>s. [''[context] boot switch failed: invalid task context\<newline>'']) s)
          else do {
            let s = s\<lparr>active_task := to\<rparr>;
            let s = say (\<lambda>s. [''[context] switch begin:'', '' from=boot'']
                      @ context_log_task_prefix '' to'' (Some (tcb_at t s))
                      @ context_log_rsp '' boot.rsp.before='' (rsp (boot_context s))
                      @ context_log_rsp '' to.rsp.restore='' (rsp (tcontext (tcb_at t s)))
                      @ [''\<newline>'']) s;
            let live = live_context env SITE_BOOT s;
            let s = s\<lparr>boot_context := live\<rparr>;
            n \<leftarrow> resume_target env (tcontext (tcb_at t s)) s;
            s \<leftarrow> task_context_enter env (Some n) s;
            if boot_context s \<noteq> live then None
            else do {
              let s = say (\<lambda>s. [''[context] switch resumed:'', '' task=boot'']
                        @ context_log_rsp '' boot.rsp.after='' (rsp (boot_context s))
                        @ (case active_task s of None \<Rightarrow> []
                           | Some a \<Rightarrow> context_log_task_prefix '' from'' (Some (tcb_at a s))
                                @ context_log_rsp '' from.rsp.saved='' (rsp (tcontext (tcb_at a s))))
                        @ [''\<newline>'']) s;
              Some (TASK_CONTEXT_OK, s\<lparr>active_task := None\<rparr>)
            }
          })"

definition task_context_switch_to_task_pair ::
  "'a context_module_scheme kernel_env \<Rightarrow> nat option \<Rightarrow> nat option \<Rightarrow> 'a context_module_scheme \<Rightarrow>
   (int \<times> 'a context_module_scheme) option" where
  "task_context_switch_to_task_pair env first second s =
     (if first = None \<or> second = None \<or> first = second
      then Some (TASK_CONTEXT_ERR_INVAL,
             say (\<lambda>s. [''[context] task-to-task smoke failed: invalid task pair\<newline>'']) s)
      else let (result, s) = task_context_prepare_initial_frame env first s
      in if result \<noteq> TASK_CONTEXT_OK then Some (result, s)
      else let (result, s) = task_context_prepare_initial_frame env second s
      in if result \<noteq> TASK_CONTEXT_OK then Some (result, s)
      else do {
        let s = s\<lparr>task_to_task_smoke_from := first, task_to_task_smoke_to := second\<rparr>;
        (result, s) \<leftarrow> task_context_switch_to_task env first s;
        let s = say (\<lambda>s. [''[context] task-to-task switch end\<newline>'']) s;
        Some (result, s\<lparr>task_to_task_smoke_from := None, task_to_task_smoke_to := None\<rparr>)
      })"

end
