(* ===== verification/Scheduler.thy ===== *)
theory Scheduler
  imports Task "HOL-Library.Product_Lexorder"
begin

section \<open>The scheduler (\<open>kernel/scheduler.c\<close>)\<close>

text \<open>
  The fixed priority scheduler: the linear scan for the READY task of smallest priority number,
  and the decision whether it should preempt the running task. The locale \<open>ready_policy\<close> is
  what the dispatching modules rely on; its interpretation shows that the scan provides it.
\<close>

subsection \<open>Types of \<open>scheduler.h\<close>\<close>

datatype scheduler_preempt_reason_t =
    SCHEDULER_PREEMPT_NONE
  | SCHEDULER_PREEMPT_NEEDED
  | SCHEDULER_PREEMPT_SAME_PRIORITY
  | SCHEDULER_PREEMPT_INVALID_CURRENT

record scheduler_preempt_decision_t =
  decision_reason :: scheduler_preempt_reason_t
  decision_current :: "nat option"
  decision_candidate :: "nat option"

subsection \<open>Selection\<close>

definition scheduler_init :: "'a task_module_scheme \<Rightarrow> 'a task_module_scheme" where
  "scheduler_init s = s"

text \<open>One iteration of the loop, and the loop over all table indices.\<close>

definition scheduler_consider :: "'a task_module_scheme \<Rightarrow> nat \<Rightarrow> nat option \<Rightarrow> nat option" where
  "scheduler_consider s index best =
     (case task_get_by_index (int index) of
        None \<Rightarrow> best
      | Some task \<Rightarrow>
          if tstate (tcb_at task s) \<noteq> TASK_STATE_READY then best
          else case best of
            None \<Rightarrow> Some task
          | Some b \<Rightarrow> if priority (tcb_at task s) < priority (tcb_at b s) then Some task else best)"

definition scheduler_select_next :: "'a task_module_scheme \<Rightarrow> nat option" where
  "scheduler_select_next s = fold (scheduler_consider s) [0..<nat task_get_count] None"

definition scheduler_select_preemption_candidate ::
  "nat option \<Rightarrow> 'a task_module_scheme \<Rightarrow> scheduler_preempt_decision_t" where
  "scheduler_select_preemption_candidate current s =
     (let decision = \<lparr>decision_reason = SCHEDULER_PREEMPT_NONE, decision_current = current,
                      decision_candidate = None\<rparr>
      in case current of
        None \<Rightarrow> decision
      | Some c \<Rightarrow>
          if tstate (tcb_at c s) \<noteq> TASK_STATE_RUNNING
          then decision\<lparr>decision_reason := SCHEDULER_PREEMPT_INVALID_CURRENT\<rparr>
          else let candidate = scheduler_select_next s;
                   decision = decision\<lparr>decision_candidate := candidate\<rparr>
               in case candidate of
                    None \<Rightarrow> decision
                  | Some n \<Rightarrow>
                      if priority (tcb_at n s) < priority (tcb_at c s)
                      then decision\<lparr>decision_reason := SCHEDULER_PREEMPT_NEEDED\<rparr>
                      else if priority (tcb_at n s) = priority (tcb_at c s)
                      then decision\<lparr>decision_reason := SCHEDULER_PREEMPT_SAME_PRIORITY\<rparr>
                      else decision)"

subsection \<open>Urgency\<close>

text \<open>
  The order the scan realises: a smaller priority number is more urgent, and among equal
  priorities the earlier slot. It is a linear order, so \<open>Min\<close> applies to it.
\<close>

datatype urgency = Urgency (urgency_priority: int) (urgency_slot: nat)

instantiation urgency :: linorder
begin

definition less_eq_urgency :: "urgency \<Rightarrow> urgency \<Rightarrow> bool" where
  "less_eq_urgency u v \<longleftrightarrow>
     (urgency_priority u, urgency_slot u) \<le> (urgency_priority v, urgency_slot v)"

definition less_urgency :: "urgency \<Rightarrow> urgency \<Rightarrow> bool" where
  "less_urgency u v \<longleftrightarrow>
     (urgency_priority u, urgency_slot u) < (urgency_priority v, urgency_slot v)"

instance
  by standard (auto simp: less_eq_urgency_def less_urgency_def urgency.expand)

end

lemma urgency_le: "Urgency p i \<le> Urgency q j \<longleftrightarrow> p < q \<or> p = q \<and> i \<le> j"
  by (auto simp: less_eq_urgency_def)

lemma urgency_less: "Urgency p i < Urgency q j \<longleftrightarrow> p < q \<or> p = q \<and> i < j"
  by (auto simp: less_urgency_def)

definition urgency_at :: "tcb_t list \<Rightarrow> nat \<Rightarrow> urgency" where
  "urgency_at tt i = Urgency (priority (tt ! i)) i"

definition ready_slots :: "tcb_t list \<Rightarrow> nat set" where
  "ready_slots tt = {i. i < length tt \<and> tstate (tt ! i) = TASK_STATE_READY}"

subsection \<open>The interface of a ready policy\<close>

locale ready_policy =
  fixes select :: "tcb_t list \<Rightarrow> nat option"
  assumes select_None: "length tt = MAX_TASKS \<Longrightarrow> select tt = None \<longleftrightarrow> ready_slots tt = {}"
    and select_ready: "length tt = MAX_TASKS \<Longrightarrow> select tt = Some i \<Longrightarrow> i \<in> ready_slots tt"
    and select_least: "length tt = MAX_TASKS \<Longrightarrow> select tt = Some i \<Longrightarrow> j \<in> ready_slots tt \<Longrightarrow>
                       urgency_at tt i \<le> urgency_at tt j"
begin

lemma select_eqI:
  assumes "length tt = MAX_TASKS" and "i \<in> ready_slots tt"
    and "\<And>j. j \<in> ready_slots tt \<Longrightarrow> urgency_at tt i \<le> urgency_at tt j"
  shows "select tt = Some i"
proof (cases "select tt")
  case None
  with assms(1,2) show ?thesis by (simp add: select_None)
next
  case (Some j)
  then have "j \<in> ready_slots tt" using assms(1) select_ready by blast
  then have "urgency_at tt i \<le> urgency_at tt j" and "urgency_at tt j \<le> urgency_at tt i"
    using assms Some select_least by blast+
  then have "urgency_at tt i = urgency_at tt j" by (rule order.antisym)
  with Some show ?thesis by (simp add: urgency_at_def)
qed

lemma select_Min:
  assumes "length tt = MAX_TASKS"
  shows "select tt =
    (if ready_slots tt = {} then None
     else Some (urgency_slot (Min (urgency_at tt ` ready_slots tt))))"
proof (cases "ready_slots tt = {}")
  case True
  with assms show ?thesis by (simp add: select_None)
next
  case False
  have fin: "finite (urgency_at tt ` ready_slots tt)" by (simp add: ready_slots_def)
  then have "Min (urgency_at tt ` ready_slots tt) \<in> urgency_at tt ` ready_slots tt"
    using False by (intro Min_in) auto
  then obtain i where i: "i \<in> ready_slots tt" "Min (urgency_at tt ` ready_slots tt) = urgency_at tt i"
    by auto
  have "select tt = Some i" using assms i fin by (intro select_eqI) (auto simp: i(2)[symmetric])
  with False i show ?thesis by (simp add: urgency_at_def)
qed

text \<open>The choice depends on the READY tasks and their priorities only.\<close>

lemma select_cong:
  assumes "length tt = MAX_TASKS" and "length uu = MAX_TASKS"
    and "ready_slots uu = ready_slots tt" and "\<And>i. i \<in> ready_slots tt \<Longrightarrow> priority (uu ! i) = priority (tt ! i)"
  shows "select uu = select tt"
proof -
  have "urgency_at uu ` ready_slots uu = urgency_at tt ` ready_slots tt"
    using assms(3,4) by (auto simp: urgency_at_def image_iff)
  with assms show ?thesis by (simp add: select_Min)
qed

text \<open>No READY task is of higher priority than the selected one.\<close>

lemma select_priority:
  "length tt = MAX_TASKS \<Longrightarrow> select tt = Some i \<Longrightarrow> j \<in> ready_slots tt \<Longrightarrow>
   priority (tt ! i) \<le> priority (tt ! j)"
  using select_least[of tt i j] by (auto simp: urgency_at_def urgency_le)

end

subsection \<open>The scan provides it\<close>

definition table_state :: "tcb_t list \<Rightarrow> task_module" where
  "table_state tt = \<lparr>con = [], task_table = tt, next_task_id = 1\<rparr>"

definition select_in :: "tcb_t list \<Rightarrow> nat option" where
  "select_in tt = scheduler_select_next (table_state tt)"

lemma tcb_at_table_state: "tcb_at i (table_state (task_table s)) = tcb_at i s"
  by (simp add: table_state_def tcb_at_def)

lemma scheduler_consider_table:
  "scheduler_consider s = scheduler_consider (table_state (task_table s))"
  by (intro ext) (auto simp: scheduler_consider_def tcb_at_table_state split: option.split)

lemma scheduler_select_next_table: "scheduler_select_next s = select_in (task_table s)"
  by (simp add: scheduler_select_next_def select_in_def scheduler_consider_table[of s])

text \<open>After \<open>n\<close> iterations \<open>best\<close> is the most urgent READY task among the first \<open>n\<close> slots.\<close>

definition best_upto :: "tcb_t list \<Rightarrow> nat \<Rightarrow> nat option \<Rightarrow> bool" where
  "best_upto tt n best \<longleftrightarrow>
     (case best of
        None \<Rightarrow> \<forall>j < n. tstate (tt ! j) \<noteq> TASK_STATE_READY
      | Some i \<Rightarrow> i < n \<and> tstate (tt ! i) = TASK_STATE_READY \<and>
          (\<forall>j < n. tstate (tt ! j) = TASK_STATE_READY \<longrightarrow> urgency_at tt i \<le> urgency_at tt j))"

lemma best_upto_step:
  assumes "n < MAX_TASKS" and "best_upto tt n best"
  shows "best_upto tt (Suc n) (scheduler_consider (table_state tt) n best)"
proof -
  have idx: "task_get_by_index (int n) = Some n" using assms(1) by (simp add: task_get_by_index_def)
  show ?thesis
    using assms(2)
    by (cases best)
       (auto simp: scheduler_consider_def idx best_upto_def tcb_at_def table_state_def urgency_at_def
          urgency_le less_Suc_eq)
qed

lemma best_upto_scan: "n \<le> MAX_TASKS \<Longrightarrow> best_upto tt n (fold (scheduler_consider (table_state tt)) [0..<n] None)"
proof (induction n)
  case 0
  show ?case by (simp add: best_upto_def)
next
  case (Suc n)
  then show ?case using best_upto_step[of n tt] by simp
qed

lemma best_upto_select: "best_upto tt MAX_TASKS (select_in tt)"
  using best_upto_scan[of MAX_TASKS tt] by (simp add: select_in_def scheduler_select_next_def task_get_count_def)

interpretation sched: ready_policy select_in
proof
  fix tt :: "tcb_t list" and i j
  assume len: "length tt = MAX_TASKS"
  note best = best_upto_select[of tt]
  show "select_in tt = None \<longleftrightarrow> ready_slots tt = {}"
    using best len by (auto simp: best_upto_def ready_slots_def split: option.splits)
  show "i \<in> ready_slots tt" if "select_in tt = Some i"
    using best len that by (simp add: best_upto_def ready_slots_def)
  show "urgency_at tt i \<le> urgency_at tt j" if "select_in tt = Some i" "j \<in> ready_slots tt"
    using best len that by (simp add: best_upto_def ready_slots_def)
qed

lemma scheduler_select_next_say [simp]: "scheduler_select_next (say f s) = scheduler_select_next s"
  by (simp add: scheduler_select_next_table)

end
