(* ===== verification/Dispatcher.thy ===== *)
theory Dispatcher
  imports Task_Context Scheduler
begin

section \<open>The dispatcher (\<open>kernel/dispatcher.c\<close>)\<close>

text \<open>The current task, and the switch boundary that moves the RUNNING state to another task.\<close>

abbreviation (input) DISPATCHER_OK :: int where "DISPATCHER_OK \<equiv> 0"
abbreviation (input) DISPATCHER_ERR_INVAL :: int where "DISPATCHER_ERR_INVAL \<equiv> -1"
abbreviation (input) DISPATCHER_ERR_BAD_STATE :: int where "DISPATCHER_ERR_BAD_STATE \<equiv> -2"
abbreviation (input) DISPATCHER_ERR_NOT_FOUND :: int where "DISPATCHER_ERR_NOT_FOUND \<equiv> -3"

record dispatcher_module = context_module +
  current_task :: "nat option"

definition dispatcher_log_task :: "string \<Rightarrow> tcb_t option \<Rightarrow> string list" where
  "dispatcher_log_task label task =
     (case task of
        None \<Rightarrow> [label, '' none'']
      | Some t \<Rightarrow> [label, '' id='', mag_str (tid t), '' name='', name_or ''(unnamed)'' (tname t)])"

definition dispatcher_init :: "'a dispatcher_module_scheme \<Rightarrow> 'a dispatcher_module_scheme" where
  "dispatcher_init s = s\<lparr>current_task := None\<rparr>"

definition dispatcher_get_current :: "'a dispatcher_module_scheme \<Rightarrow> nat option" where
  "dispatcher_get_current s = current_task s"

definition dispatcher_commit_current ::
  "nat option \<Rightarrow> 'a dispatcher_module_scheme \<Rightarrow> int \<times> 'a dispatcher_module_scheme" where
  "dispatcher_commit_current selected s =
     (case selected of
        None \<Rightarrow> (DISPATCHER_ERR_INVAL, s)
      | Some i \<Rightarrow>
          if tstate (tcb_at i s) \<noteq> TASK_STATE_READY then (DISPATCHER_ERR_BAD_STATE, s)
          else let (result, s) = task_mark_running (tid (tcb_at i s)) s
          in if result = TASK_ERR_NOT_FOUND then (DISPATCHER_ERR_NOT_FOUND, s)
          else if result = TASK_ERR_BAD_STATE then (DISPATCHER_ERR_BAD_STATE, s)
          else if result \<noteq> 0 then (DISPATCHER_ERR_INVAL, s)
          else (DISPATCHER_OK, s\<lparr>current_task := selected\<rparr>))"

text \<open>
  The mapping of a \<open>task_mark_*\<close> failure to a dispatcher error; \<open>None\<close> when the call succeeded.
\<close>

definition dispatcher_error_of :: "int \<Rightarrow> int option" where
  "dispatcher_error_of result =
     (if result = TASK_ERR_NOT_FOUND then Some DISPATCHER_ERR_NOT_FOUND
      else if result = TASK_ERR_BAD_STATE then Some DISPATCHER_ERR_BAD_STATE
      else if result \<noteq> 0 then Some DISPATCHER_ERR_INVAL
      else None)"

text \<open>The state transitions of a switch, up to \<open>current_task = to\<close>.\<close>

definition dispatcher_transitions ::
  "nat \<Rightarrow> nat \<Rightarrow> 'a dispatcher_module_scheme \<Rightarrow> int option \<times> 'a dispatcher_module_scheme" where
  "dispatcher_transitions from to s =
     (let (error, s) =
        (if tstate (tcb_at from s) = TASK_STATE_RUNNING
         then let s = say (\<lambda>s. [''[dispatcher] state transition:'']
                        @ dispatcher_log_task '' from'' (Some (tcb_at from s))
                        @ ['' RUNNING->READY\<newline>'']) s;
                  (result, s) = task_mark_ready_from_running (tid (tcb_at from s)) s
              in (dispatcher_error_of result, s)
         else (None, s))
      in if error \<noteq> None then (error, s)
      else let s = say (\<lambda>s. [''[dispatcher] state transition:'']
                     @ dispatcher_log_task '' to'' (Some (tcb_at to s))
                     @ ['' READY->RUNNING\<newline>'']) s;
               (result, s) = task_mark_running (tid (tcb_at to s)) s;
               error = dispatcher_error_of result
      in if error \<noteq> None then (error, s)
      else (None, s\<lparr>current_task := Some to\<rparr>))"

text \<open>
  A WAITING \<open>from\<close> is left for the boot side to resume (\<open>task_context_switch_to_task\<close>), every
  other one goes through the task-to-task pair.
\<close>

definition dispatcher_enter ::
  "'a dispatcher_module_scheme kernel_env \<Rightarrow> nat \<Rightarrow> nat \<Rightarrow> 'a dispatcher_module_scheme \<Rightarrow>
   (int \<times> 'a dispatcher_module_scheme) option" where
  "dispatcher_enter env from to s =
     do {
       (result, s) \<leftarrow>
         (if tstate (tcb_at from s) = TASK_STATE_WAITING
          then let (result, s) = task_context_prepare_initial_frame env (Some to) s
               in if result = DISPATCHER_OK then task_context_switch_to_task env (Some to) s
                  else Some (result, s)
          else task_context_switch_to_task_pair env (Some from) (Some to) s);
       Some (result, say (\<lambda>s. [''[dispatcher] switch boundary end: result='', mag_str result, ''\<newline>'']) s)
     }"

definition dispatcher_switch_to ::
  "'a dispatcher_module_scheme kernel_env \<Rightarrow> nat option \<Rightarrow> nat option \<Rightarrow>
   'a dispatcher_module_scheme \<Rightarrow> (int \<times> 'a dispatcher_module_scheme) option" where
  "dispatcher_switch_to env from to s =
     (case (from, to) of
        (Some f, Some t) \<Rightarrow>
          if f = t
          then Some (DISPATCHER_ERR_INVAL,
                 say (\<lambda>s. [''[dispatcher] switch boundary failed: reason=same-task'']
                    @ dispatcher_log_task '' from'' (ptr_tcb from s)
                    @ dispatcher_log_task '' to'' (ptr_tcb to s) @ [''\<newline>'']) s)
          else if tstate (tcb_at f s) \<noteq> TASK_STATE_RUNNING \<and> tstate (tcb_at f s) \<noteq> TASK_STATE_READY \<and>
             tstate (tcb_at f s) \<noteq> TASK_STATE_WAITING
          then Some (DISPATCHER_ERR_BAD_STATE,
                 say (\<lambda>s. [''[dispatcher] switch boundary failed: reason=from-not-running'']
                    @ dispatcher_log_task '' from'' (ptr_tcb from s) @ [''\<newline>'']) s)
          else if tstate (tcb_at t s) \<noteq> TASK_STATE_READY
          then Some (DISPATCHER_ERR_BAD_STATE,
                 say (\<lambda>s. [''[dispatcher] switch boundary failed: reason=to-not-ready'']
                    @ dispatcher_log_task '' to'' (ptr_tcb to s) @ [''\<newline>'']) s)
          else let s = say (\<lambda>s. [''[dispatcher] switch boundary begin:'']
                         @ dispatcher_log_task '' from'' (ptr_tcb from s)
                         @ dispatcher_log_task '' to'' (ptr_tcb to s) @ [''\<newline>'']) s;
                   (error, s) = dispatcher_transitions f t s
               in (case error of
                     Some e \<Rightarrow> Some (e, s)
                   | None \<Rightarrow> dispatcher_enter env f t s)
      | _ \<Rightarrow> Some (DISPATCHER_ERR_INVAL,
                 say (\<lambda>s. [''[dispatcher] switch boundary failed: reason=null-task'']
                    @ dispatcher_log_task '' from'' (ptr_tcb from s)
                    @ dispatcher_log_task '' to'' (ptr_tcb to s) @ [''\<newline>'']) s))"

end
