(* ===== verification/Dispatch_Pending.thy ===== *)
theory Dispatch_Pending
  imports Dispatcher
begin

section \<open>Deferred dispatch requests (\<open>kernel/dispatch_pending.c\<close>)\<close>

text \<open>
  The single pending request: the IRQ path and the task API record that a switch is wanted, and
  the deferred boundary consumes it. A request from the task API is not replaced by one from the
  IRQ path, and only the boundary or an invalid request clears it.
\<close>

datatype dispatch_pending_source_t =
    DISPATCH_PENDING_SOURCE_NONE
  | DISPATCH_PENDING_SOURCE_IRQ
  | DISPATCH_PENDING_SOURCE_TASK

datatype dispatch_pending_reason_t =
    DISPATCH_PENDING_NONE
  | DISPATCH_PENDING_FROM_IRQ
  | DISPATCH_PENDING_TASK_START
  | DISPATCH_PENDING_TASK_WAKEUP

record dispatch_pending_state_t =
  requested :: bool
  request_logged :: bool
  source :: dispatch_pending_source_t
  pending_reason :: dispatch_pending_reason_t
  pending_current :: "nat option"
  pending_candidate :: "nat option"
  current_id :: int
  candidate_id :: int

record dispatch_pending_snapshot_t =
  snapshot_reason :: dispatch_pending_reason_t
  from_task_id :: int
  to_task_id :: int

record pending_module = dispatcher_module +
  dispatch_pending_state :: dispatch_pending_state_t

abbreviation (input) DISPATCH_PENDING_CONSUME_NO_PENDING :: int where
  "DISPATCH_PENDING_CONSUME_NO_PENDING \<equiv> -1"
abbreviation (input) DISPATCH_PENDING_CONSUME_INVALID :: int where
  "DISPATCH_PENDING_CONSUME_INVALID \<equiv> -2"

definition dispatch_pending_reason_name :: "dispatch_pending_reason_t \<Rightarrow> string" where
  "dispatch_pending_reason_name reason =
     (if reason = DISPATCH_PENDING_FROM_IRQ then ''higher-priority-ready''
      else if reason = DISPATCH_PENDING_TASK_START then ''task-start''
      else if reason = DISPATCH_PENDING_TASK_WAKEUP then ''task-wakeup''
      else ''none'')"

subsection \<open>Clearing\<close>

definition no_pending :: dispatch_pending_state_t where
  "no_pending = \<lparr>requested = False, request_logged = False, source = DISPATCH_PENDING_SOURCE_NONE,
     pending_reason = DISPATCH_PENDING_NONE, pending_current = None, pending_candidate = None,
     current_id = 0, candidate_id = 0\<rparr>"

definition dispatch_pending_clear_with_reason ::
  "c_string \<Rightarrow> 'a pending_module_scheme \<Rightarrow> 'a pending_module_scheme" where
  "dispatch_pending_clear_with_reason log_reason s =
     (let s = s\<lparr>dispatch_pending_state := no_pending\<rparr>
      in case log_reason of
           None \<Rightarrow> s
         | Some r \<Rightarrow> say (\<lambda>s. [''[dispatch-pending] cleared: reason='', r, ''\<newline>'']) s)"

definition dispatch_pending_clear_for_test_or_later_boundary ::
  "'a pending_module_scheme \<Rightarrow> 'a pending_module_scheme" where
  "dispatch_pending_clear_for_test_or_later_boundary s = dispatch_pending_clear_with_reason None s"

definition dispatch_pending_clear_irq_for_evaluation ::
  "'a pending_module_scheme \<Rightarrow> 'a pending_module_scheme" where
  "dispatch_pending_clear_irq_for_evaluation s =
     (if source (dispatch_pending_state s) = DISPATCH_PENDING_SOURCE_IRQ
      then dispatch_pending_clear_with_reason None s else s)"

definition dispatch_pending_is_requested :: "'a pending_module_scheme \<Rightarrow> bool" where
  "dispatch_pending_is_requested s = requested (dispatch_pending_state s)"

subsection \<open>Requests\<close>

definition pending_request ::
  "dispatch_pending_source_t \<Rightarrow> dispatch_pending_reason_t \<Rightarrow> nat \<Rightarrow> nat \<Rightarrow>
   'a pending_module_scheme \<Rightarrow> 'a pending_module_scheme" where
  "pending_request src reason c n s =
     s\<lparr>dispatch_pending_state :=
       \<lparr>requested = True, request_logged = False, source = src, pending_reason = reason,
        pending_current = Some c, pending_candidate = Some n,
        current_id = tid (tcb_at c s), candidate_id = tid (tcb_at n s)\<rparr>\<rparr>"

definition dispatch_request_from_irq ::
  "nat option \<Rightarrow> nat option \<Rightarrow> 'a pending_module_scheme \<Rightarrow> 'a pending_module_scheme" where
  "dispatch_request_from_irq current candidate s =
     (case (current, candidate) of
        (Some c, Some n) \<Rightarrow>
          if requested (dispatch_pending_state s) \<and>
             source (dispatch_pending_state s) = DISPATCH_PENDING_SOURCE_TASK
          then s
          else pending_request DISPATCH_PENDING_SOURCE_IRQ DISPATCH_PENDING_FROM_IRQ c n s
      | _ \<Rightarrow> dispatch_pending_clear_irq_for_evaluation s)"

definition dispatch_request_from_task_start ::
  "nat option \<Rightarrow> nat option \<Rightarrow> 'a pending_module_scheme \<Rightarrow> 'a pending_module_scheme" where
  "dispatch_request_from_task_start current candidate s =
     (case (current, candidate) of
        (Some c, Some n) \<Rightarrow>
          pending_request DISPATCH_PENDING_SOURCE_TASK DISPATCH_PENDING_TASK_START c n s
      | _ \<Rightarrow> dispatch_pending_clear_for_test_or_later_boundary s)"

definition dispatch_request_from_task_wakeup ::
  "nat option \<Rightarrow> nat option \<Rightarrow> 'a pending_module_scheme \<Rightarrow> 'a pending_module_scheme" where
  "dispatch_request_from_task_wakeup current candidate s =
     (case (current, candidate) of
        (Some c, Some n) \<Rightarrow>
          pending_request DISPATCH_PENDING_SOURCE_TASK DISPATCH_PENDING_TASK_WAKEUP c n s
      | _ \<Rightarrow> dispatch_pending_clear_for_test_or_later_boundary s)"

subsection \<open>Logging\<close>

definition pending_log_ptr :: "nat option \<Rightarrow> 'a task_module_scheme \<Rightarrow> string list" where
  "pending_log_ptr p s =
     (case p of
        None \<Rightarrow> [''none'']
      | Some i \<Rightarrow> [mag_str (tid (tcb_at i s)), '' name='', name_or ''(null)'' (tname (tcb_at i s))])"

definition dispatch_pending_log_state_from_irq ::
  "c_string \<Rightarrow> 'a pending_module_scheme \<Rightarrow> 'a pending_module_scheme" where
  "dispatch_pending_log_state_from_irq not_requested_reason s =
     (if \<not> requested (dispatch_pending_state s)
      then say (\<lambda>s. [''[dispatch-pending] not-requested: reason='',
                     name_or ''none'' not_requested_reason, ''\<newline>'']) s
      else if request_logged (dispatch_pending_state s) then s
      else let s = say (\<lambda>s. [''[dispatch-pending] requested: reason='',
                       dispatch_pending_reason_name (pending_reason (dispatch_pending_state s)),
                       '' from id='']
                     @ pending_log_ptr (pending_current (dispatch_pending_state s)) s
                     @ ['' to id='']
                     @ pending_log_ptr (pending_candidate (dispatch_pending_state s)) s
                     @ [''\<newline>'']) s
           in s\<lparr>dispatch_pending_state := (dispatch_pending_state s)\<lparr>request_logged := True\<rparr>\<rparr>)"

definition dispatch_pending_log_consumed ::
  "dispatch_pending_snapshot_t \<Rightarrow> 'a pending_module_scheme \<Rightarrow> 'a pending_module_scheme" where
  "dispatch_pending_log_consumed snapshot s =
     say (\<lambda>s.
       (let name_part = (\<lambda>p. case p of
              None \<Rightarrow> []
            | Some i \<Rightarrow> ['' name='', name_or ''(null)'' (tname (tcb_at i s))])
        in [''[dispatch-pending] consumed: reason='',
            dispatch_pending_reason_name (snapshot_reason snapshot),
            '' from id='', mag_str (from_task_id snapshot)]
           @ name_part (pending_current (dispatch_pending_state s))
           @ ['' to id='', mag_str (to_task_id snapshot)]
           @ name_part (pending_candidate (dispatch_pending_state s)) @ [''\<newline>''])) s"

subsection \<open>Consumption at the deferred boundary\<close>

definition dispatch_pending_take_snapshot ::
  "'a pending_module_scheme \<Rightarrow> dispatch_pending_snapshot_t option" where
  "dispatch_pending_take_snapshot s =
     (let p = dispatch_pending_state s
      in if \<not> requested p then None
         else Some \<lparr>snapshot_reason = pending_reason p, from_task_id = current_id p,
                    to_task_id = candidate_id p\<rparr>)"

definition dispatch_pending_consume_at_deferred_boundary ::
  "'a pending_module_scheme kernel_env \<Rightarrow> 'a pending_module_scheme \<Rightarrow>
   (int \<times> 'a pending_module_scheme) option" where
  "dispatch_pending_consume_at_deferred_boundary env s =
     (case dispatch_pending_take_snapshot s of
        None \<Rightarrow> Some (DISPATCH_PENDING_CONSUME_NO_PENDING,
                  say (\<lambda>s. [''[dispatch-pending] consume skipped: reason=no-pending\<newline>'']) s)
      | Some snapshot \<Rightarrow>
          let s = dispatch_pending_log_consumed snapshot s;
              from = task_get_mutable_by_id (from_task_id snapshot) s;
              to = task_get_mutable_by_id (to_task_id snapshot) s
          in if from = None \<or> tstate (tcb_at (the from) s) \<noteq> TASK_STATE_RUNNING
             then Some (DISPATCH_PENDING_CONSUME_INVALID,
                    dispatch_pending_clear_with_reason (Some ''invalid-pending'')
                      (say (\<lambda>s. [''[dispatch-pending] consume rejected: reason=invalid-from-or-to detail=invalid-current\<newline>'']) s))
             else if to = None \<or> tstate (tcb_at (the to) s) \<noteq> TASK_STATE_READY
             then Some (DISPATCH_PENDING_CONSUME_INVALID,
                    dispatch_pending_clear_with_reason (Some ''invalid-pending'')
                      (say (\<lambda>s. [''[dispatch-pending] consume rejected: reason=invalid-from-or-to detail=invalid-target\<newline>'']) s))
             else do {
               (result, s) \<leftarrow> dispatcher_switch_to env from to s;
               Some (result, dispatch_pending_clear_with_reason (Some ''dispatch-completed'') s)
             })"

end
