(* ===== verification/Preemption.thy ===== *)
theory Preemption
  imports Dispatch_Pending
begin

section \<open>Preemption evaluation on the IRQ path (\<open>kernel/preemption.c\<close>)\<close>

text \<open>
  The timer interrupt asks the scheduler whether a READY task should preempt the current one.
  A switch is only recorded as pending here, never made.
\<close>

definition preemption_irq_reason_to_string :: "scheduler_preempt_decision_t \<Rightarrow> string" where
  "preemption_irq_reason_to_string decision =
     (if decision_reason decision = SCHEDULER_PREEMPT_NEEDED then ''higher-priority-ready''
      else if decision_reason decision = SCHEDULER_PREEMPT_INVALID_CURRENT then ''invalid-current''
      else if decision_reason decision = SCHEDULER_PREEMPT_SAME_PRIORITY
      then ''same-priority-not-timeslice-target''
      else if decision_current decision = None then ''no-current''
      else ''no-higher-priority-ready'')"

fun preemption_irq_task_state_name :: "task_state_t \<Rightarrow> string" where
  "preemption_irq_task_state_name TASK_STATE_UNUSED = ''UNUSED''"
| "preemption_irq_task_state_name TASK_STATE_DORMANT = ''DORMANT''"
| "preemption_irq_task_state_name TASK_STATE_READY = ''READY''"
| "preemption_irq_task_state_name TASK_STATE_RUNNING = ''RUNNING''"
| "preemption_irq_task_state_name TASK_STATE_WAITING = ''WAITING''"

definition preemption_irq_log_task ::
  "string \<Rightarrow> nat option \<Rightarrow> 'a task_module_scheme \<Rightarrow> 'a task_module_scheme" where
  "preemption_irq_log_task prefix task s =
     (case task of
        None \<Rightarrow> say (\<lambda>s. [prefix, '' none\<newline>'']) s
      | Some i \<Rightarrow> tcb_say i (\<lambda>t. [prefix, '' id='', mag_str (tid t),
                   '' name='', name_or ''(null)'' (tname t),
                   '' prio='', mag_str (priority t),
                   '' state='', preemption_irq_task_state_name (tstate t), ''\<newline>'']) s)"

definition preemption_irq_log_decision ::
  "scheduler_preempt_decision_t \<Rightarrow> 'a console_scheme \<Rightarrow> 'a console_scheme" where
  "preemption_irq_log_decision decision s =
     say (\<lambda>s. [''[preempt-irq] decision evaluated: result='',
               (if decision_reason decision = SCHEDULER_PREEMPT_NEEDED then ''request-switch''
                else ''no-switch''),
               '' reason='', preemption_irq_reason_to_string decision, ''\<newline>'']) s"

definition preemption_evaluate_from_irq ::
  "'a pending_module_scheme \<Rightarrow> c_string \<times> 'a pending_module_scheme" where
  "preemption_evaluate_from_irq s =
     (let s = dispatch_pending_clear_irq_for_evaluation s;
          current = dispatcher_get_current s;
          decision = scheduler_select_preemption_candidate current s;
          s = (if current \<noteq> None then preemption_irq_log_task ''[preempt-irq] current:'' current s else s);
          s = (if decision_reason decision = SCHEDULER_PREEMPT_NEEDED
               then preemption_irq_log_task ''[preempt-irq] higher-ready detected:''
                      (decision_candidate decision) s
               else say (\<lambda>s. [''[preempt-irq] no higher-ready: reason='',
                              preemption_irq_reason_to_string decision, ''\<newline>'']) s);
          s = preemption_irq_log_decision decision s
      in if decision_reason decision = SCHEDULER_PREEMPT_NEEDED
         then (None, dispatch_request_from_irq current (decision_candidate decision) s)
         else (Some (preemption_irq_reason_to_string decision), s))"

end
