(* ===== verification/Itron_API.thy ===== *)
theory Itron_API
  imports Preemption
begin

section \<open>The task API (\<open>kernel/itron_api.c\<close>)\<close>

text \<open>
  The services a task calls: creation and start, sleep and wakeup, yield, the semaphore calls
  and the delay. The calls that may switch to another task return \<open>None\<close> when control does not
  come back to the caller; the others return the error code with the new state. A pointer
  to the current task is read in the state of the moment, as the C code does.
\<close>

subsection \<open>Error codes of \<open>itron_api.h\<close>\<close>

abbreviation (input) E_OK :: int where "E_OK \<equiv> 0"
abbreviation (input) E_PAR :: int where "E_PAR \<equiv> -17"
abbreviation (input) E_ID :: int where "E_ID \<equiv> -18"
abbreviation (input) E_CTX :: int where "E_CTX \<equiv> -25"
abbreviation (input) E_OBJ :: int where "E_OBJ \<equiv> -41"
abbreviation (input) E_QOVR :: int where "E_QOVR \<equiv> -43"
abbreviation (input) E_RLWAI :: int where "E_RLWAI \<equiv> -49"
abbreviation (input) E_TMOUT :: int where "E_TMOUT \<equiv> -50"

record itron_task_create_param_t =
  ctsk_entry :: u64
  ctsk_priority :: int
  ctsk_stack_base :: u64
  ctsk_stack_size :: u64
  ctsk_name :: c_string

subsection \<open>Texts\<close>

definition itron_error_name :: "int \<Rightarrow> string" where
  "itron_error_name ercd =
     (if ercd = E_OK then ''E_OK''
      else if ercd = E_ID then ''E_ID''
      else if ercd = E_PAR then ''E_PAR''
      else if ercd = E_CTX then ''E_CTX''
      else if ercd = E_OBJ then ''E_OBJ''
      else if ercd = E_TMOUT then ''E_TMOUT''
      else if ercd = E_RLWAI then ''E_RLWAI''
      else if ercd = E_QOVR then ''E_QOVR''
      else ''E_UNKNOWN'')"

fun itron_api_task_state_name :: "task_state_t \<Rightarrow> string" where
  "itron_api_task_state_name TASK_STATE_UNUSED = ''UNUSED''"
| "itron_api_task_state_name TASK_STATE_DORMANT = ''DORMANT''"
| "itron_api_task_state_name TASK_STATE_READY = ''READY''"
| "itron_api_task_state_name TASK_STATE_RUNNING = ''RUNNING''"
| "itron_api_task_state_name TASK_STATE_WAITING = ''WAITING''"

fun itron_api_wait_reason_name :: "task_wait_reason_t \<Rightarrow> string" where
  "itron_api_wait_reason_name TASK_WAIT_REASON_NONE = ''none''"
| "itron_api_wait_reason_name TASK_WAIT_REASON_SEMAPHORE = ''semaphore''"
| "itron_api_wait_reason_name TASK_WAIT_REASON_DELAY = ''delay''"
| "itron_api_wait_reason_name TASK_WAIT_REASON_SEMAPHORE_TIMEOUT = ''semaphore-timeout''"
| "itron_api_wait_reason_name TASK_WAIT_REASON_SLEEP = ''sleep''"

definition itron_api_log_task_identity :: "tcb_t \<Rightarrow> string list" where
  "itron_api_log_task_identity t =
     ['' id='', mag_str (tid t), '' name='', name_or ''(null)'' (tname t),
      '' state='', itron_api_task_state_name (tstate t)]"

definition itron_api_log_task_id_name :: "tcb_t \<Rightarrow> string list" where
  "itron_api_log_task_id_name t =
     ['' id='', mag_str (tid t), '' name='', name_or ''(null)'' (tname t)]"

definition itron_api_log_next_candidate :: "tcb_t \<Rightarrow> string list" where
  "itron_api_log_next_candidate t =
     ['' id='', mag_str (tid t), '' name='', name_or ''(null)'' (tname t),
      '' prio='', mag_str (priority t), '' state='', itron_api_task_state_name (tstate t)]"

text \<open>\<open>[op] completed: result=<name> action=<action>\<close>, the last line of every call.\<close>

definition completed :: "string \<Rightarrow> int \<Rightarrow> string \<Rightarrow> 'a console_scheme \<Rightarrow> 'a console_scheme" where
  "completed op ercd action s =
     say (\<lambda>s. [''['', op, ''] completed: result='', itron_error_name ercd, '' action='', action,
               ''\<newline>'']) s"

text \<open>\<open> current=none\<close>, or the current task: the end of the first line of several calls.\<close>

definition log_current :: "nat option \<Rightarrow> 'a task_module_scheme \<Rightarrow> string list" where
  "log_current current s =
     (case current of
        None \<Rightarrow> ['' current=none\<newline>'']
      | Some c \<Rightarrow> ['' current''] @ itron_api_log_next_candidate (tcb_at c s) @ [''\<newline>''])"

text \<open>The comparison a call logs before it may request a dispatch.\<close>

definition log_preempt :: "nat \<Rightarrow> nat \<Rightarrow> 'a task_module_scheme \<Rightarrow> string list" where
  "log_preempt c r s =
     [''[preempt] evaluate: current''] @ itron_api_log_next_candidate (tcb_at c s)
     @ ['' ready''] @ itron_api_log_next_candidate (tcb_at r s) @ [''\<newline>'']"

subsection \<open>\<open>cre_tsk\<close>, \<open>sta_tsk\<close>\<close>

text \<open>A null parameter pointer is \<open>None\<close>.\<close>

definition cre_tsk ::
  "int \<Rightarrow> itron_task_create_param_t option \<Rightarrow> 'a task_module_scheme \<Rightarrow> int \<times> 'a task_module_scheme" where
  "cre_tsk tskid pk_ctsk s =
     (let (task_name, prio) = (case pk_ctsk of
             None \<Rightarrow> (''(invalid)'', 0)
           | Some pk \<Rightarrow> (case ctsk_name pk of None \<Rightarrow> (''(invalid)'', 0) | Some n \<Rightarrow> (n, ctsk_priority pk)));
          s = say (\<lambda>s. [''[cre-tsk] called: tskid='', mag_str tskid, '' name='', task_name,
                        '' prio='', mag_str prio, ''\<newline>'']) s
      in if tskid \<le> 0
         then let s = say (\<lambda>s. [''[cre-tsk] invalid id: tskid='', mag_str tskid, ''\<newline>'']) s
              in (E_ID, completed ''cre-tsk'' E_ID ''invalid-id'' s)
         else case pk_ctsk of
           None \<Rightarrow>
             (let s = say (\<lambda>s. [''[cre-tsk] invalid param: '', ''pk_ctsk=NULL'', ''\<newline>'']) s
              in (E_PAR, completed ''cre-tsk'' E_PAR ''invalid-parameter'' s))
         | Some pk \<Rightarrow>
             if ctsk_entry pk = 0 \<or> ctsk_stack_base pk = 0 \<or> ctsk_stack_size pk = 0 \<or> ctsk_name pk = None
             then let s = say (\<lambda>s. [''[cre-tsk] invalid param: '',
                        (if ctsk_entry pk = 0 then ''entry=NULL''
                         else if ctsk_stack_base pk = 0 then ''stack_base=NULL''
                         else if ctsk_stack_size pk = 0 then ''stack_size=0''
                         else ''name=NULL''), ''\<newline>'']) s
                  in (E_PAR, completed ''cre-tsk'' E_PAR ''invalid-parameter'' s)
             else let (result, s) = task_create_dormant tskid (ctsk_name pk) (ctsk_entry pk)
                                      (ctsk_priority pk) (ctsk_stack_base pk) (ctsk_stack_size pk) s
                  in if result \<noteq> 0
                     then let s = say (\<lambda>s. [''[cre-tsk] rejected: reason=task-create-failed err='',
                                           mag_str result, ''\<newline>'']) s
                          in (E_OBJ, completed ''cre-tsk'' E_OBJ ''create-failed'' s)
                     else (E_OK, completed ''cre-tsk'' E_OK ''created'' s))"

text \<open>After the start: compare the new READY task with a RUNNING current task.\<close>

definition sta_tsk_ready ::
  "nat option \<Rightarrow> int \<Rightarrow> 'a pending_module_scheme \<Rightarrow> int \<times> 'a pending_module_scheme" where
  "sta_tsk_ready current tskid s =
     (let ready_task = task_get_by_id tskid s;
          s = say (\<lambda>s. [''[sta-tsk] ready:''] @ itron_api_log_next_candidate (tcb_at (the ready_task) s)
                @ [''\<newline>'']) s
      in case (current, ready_task) of
           (Some c, Some r) \<Rightarrow>
             if tstate (tcb_at c s) = TASK_STATE_RUNNING
             then let s = say (log_preempt c r) s
                  in if priority (tcb_at r s) < priority (tcb_at c s)
                     then let s = dispatch_request_from_task_start current ready_task s;
                              s = say (\<lambda>s. [''[preempt] pending set: reason=task-start\<newline>'']) s
                          in (E_OK, completed ''sta-tsk'' E_OK ''started-preempt-pending'' s)
                     else (E_OK, completed ''sta-tsk'' E_OK ''started'' s)
             else (E_OK, completed ''sta-tsk'' E_OK ''started'' s)
         | _ \<Rightarrow> (E_OK, completed ''sta-tsk'' E_OK ''started'' s))"

definition sta_tsk :: "int \<Rightarrow> 'a pending_module_scheme \<Rightarrow> int \<times> 'a pending_module_scheme" where
  "sta_tsk tskid s =
     (let current = dispatcher_get_current s;
          s = say (\<lambda>s. [''[sta-tsk] called: tskid='', mag_str tskid] @ log_current current s) s
      in if tskid \<le> 0
         then let s = say (\<lambda>s. [''[sta-tsk] rejected: reason=invalid-task-id\<newline>'']) s
              in (E_ID, completed ''sta-tsk'' E_ID ''invalid-task-id'' s)
         else case task_get_by_id tskid s of
           None \<Rightarrow>
             (let s = say (\<lambda>s. [''[sta-tsk] rejected: reason=task-not-found tskid='', mag_str tskid, ''\<newline>'']) s
              in (E_ID, completed ''sta-tsk'' E_ID ''invalid-id'' s))
         | Some target \<Rightarrow>
             if tstate (tcb_at target s) \<noteq> TASK_STATE_DORMANT
             then let s = tcb_say target (\<lambda>t. [''[sta-tsk] invalid state: tskid='', mag_str tskid,
                        '' state='', itron_api_task_state_name (tstate t), '' expected=DORMANT\<newline>'']) s
                  in (E_OBJ, completed ''sta-tsk'' E_OBJ ''invalid-state'' s)
             else let (result, s) = task_start_dormant tskid s
                  in if result \<noteq> 0
                     then let s = say (\<lambda>s. [''[sta-tsk] rejected: reason=start-failed err='',
                                           mag_str result, ''\<newline>'']) s
                          in (E_OBJ, completed ''sta-tsk'' E_OBJ ''start-failed'' s)
                     else sta_tsk_ready current tskid s)"

subsection \<open>\<open>slp_tsk\<close>, \<open>wup_tsk\<close>\<close>

text \<open>The part of \<open>slp_tsk\<close> after the current task \<open>c\<close> has become WAITING.\<close>

definition slp_tsk_switch ::
  "'a pending_module_scheme kernel_env \<Rightarrow> nat \<Rightarrow> 'a pending_module_scheme \<Rightarrow>
   (int \<times> 'a pending_module_scheme) option" where
  "slp_tsk_switch env c s =
     (case scheduler_select_next s of
        None \<Rightarrow>
          (let s = say (\<lambda>s. [''[slp-tsk] no next task: reason=no-ready-task action=unsupported-stop\<newline>'']) s
           in Some (E_OK, completed ''slp-tsk'' E_OK ''sleep'' s))
      | Some next \<Rightarrow>
          (let s = tcb_say next (\<lambda>t. [''[scheduler] selected:''] @ itron_api_log_next_candidate t @ [''\<newline>'']) s
           in case (task_get_mutable_by_id (tid (tcb_at c s)) s, task_get_mutable_by_id (tid (tcb_at next s)) s) of
                (Some cm, Some nm) \<Rightarrow>
                  do {
                    let s = say (\<lambda>s. [''[dispatcher] switch requested: prev'']
                              @ itron_api_log_task_identity (tcb_at cm s) @ ['' next'']
                              @ itron_api_log_task_identity (tcb_at nm s) @ [''\<newline>'']) s;
                    (switch_result, s) \<leftarrow> dispatcher_switch_to env (Some cm) (Some nm) s;
                    if switch_result \<noteq> DISPATCHER_OK
                    then Some (E_OBJ, completed ''slp-tsk'' E_OBJ ''sleep-switch-failed'' s)
                    else Some (E_OK, completed ''slp-tsk'' E_OK ''sleep'' s)
                  }
              | _ \<Rightarrow>
                  (let s = say (\<lambda>s. [''[slp-tsk] rejected: reason=switch-task-not-found\<newline>'']) s
                   in Some (E_OBJ, completed ''slp-tsk'' E_OBJ ''sleep-switch-failed'' s))))"

definition slp_tsk ::
  "'a pending_module_scheme kernel_env \<Rightarrow> 'a pending_module_scheme \<Rightarrow>
   (int \<times> 'a pending_module_scheme) option" where
  "slp_tsk env s =
     (case dispatcher_get_current s of
        None \<Rightarrow>
          (let s = say (\<lambda>s. [''[slp-tsk] called: current=none\<newline>'']) s
           in Some (E_CTX, completed ''slp-tsk'' E_CTX ''invalid-current-state'' s))
      | Some c \<Rightarrow>
          (let s = tcb_say c (\<lambda>t. [''[slp-tsk] called: current''] @ itron_api_log_next_candidate t @ [''\<newline>'']) s
           in if tstate (tcb_at c s) \<noteq> TASK_STATE_RUNNING
              then let s = tcb_say c (\<lambda>t. [''[slp-tsk] rejected: reason=invalid-current-state current'']
                              @ itron_api_log_task_identity t @ [''\<newline>'']) s
                   in Some (E_CTX, completed ''slp-tsk'' E_CTX ''invalid-current-state'' s)
              else let (wait_result, s) = task_mark_waiting_on_sleep (tid (tcb_at c s)) s
                   in if wait_result \<noteq> 0
                      then let s = say (\<lambda>s. [''[slp-tsk] rejected: reason=sleep-transition-failed err='',
                                            mag_str wait_result, ''\<newline>'']) s
                           in Some (E_OBJ, completed ''slp-tsk'' E_OBJ ''sleep-transition-failed'' s)
                      else slp_tsk_switch env c s))"

definition wup_tsk_ready ::
  "nat option \<Rightarrow> int \<Rightarrow> 'a pending_module_scheme \<Rightarrow> int \<times> 'a pending_module_scheme" where
  "wup_tsk_ready current tskid s =
     (let ready_task = task_get_by_id tskid s;
          s = say (\<lambda>s. [''[wup-tsk] ready:''] @ itron_api_log_next_candidate (tcb_at (the ready_task) s)
                @ [''\<newline>'']) s
      in case (current, ready_task) of
           (Some c, Some r) \<Rightarrow>
             if tstate (tcb_at c s) = TASK_STATE_RUNNING
             then let s = say (log_preempt c r) s
                  in if priority (tcb_at r s) < priority (tcb_at c s)
                     then let s = dispatch_request_from_task_wakeup current ready_task s;
                              s = say (\<lambda>s. [''[preempt] pending set: reason=task-wakeup\<newline>'']) s
                          in (E_OK, completed ''wup-tsk'' E_OK ''wakeup-preempt-pending'' s)
                     else (E_OK, completed ''wup-tsk'' E_OK ''wakeup'' s)
             else (E_OK, completed ''wup-tsk'' E_OK ''wakeup'' s)
         | _ \<Rightarrow> (E_OK, completed ''wup-tsk'' E_OK ''wakeup'' s))"

definition wup_tsk :: "int \<Rightarrow> 'a pending_module_scheme \<Rightarrow> int \<times> 'a pending_module_scheme" where
  "wup_tsk tskid s =
     (let current = dispatcher_get_current s;
          s = say (\<lambda>s. [''[wup-tsk] called: tskid='', mag_str tskid] @ log_current current s) s
      in if tskid \<le> 0
         then let s = say (\<lambda>s. [''[wup-tsk] rejected: reason=invalid-task-id\<newline>'']) s
              in (E_ID, completed ''wup-tsk'' E_ID ''invalid-task-id'' s)
         else case task_get_by_id tskid s of
           None \<Rightarrow>
             (let s = say (\<lambda>s. [''[wup-tsk] rejected: reason=task-not-found tskid='', mag_str tskid, ''\<newline>'']) s
              in (E_ID, completed ''wup-tsk'' E_ID ''invalid-id'' s))
         | Some target \<Rightarrow>
             if tstate (tcb_at target s) \<noteq> TASK_STATE_WAITING \<or>
                wait_reason (tcb_at target s) \<noteq> TASK_WAIT_REASON_SLEEP
             then let s = tcb_say target (\<lambda>t. [''[wup-tsk] invalid state: tskid='', mag_str tskid,
                        '' state='', itron_api_task_state_name (tstate t),
                        '' reason='', itron_api_wait_reason_name (wait_reason t),
                        '' expected=WAITING reason=sleep\<newline>'']) s
                  in (E_OBJ, completed ''wup-tsk'' E_OBJ ''invalid-state'' s)
             else let (wake_result, s) = task_wake_waiting_on_sleep_by_id tskid s
                  in if wake_result \<noteq> 0
                     then let s = say (\<lambda>s. [''[wup-tsk] rejected: reason=wakeup-failed err='',
                                           mag_str wake_result, ''\<newline>'']) s
                          in (E_OBJ, completed ''wup-tsk'' E_OBJ ''wakeup-failed'' s)
                     else wup_tsk_ready current tskid s)"

subsection \<open>\<open>yield_tsk\<close>\<close>

text \<open>
  The part after the current task \<open>c\<close> has become READY. The result of the switch is logged and
  then dropped.
\<close>

definition yield_tsk_switch ::
  "'a pending_module_scheme kernel_env \<Rightarrow> nat \<Rightarrow> nat option \<Rightarrow> 'a pending_module_scheme \<Rightarrow>
   (int \<times> 'a pending_module_scheme) option" where
  "yield_tsk_switch env c next s =
     (if next = None \<or> tid (tcb_at (the next) s) = tid (tcb_at c s)
      then let s = say (\<lambda>s. [''[yield] no next task: reason=no-ready-task\<newline>'',
                             ''[yield] deferred: reason=no-next-task\<newline>'']) s
           in Some (E_OK, completed ''yield'' E_OK ''no-next-task'' s)
      else let n = the next;
               s = tcb_say n (\<lambda>t. [''[yield] next selected:''] @ itron_api_log_next_candidate t @ [''\<newline>'']) s
           in case (task_get_mutable_by_id (tid (tcb_at c s)) s, task_get_mutable_by_id (tid (tcb_at n s)) s) of
                (Some cm, Some nm) \<Rightarrow>
                  do {
                    let s = say (\<lambda>s. [''[yield] switch begin: from'']
                              @ itron_api_log_task_id_name (tcb_at c s) @ ['' to'']
                              @ itron_api_log_task_id_name (tcb_at n s) @ [''\<newline>'']) s;
                    (switch_result, s) \<leftarrow> dispatcher_switch_to env (Some cm) (Some nm) s;
                    let s = say (\<lambda>s. [''[yield] switch end: result='', mag_str switch_result, ''\<newline>'']) s;
                    Some (E_OK, completed ''yield'' E_OK ''switched'' s)
                  }
              | _ \<Rightarrow>
                  (let s = say (\<lambda>s. [''[yield] deferred: reason=switch-task-not-found\<newline>'']) s
                   in Some (E_CTX, completed ''yield'' E_CTX ''switch-task-not-found'' s)))"

definition yield_tsk ::
  "'a pending_module_scheme kernel_env \<Rightarrow> 'a pending_module_scheme \<Rightarrow>
   (int \<times> 'a pending_module_scheme) option" where
  "yield_tsk env s =
     (case dispatcher_get_current s of
        None \<Rightarrow>
          (let s = say (\<lambda>s. [''[yield] called\<newline>'',
                 ''[yield] rejected: reason=invalid-current-state current=none\<newline>'']) s
           in Some (E_CTX, completed ''yield'' E_CTX ''invalid-current-state'' s))
      | Some c \<Rightarrow>
          (let s = tcb_say c (\<lambda>t. [''[yield] called: current''] @ itron_api_log_task_identity t @ [''\<newline>'']) s
           in if tstate (tcb_at c s) \<noteq> TASK_STATE_RUNNING
              then let s = tcb_say c (\<lambda>t. [''[yield] rejected: reason=invalid-current-state current'']
                              @ itron_api_log_task_identity t @ [''\<newline>'']) s
                   in Some (E_CTX, completed ''yield'' E_CTX ''invalid-current-state'' s)
              else let (ready_result, s) = task_mark_ready_from_running (tid (tcb_at c s)) s
                   in if ready_result \<noteq> 0
                      then let s = tcb_say c (\<lambda>t. [''[yield] rejected: reason=ready-transition-failed current'']
                                      @ itron_api_log_task_identity t
                                      @ ['' err='', mag_str ready_result, ''\<newline>'']) s
                           in Some (E_CTX, completed ''yield'' E_CTX ''ready-transition-failed'' s)
                      else let s = tcb_say c (\<lambda>t. [''[yield] state transition: current'']
                                      @ itron_api_log_task_id_name t @ ['' RUNNING->READY\<newline>'']) s
                           in yield_tsk_switch env c (scheduler_select_next s) s))"

subsection \<open>The switch of a task that has begun to wait\<close>

text \<open>
  \<open>wai_sem\<close>, \<open>twai_sem\<close> and \<open>dly_tsk\<close> end with the same code but for the words of the log: take the
  next READY task and switch to it. \<open>op\<close> is the name in the log; \<open>not_found\<close>, \<open>failed\<close> and
  \<open>switched\<close> are the actions logged at its ends.
\<close>

definition wait_switch ::
  "'a pending_module_scheme kernel_env \<Rightarrow> string \<Rightarrow> string \<Rightarrow> string \<Rightarrow> string \<Rightarrow> nat \<Rightarrow>
   'a pending_module_scheme \<Rightarrow> (int \<times> 'a pending_module_scheme) option" where
  "wait_switch env op not_found failed switched c s =
     (case scheduler_select_next s of
        None \<Rightarrow>
          (let s = say (\<lambda>s. [''['', op, ''] no next task: reason=no-ready-task action=unsupported-stop\<newline>'']) s
           in Some (E_OK, completed op E_OK ''no-ready-task'' s))
      | Some next \<Rightarrow>
          (let s = tcb_say next (\<lambda>t. [''['', op, ''] next selected:''] @ itron_api_log_next_candidate t
                     @ [''\<newline>'']) s
           in case (task_get_mutable_by_id (tid (tcb_at c s)) s, task_get_mutable_by_id (tid (tcb_at next s)) s) of
                (Some cm, Some nm) \<Rightarrow>
                  do {
                    let s = say (\<lambda>s. [''['', op, ''] switch begin: from'']
                              @ itron_api_log_task_id_name (tcb_at c s) @ ['' to'']
                              @ itron_api_log_task_id_name (tcb_at next s) @ [''\<newline>'']) s;
                    (switch_result, s) \<leftarrow> dispatcher_switch_to env (Some cm) (Some nm) s;
                    let s = say (\<lambda>s. [''['', op, ''] switch end: result='', mag_str switch_result, ''\<newline>'']) s;
                    if switch_result \<noteq> DISPATCHER_OK
                    then Some (E_OBJ, completed op E_OBJ failed s)
                    else Some (E_OK, completed op E_OK switched s)
                  }
              | _ \<Rightarrow>
                  (let s = say (\<lambda>s. [''['', op, ''] rejected: reason=switch-task-not-found\<newline>'']) s
                   in Some (E_OBJ, completed op E_OBJ not_found s))))"

subsection \<open>\<open>wai_sem\<close>, \<open>pol_sem\<close>\<close>

text \<open>The part of \<open>wai_sem\<close> for a semaphore without a count: wait in its queue.\<close>

definition wai_sem_block ::
  "'a pending_module_scheme kernel_env \<Rightarrow> int \<Rightarrow> int \<Rightarrow> nat \<Rightarrow> 'a pending_module_scheme \<Rightarrow>
   (int \<times> 'a pending_module_scheme) option" where
  "wai_sem_block env sem_id count_before c s =
     (let s = say (\<lambda>s. [''[wai-sem] wait required: sem_id='', mag_str sem_id,
                        '' count='', mag_str count_before, ''\<newline>'']) s;
          (wait_result, s) = task_mark_waiting_on_sem (tid (tcb_at c s)) sem_id s
      in if wait_result \<noteq> 0
         then let s = say (\<lambda>s. [''[wai-sem] rejected: reason=waiting-transition-failed err='',
                               mag_str wait_result, ''\<newline>'']) s
              in Some (E_OBJ, completed ''wai-sem'' E_OBJ ''waiting-transition-failed'' s)
         else let (enqueue_result, s) = sem_enqueue_waiter sem_id (tid (tcb_at c s)) s
         in if enqueue_result \<noteq> SEM_OK
         then let s = say (\<lambda>s. [''[wai-sem] rejected: reason=wait-queue-enqueue-failed err='',
                               mag_str enqueue_result, ''\<newline>'']) s
              in Some (E_OBJ, completed ''wai-sem'' E_OBJ ''wait-queue-enqueue-failed'' s)
         else let s = tcb_say c (\<lambda>t. [''[wai-sem] state transition: current'']
                        @ itron_api_log_task_id_name t @ ['' RUNNING->WAITING\<newline>'']) s
              in wait_switch env ''wai-sem'' ''switch-task-not-found'' ''wait-switch-failed''
                   ''wait-switch'' c s)"

definition wai_sem ::
  "'a pending_module_scheme kernel_env \<Rightarrow> int \<Rightarrow> 'a pending_module_scheme \<Rightarrow>
   (int \<times> 'a pending_module_scheme) option" where
  "wai_sem env sem_id s =
     (case dispatcher_get_current s of
        None \<Rightarrow>
          (let s = say (\<lambda>s. [''[wai-sem] called: sem_id='', mag_str sem_id, '' current=none\<newline>'',
                 ''[wai-sem] rejected: reason=invalid-current-state current=none\<newline>'']) s
           in Some (E_CTX, completed ''wai-sem'' E_CTX ''invalid-current-state'' s))
      | Some c \<Rightarrow>
          (let s = tcb_say c (\<lambda>t. [''[wai-sem] called: sem_id='', mag_str sem_id, '' current'']
                     @ itron_api_log_task_identity t @ [''\<newline>'']) s
           in if tstate (tcb_at c s) \<noteq> TASK_STATE_RUNNING
              then let s = tcb_say c (\<lambda>t. [''[wai-sem] rejected: reason=invalid-current-state current'']
                              @ itron_api_log_task_identity t @ [''\<newline>'']) s
                   in Some (E_CTX, completed ''wai-sem'' E_CTX ''invalid-current-state'' s)
              else if sem_get_by_id sem_id s = None
              then let s = say (\<lambda>s. [''[wai-sem] rejected: reason=invalid-semaphore sem_id='',
                                    mag_str sem_id, ''\<newline>'']) s
                   in Some (E_ID, completed ''wai-sem'' E_ID ''invalid-id'' s)
              else let ((take_result, before, after), s) = sem_take_if_available sem_id s;
                       count_before = (case before of None \<Rightarrow> 0 | Some v \<Rightarrow> v);
                       count_after = (case after of None \<Rightarrow> 0 | Some v \<Rightarrow> v)
              in if take_result = SEM_OK
              then let s = say (\<lambda>s. [''[wai-sem] acquired: sem_id='', mag_str sem_id,
                                    '' count '', mag_str count_before, ''->'', mag_str count_after, ''\<newline>'']) s
                   in Some (E_OK, completed ''wai-sem'' E_OK ''no-switch'' s)
              else if take_result \<noteq> SEM_WAIT_REQUIRED
              then let s = say (\<lambda>s. [''[wai-sem] rejected: reason=semaphore-error err='',
                                    mag_str take_result, ''\<newline>'']) s
                   in Some (E_ID, completed ''wai-sem'' E_ID ''semaphore-error'' s)
              else wai_sem_block env sem_id count_before c s))"

definition pol_sem :: "int \<Rightarrow> 'a pending_module_scheme \<Rightarrow> int \<times> 'a pending_module_scheme" where
  "pol_sem sem_id s =
     (let current = dispatcher_get_current s;
          s = say (\<lambda>s. [''[pol-sem] called: semid='', mag_str sem_id] @ log_current current s) s
      in case current of
        None \<Rightarrow> (E_CTX, completed ''pol-sem'' E_CTX ''invalid-current-state'' s)
      | Some c \<Rightarrow>
          if tstate (tcb_at c s) \<noteq> TASK_STATE_RUNNING
          then let s = tcb_say c (\<lambda>t. [''[pol-sem] rejected: reason=invalid-current-state current'']
                          @ itron_api_log_task_identity t @ [''\<newline>'']) s
               in (E_CTX, completed ''pol-sem'' E_CTX ''invalid-current-state'' s)
          else if sem_get_by_id sem_id s = None
          then let s = say (\<lambda>s. [''[pol-sem] rejected: reason=invalid-semaphore semid='',
                                mag_str sem_id, ''\<newline>'']) s
               in (E_ID, completed ''pol-sem'' E_ID ''invalid-semaphore'' s)
          else let ((take_result, before, after), s) = sem_take_if_available sem_id s;
                   count_before = (case before of None \<Rightarrow> 0 | Some v \<Rightarrow> v);
                   count_after = (case after of None \<Rightarrow> 0 | Some v \<Rightarrow> v)
          in if take_result = SEM_OK
          then let s = say (\<lambda>s. [''[sem] acquire: semid='', mag_str sem_id,
                                '' count '', mag_str count_before, ''->'', mag_str count_after, ''\<newline>'']) s
               in (E_OK, completed ''pol-sem'' E_OK ''acquired'' s)
          else if take_result = SEM_WAIT_REQUIRED
          then let s = say (\<lambda>s. [''[sem] poll failed: semid='', mag_str sem_id,
                                '' count='', mag_str count_after, ''\<newline>'']) s
               in (E_TMOUT, completed ''pol-sem'' E_TMOUT ''would-block'' s)
          else let s = say (\<lambda>s. [''[pol-sem] rejected: reason=semaphore-error err='',
                                mag_str take_result, ''\<newline>'']) s
               in (E_ID, completed ''pol-sem'' E_ID ''semaphore-error'' s))"

subsection \<open>\<open>sig_sem\<close>\<close>

text \<open>The part after the woken task has become READY.\<close>

definition sig_sem_ready ::
  "nat option \<Rightarrow> int \<Rightarrow> nat \<Rightarrow> task_wait_reason_t \<Rightarrow> 'a pending_module_scheme \<Rightarrow>
   int \<times> 'a pending_module_scheme" where
  "sig_sem_ready current woken_task_id waiting_task reason s =
     (let ready_task = task_get_by_id woken_task_id s;
          s = say (\<lambda>s. [''[task] wakeup:''] @ itron_api_log_task_id_name (tcb_at waiting_task s)
                @ ['' WAITING->READY reason='', itron_api_wait_reason_name reason, ''\<newline>'']
                @ [''[sig-sem] ready:''] @ itron_api_log_next_candidate (tcb_at (the ready_task) s)
                @ [''\<newline>'']) s;
          no_switch = (\<lambda>s. (E_OK,
            completed ''sig-sem'' E_OK
              (if reason = TASK_WAIT_REASON_SEMAPHORE_TIMEOUT then ''wakeup-timeout-waiter''
               else ''wakeup'') s))
      in case (current, ready_task) of
           (Some c, Some r) \<Rightarrow>
             if tstate (tcb_at c s) = TASK_STATE_RUNNING \<and> tstate (tcb_at r s) = TASK_STATE_READY
             then let s = say (log_preempt c r) s
                  in if priority (tcb_at r s) < priority (tcb_at c s)
                     then let s = dispatch_request_from_task_wakeup current ready_task s;
                              s = say (\<lambda>s. [''[preempt] pending set: reason=semaphore-wakeup\<newline>'']) s
                          in (E_OK, completed ''sig-sem'' E_OK ''wakeup-preempt-pending'' s)
                     else no_switch s
             else no_switch s
         | _ \<Rightarrow> no_switch s)"

text \<open>The part for a dequeued waiter: leave the delay queue, become READY.\<close>

definition sig_sem_wake ::
  "nat option \<Rightarrow> int \<Rightarrow> int \<Rightarrow> 'a pending_module_scheme \<Rightarrow> int \<times> 'a pending_module_scheme" where
  "sig_sem_wake current sem_id woken_task_id s =
     (case task_get_by_id woken_task_id s of
        None \<Rightarrow> (E_OBJ, completed ''sig-sem'' E_OBJ ''task-not-found'' s)
      | Some waiting_task \<Rightarrow>
          let reason = wait_reason (tcb_at waiting_task s);
              s = tcb_say waiting_task (\<lambda>t. [''[sem] wakeup: semid='', mag_str sem_id, '' task'']
                    @ itron_api_log_task_id_name t
                    @ ['' reason='', itron_api_wait_reason_name reason, ''\<newline>'']) s
          in if reason = TASK_WAIT_REASON_SEMAPHORE_TIMEOUT
             then let (delay_remove_result, s) = delay_queue_remove_sem_timeout_waiter woken_task_id s
                  in if delay_remove_result \<noteq> DELAY_QUEUE_OK
                     then (E_OBJ, completed ''sig-sem'' E_OBJ ''delay-queue-remove-failed'' s)
                     else let (wake_result, s) = task_wake_waiting_on_sem_timeout_by_id woken_task_id sem_id s
                          in if wake_result \<noteq> 0
                             then (E_OBJ, completed ''sig-sem'' E_OBJ ''wakeup-failed'' s)
                             else sig_sem_ready current woken_task_id waiting_task reason s
             else if reason = TASK_WAIT_REASON_SEMAPHORE
             then let (wake_result, s) = task_wake_waiting_on_sem_by_id woken_task_id sem_id s
                  in if wake_result \<noteq> 0
                     then (E_OBJ, completed ''sig-sem'' E_OBJ ''wakeup-failed'' s)
                     else sig_sem_ready current woken_task_id waiting_task reason s
             else (E_OBJ, completed ''sig-sem'' E_OBJ ''invalid-waiter-reason'' s))"

definition sig_sem :: "int \<Rightarrow> 'a pending_module_scheme \<Rightarrow> int \<times> 'a pending_module_scheme" where
  "sig_sem sem_id s =
     (let current = dispatcher_get_current s;
          s = say (\<lambda>s. [''[sig-sem] called: semid='', mag_str sem_id] @ log_current current s) s
      in if sem_get_by_id sem_id s = None
         then let s = say (\<lambda>s. [''[sig-sem] rejected: reason=invalid-semaphore semid='',
                               mag_str sem_id, ''\<newline>'']) s
              in (E_ID, completed ''sig-sem'' E_ID ''invalid-semaphore'' s)
         else let ((dequeue_result, woken), s) = sem_dequeue_waiter sem_id s;
                  woken_task_id = (case woken of None \<Rightarrow> 0 | Some v \<Rightarrow> v)
         in if dequeue_result = SEM_WAIT_QUEUE_EMPTY
            then let ((increment_result, before, after), s) = sem_increment_count sem_id s;
                     count_before = (case before of None \<Rightarrow> 0 | Some v \<Rightarrow> v);
                     count_after = (case after of None \<Rightarrow> 0 | Some v \<Rightarrow> v)
                 in if increment_result \<noteq> SEM_OK
                    then let s = say (\<lambda>s. [''[sig-sem] rejected: reason=count-overflow semid='',
                                mag_str sem_id, '' count='', mag_str count_before, ''\<newline>'']) s
                         in (E_QOVR, completed ''sig-sem'' E_QOVR ''count-overflow'' s)
                    else let s = say (\<lambda>s. [''[sem] signal: semid='', mag_str sem_id,
                                '' no-waiter count '', mag_str count_before, ''->'', mag_str count_after,
                                ''\<newline>'']) s
                         in (E_OK, completed ''sig-sem'' E_OK ''count-increment'' s)
            else if dequeue_result \<noteq> SEM_OK
            then let s = say (\<lambda>s. [''[sig-sem] rejected: reason=wait-queue-error err='',
                                  mag_str dequeue_result, ''\<newline>'']) s
                 in (E_OBJ, completed ''sig-sem'' E_OBJ ''wait-queue-error'' s)
            else sig_sem_wake current sem_id woken_task_id s)"

subsection \<open>\<open>twai_sem\<close>\<close>

text \<open>The log of a full, duplicate or invalid delay queue, and the action it ends with.\<close>

definition log_delay_queue_refusal ::
  "string \<Rightarrow> int \<Rightarrow> nat \<Rightarrow> u32 \<Rightarrow> 'a task_module_scheme \<Rightarrow> 'a task_module_scheme" where
  "log_delay_queue_refusal op delay_queue_result c ticks s =
     (let s = tcb_say c (\<lambda>t.
            [(if delay_queue_result = DELAY_QUEUE_ERR_FULL
              then ''[delay-q] enqueue failed: reason=full task id=''
              else if delay_queue_result = DELAY_QUEUE_ERR_DUPLICATE
              then ''[delay-q] enqueue failed: reason=duplicate task id=''
              else ''[delay-q] enqueue failed: reason=invalid task id=''),
             mag_str (tid t), '' name='', name_or ''(null)'' (tname t),
             '' delay_ticks='', u32_str ticks, ''\<newline>'']) s
      in completed op E_QOVR
           (if delay_queue_result = DELAY_QUEUE_ERR_FULL then ''delay-queue-full''
            else if delay_queue_result = DELAY_QUEUE_ERR_DUPLICATE then ''delay-queue-duplicate''
            else ''delay-queue-invalid'') s)"

text \<open>The part of \<open>twai_sem\<close> for a semaphore without a count, with the checks that come first.\<close>

definition twai_sem_wait ::
  "'a pending_module_scheme kernel_env \<Rightarrow> int \<Rightarrow> u32 \<Rightarrow> nat \<Rightarrow> 'a pending_module_scheme \<Rightarrow>
   (int \<times> 'a pending_module_scheme) option" where
  "twai_sem_wait env sem_id timeout_ticks c s =
     (let s = say (\<lambda>s. [''[twai-sem] wait begin: sem id='', mag_str sem_id, '' current'']
                @ itron_api_log_task_id_name (tcb_at c s)
                @ ['' timeout_ticks='', u32_str timeout_ticks, ''\<newline>'']) s;
          (wait_result, s) = task_mark_waiting_on_sem_timeout (tid (tcb_at c s)) sem_id timeout_ticks s
      in if wait_result \<noteq> 0
         then let s = say (\<lambda>s. [''[twai-sem] rejected: reason=timeout-wait-transition-failed err='',
                               mag_str wait_result, ''\<newline>'']) s
              in Some (E_OBJ, completed ''twai-sem'' E_OBJ ''timeout-wait-transition-failed'' s)
         else let (enqueue_result, s) = sem_enqueue_waiter sem_id (tid (tcb_at c s)) s
         in if enqueue_result \<noteq> SEM_OK
         then Some (E_ID, completed ''twai-sem'' E_ID ''sem-wait-queue-enqueue-failed'' s)
         else let (delay_queue_result, s) = delay_queue_enqueue (tid (tcb_at c s)) timeout_ticks s
         in if delay_queue_result \<noteq> DELAY_QUEUE_OK
         then Some (E_QOVR, completed ''twai-sem'' E_QOVR ''delay-queue-enqueue-failed'' s)
         else let s = tcb_say c (\<lambda>t. [''[twai-sem] state transition: current'']
                        @ itron_api_log_task_id_name t
                        @ ['' RUNNING->WAITING reason=semaphore-timeout\<newline>'']) s;
                  s = delay_queue_dump s
              in wait_switch env ''twai-sem'' ''timeout-wait-switch-failed''
                   ''timeout-wait-switch-failed'' ''timeout-wait-queued-switch'' c s)"

definition twai_sem_block ::
  "'a pending_module_scheme kernel_env \<Rightarrow> int \<Rightarrow> u32 \<Rightarrow> nat \<Rightarrow> 'a pending_module_scheme \<Rightarrow>
   (int \<times> 'a pending_module_scheme) option" where
  "twai_sem_block env sem_id timeout_ticks c s =
     (let sem_queue_result = sem_can_enqueue_waiter sem_id (tid (tcb_at c s)) s
      in if sem_queue_result \<noteq> SEM_OK
         then if sem_queue_result = SEM_ERR_OVERFLOW
              then let s = tcb_say c (\<lambda>t. [''[sem-wq] enqueue failed: reason=full sem id='', mag_str sem_id,
                              '' task id='', mag_str (tid t),
                              '' name='', name_or ''(null)'' (tname t), ''\<newline>'']) s
                   in Some (E_ID, completed ''twai-sem'' E_ID ''sem-wait-queue-full'' s)
              else Some (E_ID, completed ''twai-sem'' E_ID ''sem-wait-queue-invalid'' s)
         else let delay_queue_result = delay_queue_can_enqueue (tid (tcb_at c s)) s
         in if delay_queue_result \<noteq> DELAY_QUEUE_OK
         then Some (E_QOVR, log_delay_queue_refusal ''twai-sem'' delay_queue_result c timeout_ticks s)
         else twai_sem_wait env sem_id timeout_ticks c s)"

definition twai_sem ::
  "'a pending_module_scheme kernel_env \<Rightarrow> int \<Rightarrow> u32 \<Rightarrow> 'a pending_module_scheme \<Rightarrow>
   (int \<times> 'a pending_module_scheme) option" where
  "twai_sem env sem_id timeout_ticks s =
     (case dispatcher_get_current s of
        None \<Rightarrow>
          (let s = say (\<lambda>s. [''[twai-sem] called: sem id='', mag_str sem_id,
                 '' timeout_ticks='', u32_str timeout_ticks, '' current=none\<newline>'',
                 ''[twai-sem] rejected: reason=invalid-current-state current=none\<newline>'']) s
           in Some (E_CTX, completed ''twai-sem'' E_CTX ''invalid-current-state'' s))
      | Some c \<Rightarrow>
          (let s = tcb_say c (\<lambda>t. [''[twai-sem] called: sem id='', mag_str sem_id,
                     '' timeout_ticks='', u32_str timeout_ticks, '' current'']
                     @ itron_api_log_task_identity t @ [''\<newline>'']) s
           in if timeout_ticks = 0
              then let s = say (\<lambda>s. [''[twai-sem] invalid timeout: timeout_ticks=0\<newline>'']) s
                   in Some (E_PAR, completed ''twai-sem'' E_PAR ''invalid-timeout'' s)
              else if tstate (tcb_at c s) \<noteq> TASK_STATE_RUNNING
              then let s = tcb_say c (\<lambda>t. [''[twai-sem] rejected: reason=invalid-current-state current'']
                              @ itron_api_log_task_identity t @ [''\<newline>'']) s
                   in Some (E_CTX, completed ''twai-sem'' E_CTX ''invalid-current-state'' s)
              else if sem_get_by_id sem_id s = None
              then let s = say (\<lambda>s. [''[twai-sem] rejected: reason=invalid-semaphore sem id='',
                                    mag_str sem_id, ''\<newline>'']) s
                   in Some (E_ID, completed ''twai-sem'' E_ID ''invalid-semaphore'' s)
              else let ((take_result, before, after), s) = sem_take_if_available sem_id s;
                       count_after = (case after of None \<Rightarrow> 0 | Some v \<Rightarrow> v)
              in if take_result = SEM_OK
              then let s = say (\<lambda>s. [''[twai-sem] acquired immediately: sem id='', mag_str sem_id,
                                    '' count='', mag_str count_after, ''\<newline>'']) s
                   in Some (E_OK, completed ''twai-sem'' E_OK ''acquired'' s)
              else if take_result \<noteq> SEM_WAIT_REQUIRED
              then let s = say (\<lambda>s. [''[twai-sem] rejected: reason=semaphore-error err='',
                                    mag_str take_result, ''\<newline>'']) s
                   in Some (E_ID, completed ''twai-sem'' E_ID ''semaphore-error'' s)
              else twai_sem_block env sem_id timeout_ticks c s))"

subsection \<open>\<open>dly_tsk\<close>\<close>

definition dly_tsk_wait ::
  "'a pending_module_scheme kernel_env \<Rightarrow> u32 \<Rightarrow> nat \<Rightarrow> 'a pending_module_scheme \<Rightarrow>
   (int \<times> 'a pending_module_scheme) option" where
  "dly_tsk_wait env delay_ticks c s =
     (let (wait_result, s) = task_mark_waiting_on_delay (tid (tcb_at c s)) delay_ticks s
      in if wait_result \<noteq> 0
         then let s = say (\<lambda>s. [''[dly-tsk] rejected: reason=delay-transition-failed err='',
                               mag_str wait_result, ''\<newline>'']) s
              in Some (E_OBJ, completed ''dly-tsk'' E_OBJ ''delay-transition-failed'' s)
         else let s = tcb_say c (\<lambda>t. [''[dly-tsk] state transition: current'']
                        @ itron_api_log_task_id_name t @ ['' RUNNING->WAITING reason=delay\<newline>'']) s;
                  (delay_queue_result, s) = delay_queue_enqueue (tid (tcb_at c s)) delay_ticks s
         in if delay_queue_result \<noteq> DELAY_QUEUE_OK
         then Some (E_OBJ, completed ''dly-tsk'' E_OBJ ''delay-queue-enqueue-failed'' s)
         else let s = delay_queue_dump s
              in wait_switch env ''dly-tsk'' ''delay-switch-failed'' ''delay-switch-failed''
                   ''delay-queued-switch'' c s)"

definition dly_tsk ::
  "'a pending_module_scheme kernel_env \<Rightarrow> u32 \<Rightarrow> 'a pending_module_scheme \<Rightarrow>
   (int \<times> 'a pending_module_scheme) option" where
  "dly_tsk env delay_ticks s =
     (case dispatcher_get_current s of
        None \<Rightarrow>
          (let s = say (\<lambda>s. [''[dly-tsk] called: delay_ticks='', u32_str delay_ticks, '' current=none\<newline>'',
                 ''[dly-tsk] rejected: reason=invalid-current-state current=none\<newline>'']) s
           in Some (E_CTX, completed ''dly-tsk'' E_CTX ''invalid-current-state'' s))
      | Some c \<Rightarrow>
          (let s = tcb_say c (\<lambda>t. [''[dly-tsk] called: delay_ticks='', u32_str delay_ticks, '' current'']
                     @ itron_api_log_task_identity t @ [''\<newline>'']) s
           in if delay_ticks = 0
              then let s = say (\<lambda>s. [''[dly-tsk] invalid delay: delay_ticks=0\<newline>'']) s
                   in Some (E_PAR, completed ''dly-tsk'' E_PAR ''invalid-delay'' s)
              else if tstate (tcb_at c s) \<noteq> TASK_STATE_RUNNING
              then let s = tcb_say c (\<lambda>t. [''[dly-tsk] rejected: reason=invalid-current-state current'']
                              @ itron_api_log_task_identity t @ [''\<newline>'']) s
                   in Some (E_CTX, completed ''dly-tsk'' E_CTX ''invalid-current-state'' s)
              else let delay_queue_result = delay_queue_can_enqueue (tid (tcb_at c s)) s
              in if delay_queue_result \<noteq> DELAY_QUEUE_OK
              then Some (E_QOVR, log_delay_queue_refusal ''dly-tsk'' delay_queue_result c delay_ticks s)
              else dly_tsk_wait env delay_ticks c s))"

end
