(* ===== verification/Wait_Links.thy ===== *)
theory Wait_Links
  imports Timer
begin

section \<open>Tasks, wait queues and the delay queue agree\<close>

text \<open>
  The same wait is recorded in up to three places: the wait metadata of the TCB, the wait queue
  of a semaphore, the delay queue. The invariant \<open>wait_inv\<close> says that they agree for every task
  id. It is stated id by id (\<open>link_ok\<close>), so that an operation on one task only has to restore the
  link of that task. The theory then proves it for each of the changes the kernel makes: a
  task begins or ends one of the four kinds of wait, or changes its state without waiting.
\<close>

subsection \<open>What the three records say of a task id\<close>

definition tcb_of :: "int \<Rightarrow> tcb_t list \<Rightarrow> tcb_t option" where
  "tcb_of k tt = map_option (\<lambda>i. tt ! i) (lookup_tcb k tt)"

definition sem_wait :: "tcb_t \<Rightarrow> int option" where
  "sem_wait t = (if sem_reason (wait_reason t) then Some (wait_sem_id t) else None)"

definition timed_wait :: "tcb_t \<Rightarrow> u32 option" where
  "timed_wait t = (if timed_reason (wait_reason t) then Some (delay_ticks_remaining t) else None)"

definition wait_of :: "int \<Rightarrow> tcb_t list \<Rightarrow> int option" where
  "wait_of k tt = Option.bind (tcb_of k tt) sem_wait"

definition delay_of :: "int \<Rightarrow> tcb_t list \<Rightarrow> u32 option" where
  "delay_of k tt = Option.bind (tcb_of k tt) timed_wait"

definition queue_of :: "int \<Rightarrow> semaphore_t list \<Rightarrow> int list" where
  "queue_of m st = (case lookup_sem m st of None \<Rightarrow> [] | Some i \<Rightarrow> waiters (st ! i))"

definition link_ok :: "int \<Rightarrow> 'a delay_module_scheme \<Rightarrow> bool" where
  "link_ok k s \<longleftrightarrow>
     (\<forall>m. k \<in> set (queue_of m (semaphore_table s)) \<longleftrightarrow> wait_of k (task_table s) = Some m) \<and>
     (\<forall>d. (k, d) \<in> set (dq_items s) \<longleftrightarrow> delay_of k (task_table s) = Some d)"

definition wait_inv :: "'a delay_module_scheme \<Rightarrow> bool" where
  "wait_inv s \<longleftrightarrow> tasks_inv s \<and> sems_inv s \<and> dq_ok s \<and> (\<forall>k. link_ok k s)"

lemma wait_invD:
  assumes "wait_inv s"
  shows "tasks_inv s" and "sems_inv s" and "dq_ok s" and "link_ok k s"
  using assms by (auto simp: wait_inv_def)

lemma link_ok_say [simp]: "link_ok k (say f s) = link_ok k s"
  by (simp add: link_ok_def)

lemma wait_inv_say [simp]: "wait_inv (say f s) = wait_inv s"
  by (simp add: wait_inv_def)

subsection \<open>Updates\<close>

lemma tcb_of_update:
  assumes "lookup_tcb h tt = Some i" and "tid t = h" and "tcb_used t"
  shows "tcb_of k (tt[i := t]) = (if k = h then Some t else tcb_of k tt)"
proof -
  note i = tasks.lookup_SomeD[OF assms(1)]
  have same: "lookup_tcb k (tt[i := t]) = lookup_tcb k tt"
    using i assms by (intro tasks.lookup_update_same) simp_all
  show ?thesis
  proof (cases "k = h")
    case True
    with same assms i show ?thesis by (simp add: tcb_of_def)
  next
    case False
    then have "lookup_tcb k tt \<noteq> Some i" using i tasks.lookup_SomeD(3)[of k tt i] by auto
    with False same show ?thesis by (cases "lookup_tcb k tt") (auto simp: tcb_of_def)
  qed
qed

lemma queue_of_update:
  assumes "lookup_sem h st = Some i" and "sem_ident sem = h"
  shows "queue_of m (st[i := sem]) = (if m = h then waiters sem else queue_of m st)"
proof -
  note i = sems.lookup_SomeD[OF assms(1)]
  have same: "lookup_sem m (st[i := sem]) = lookup_sem m st"
    using i assms by (intro sems.lookup_update_same) (simp_all add: sem_used_def)
  show ?thesis
  proof (cases "m = h")
    case True
    with same assms i show ?thesis by (simp add: queue_of_def)
  next
    case False
    then have "lookup_sem m st \<noteq> Some i" using i sems.lookup_SomeD(3)[of m st i] by auto
    with False same show ?thesis by (auto simp: queue_of_def split: option.split)
  qed
qed

lemma queue_of_find:
  "find_semaphore_by_id m s = Some i \<Longrightarrow> queue_of m (semaphore_table s) = waiters (sem_at i s)"
  by (simp add: queue_of_def find_semaphore_by_id_def sem_at_def)

text \<open>Only the link of the task that changed has to be shown again.\<close>

lemma wait_inv_change:
  assumes "wait_inv s" and "tasks_inv s'" and "sems_inv s'" and "dq_ok s'" and "link_ok h s'"
    and "\<And>k. k \<noteq> h \<Longrightarrow> tcb_of k (task_table s') = tcb_of k (task_table s)"
    and "\<And>k m. k \<noteq> h \<Longrightarrow> k \<in> set (queue_of m (semaphore_table s')) \<longleftrightarrow> k \<in> set (queue_of m (semaphore_table s))"
    and "\<And>k d. k \<noteq> h \<Longrightarrow> (k, d) \<in> set (dq_items s') \<longleftrightarrow> (k, d) \<in> set (dq_items s)"
  shows "wait_inv s'"
proof -
  have "link_ok k s'" for k
  proof (cases "k = h")
    case True
    with assms(5) show ?thesis by simp
  next
    case False
    with assms(6-8)[of k] wait_invD(4)[OF assms(1), of k] show ?thesis
      by (simp add: link_ok_def wait_of_def delay_of_def)
  qed
  with assms(2-4) show ?thesis by (simp add: wait_inv_def)
qed

subsection \<open>Facts of one task\<close>

lemma wait_of_lookup:
  "lookup_tcb h tt = Some i \<Longrightarrow> wait_of h tt = sem_wait (tt ! i)"
  "lookup_tcb h tt = Some i \<Longrightarrow> delay_of h tt = timed_wait (tt ! i)"
  by (simp_all add: wait_of_def delay_of_def tcb_of_def)

lemma wait_of_SomeD: "wait_of k tt = Some m \<Longrightarrow> lookup_tcb k tt \<noteq> None"
  by (cases "lookup_tcb k tt") (simp_all add: wait_of_def tcb_of_def)

lemma delay_of_SomeD: "delay_of k tt = Some d \<Longrightarrow> lookup_tcb k tt \<noteq> None"
  by (cases "lookup_tcb k tt") (simp_all add: delay_of_def tcb_of_def)

lemma wait_inv_data:
  "wait_inv s \<Longrightarrow> lookup_tcb h (task_table s) = Some i \<Longrightarrow> wait_data_ok (task_table s ! i)"
  using tasks.lookup_SomeD(1)[of h "task_table s" i]
  by (auto simp: wait_inv_def tasks_inv_def tasks_ok_def)

text \<open>A task that is not WAITING is in no queue.\<close>

lemma not_waiting_no_wait:
  assumes "wait_inv s" and "lookup_tcb h (task_table s) = Some i"
    and "tstate (task_table s ! i) \<noteq> TASK_STATE_WAITING"
  shows "wait_of h (task_table s) = None" and "delay_of h (task_table s) = None"
    and "h \<notin> set (queue_of m (semaphore_table s))" and "h \<notin> fst ` set (dq_items s)"
proof -
  have "wait_reason (task_table s ! i) = TASK_WAIT_REASON_NONE"
    using wait_inv_data[OF assms(1,2)] assms(3) by (simp add: wait_data_ok_def)
  then show none: "wait_of h (task_table s) = None" "delay_of h (task_table s) = None"
    using assms(2) by (simp_all add: wait_of_lookup sem_wait_def timed_wait_def sem_reason_def timed_reason_def)
  with wait_invD(4)[OF assms(1), of h]
  show "h \<notin> set (queue_of m (semaphore_table s))" and "h \<notin> fst ` set (dq_items s)"
    by (auto simp: link_ok_def)
qed

subsection \<open>Capacity: the queues have room for every task\<close>

text \<open>
  The ids in a queue are ids of tasks other than one that is not queued, so there are fewer of
  them than slots.
\<close>

lemma ids_below_capacity:
  assumes "distinct ks" and "\<And>k. k \<in> set ks \<Longrightarrow> lookup_tcb k tt \<noteq> None" and "length tt = MAX_TASKS"
    and "lookup_tcb h tt = Some i" and "h \<notin> set ks"
  shows "length ks < MAX_TASKS"
proof -
  let ?slot = "\<lambda>k. the (lookup_tcb k tt)"
  have slot: "?slot k < MAX_TASKS" "tid (tt ! ?slot k) = k" if "k \<in> set (h # ks)" for k
    using that assms(2-4) tasks.lookup_SomeD[of k tt "?slot k"] by force+
  have "inj_on ?slot (set (h # ks))" by (rule inj_on_inverseI[where g = "\<lambda>i. tid (tt ! i)"]) (rule slot(2))
  moreover have "?slot ` set (h # ks) \<subseteq> {..<MAX_TASKS}" using slot(1) by auto
  ultimately have "card (set (h # ks)) \<le> MAX_TASKS"
    by (metis card_inj_on_le card_lessThan finite_lessThan)
  with assms(1,5) show ?thesis by (simp add: distinct_card)
qed

lemma wait_queue_has_room:
  assumes "wait_inv s" and "find_semaphore_by_id m s = Some j"
    and "lookup_tcb h (task_table s) = Some i" and "h \<notin> set (waiters (sem_at j s))"
  shows "wait_count (sem_at j s) < MAX_TASKS"
proof -
  have "lookup_tcb k (task_table s) \<noteq> None" if "k \<in> set (waiters (sem_at j s))" for k
    using that wait_invD(4)[OF assms(1), of k] queue_of_find[OF assms(2)] wait_of_SomeD[of k]
    by (metis link_ok_def)
  moreover have "distinct (waiters (sem_at j s))"
    using sems_inv_sem_ok[OF wait_invD(2)[OF assms(1)] assms(2)] by (simp add: sem_ok_def)
  ultimately show ?thesis
    using ids_below_capacity[OF _ _ _ assms(3,4)] wait_invD(1)[OF assms(1)]
    by (simp add: tasks_inv_def tasks_ok_def)
qed

lemma delay_queue_has_room:
  assumes "wait_inv s" and "lookup_tcb h (task_table s) = Some i" and "h \<notin> fst ` set (dq_items s)"
  shows "delay_queue_count s < MAX_TASKS"
proof -
  have "lookup_tcb k (task_table s) \<noteq> None" if "k \<in> set (map fst (dq_items s))" for k
    using that wait_invD(4)[OF assms(1), of k] delay_of_SomeD[of k]
    by (fastforce simp: link_ok_def)
  then have "length (map fst (dq_items s)) < MAX_TASKS"
    using assms(3) wait_invD(1,3)[OF assms(1)]
    by (intro ids_below_capacity[OF _ _ _ assms(2)]) (auto simp: tasks_inv_def tasks_ok_def dq_ok_def)
  then show ?thesis using wait_invD(3)[OF assms(1)] by (simp add: length_dq_items)
qed

subsection \<open>The changes the kernel makes\<close>

text \<open>
  One TCB changes, and the queues change for its id only. The conditions name the components of
  the new state, so that they apply whatever log lines lie between the updates.
\<close>

lemma wait_inv_step:
  assumes "wait_inv s" and "lookup_tcb h (task_table s) = Some i"
    and "task_table s' = (task_table s)[i := t]" and "next_task_id s' = next_task_id s"
    and "tid t = h" and "tcb_used t" and "wait_data_ok t"
    and "sems_ok (semaphore_table s') (next_sem_id s')" and "dq_ok s'"
    and "\<And>k m. k \<noteq> h \<Longrightarrow> k \<in> set (queue_of m (semaphore_table s')) \<longleftrightarrow> k \<in> set (queue_of m (semaphore_table s))"
    and "\<And>k d. k \<noteq> h \<Longrightarrow> (k, d) \<in> set (dq_items s') \<longleftrightarrow> (k, d) \<in> set (dq_items s)"
    and "\<And>m. h \<in> set (queue_of m (semaphore_table s')) \<longleftrightarrow> sem_wait t = Some m"
    and "\<And>d. (h, d) \<in> set (dq_items s') \<longleftrightarrow> timed_wait t = Some d"
  shows "wait_inv s'"
proof (rule wait_inv_change[OF assms(1)])
  note i = tasks.lookup_SomeD[OF assms(2)]
  have tcb: "tcb_of k (task_table s') = (if k = h then Some t else tcb_of k (task_table s))" for k
    unfolding assms(3) using assms(2,5,6) by (rule tcb_of_update)
  show "tasks_inv s'"
    using assms(3-7) i wait_invD(1)[OF assms(1)] by (simp add: tasks_inv_def tasks_ok_update)
  show "sems_inv s'" using assms(8) by (simp add: sems_inv_def)
  show "dq_ok s'" by (fact assms(9))
  show "link_ok h s'" using assms(12,13) by (simp add: link_ok_def wait_of_def delay_of_def tcb)
  show "tcb_of k (task_table s') = tcb_of k (task_table s)" if "k \<noteq> h" for k
    using that by (simp add: tcb)
qed (use assms(10,11) in simp_all)

lemma wait_inv_sems_ok: "wait_inv s \<Longrightarrow> sems_ok (semaphore_table s) (next_sem_id s)"
  using wait_invD(2)[of s] by (simp add: sems_inv_def)

text \<open>A state change between states without a queue: start, dispatch, sleep and its wakeup, end.\<close>

lemma wait_inv_no_queue:
  assumes "wait_inv s" and "lookup_tcb h (task_table s) = Some i"
    and "sem_wait (task_table s ! i) = None" and "timed_wait (task_table s ! i) = None"
    and "task_table s' = (task_table s)[i := tcb_enter st m r d (task_table s ! i)]"
    and "next_task_id s' = next_task_id s"
    and "semaphore_table s' = semaphore_table s" and "next_sem_id s' = next_sem_id s"
    and "dq_items s' = dq_items s" and "dq_ok s' = dq_ok s"
    and "st \<noteq> TASK_STATE_UNUSED" and "\<not> sem_reason r" and "\<not> timed_reason r"
    and "wait_data_ok (tcb_enter st m r d (task_table s ! i))"
  shows "wait_inv s'"
proof (rule wait_inv_step[OF assms(1,2,5,6)])
  have "wait_of h (task_table s) = None" and "delay_of h (task_table s) = None"
    using assms(2-4) by (simp_all add: wait_of_lookup)
  then show "\<And>m'. h \<in> set (queue_of m' (semaphore_table s')) \<longleftrightarrow> sem_wait (tcb_enter st m r d (task_table s ! i)) = Some m'"
    and "\<And>d'. (h, d') \<in> set (dq_items s') \<longleftrightarrow> timed_wait (tcb_enter st m r d (task_table s ! i)) = Some d'"
    using wait_invD(4)[OF assms(1), of h] assms(7,9,12,13)
    by (simp_all add: link_ok_def sem_wait_def timed_wait_def)
  show "tid (tcb_enter st m r d (task_table s ! i)) = h"
    using tasks.lookup_SomeD(3)[OF assms(2)] by simp
  show "tcb_used (tcb_enter st m r d (task_table s ! i))" using assms(11) by simp
  show "sems_ok (semaphore_table s') (next_sem_id s')" using assms(7,8) wait_inv_sems_ok[OF assms(1)] by simp
  show "dq_ok s'" using assms(10) wait_invD(3)[OF assms(1)] by simp
qed (use assms(7,9,14) in simp_all)

text \<open>A running task begins to wait for a semaphore, with or without a time limit.\<close>

lemma wait_inv_wait_sem:
  assumes inv: "wait_inv s" and h: "lookup_tcb h (task_table s) = Some i"
    and st: "tstate (task_table s ! i) \<noteq> TASK_STATE_WAITING"
    and m: "find_semaphore_by_id m s = Some j" and count: "sem_count (sem_at j s) = 0"
    and tt: "task_table s' = (task_table s)[i := tcb_enter TASK_STATE_WAITING m r d (task_table s ! i)]"
    and frame: "next_task_id s' = next_task_id s" "next_sem_id s' = next_sem_id s"
    and sems: "semaphore_table s' = (semaphore_table s)[j := ring_put h (semaphore_table s ! j)]"
    and dq: "dq_ok s'" "if r = TASK_WAIT_REASON_SEMAPHORE_TIMEOUT then dq_items s' = dq_items s @ [(h, d)] \<and> d \<noteq> 0
             else r = TASK_WAIT_REASON_SEMAPHORE \<and> d = 0 \<and> dq_items s' = dq_items s"
  shows "wait_inv s'"
proof (rule wait_inv_step[OF inv h tt frame(1)])
  let ?t = "tcb_enter TASK_STATE_WAITING m r d (task_table s ! i)"
  note sem = find_semaphore_SomeD[OF m]
  note none = not_waiting_no_wait[OF inv h st]
  have j: "lookup_sem m (semaphore_table s) = Some j" using m by (simp add: find_semaphore_by_id_def)
  have notin: "h \<notin> set (waiters (sem_at j s))" using none(3)[of m] queue_of_find[OF m] by simp
  have room: "wait_count (sem_at j s) < MAX_TASKS" by (rule wait_queue_has_room[OF inv m h notin])
  have ok: "sem_ok (sem_at j s)" by (rule sems_inv_sem_ok[OF wait_invD(2)[OF inv] m])
  have q: "queue_of m' (semaphore_table s')
      = (if m' = m then queue_of m (semaphore_table s) @ [h] else queue_of m' (semaphore_table s))" for m'
    using sem ok room queue_of_find[OF m]
    by (simp add: sems queue_of_update[OF j] sem_at_def ring_put_waiters sem_ok_def)
  show "sems_ok (semaphore_table s') (next_sem_id s')"
    unfolding sems frame(2) using wait_inv_sems_ok[OF inv] sem sem_ok_put[OF ok notin room count]
    by (intro sems_ok_update) (simp_all add: sem_at_def)
  show "tid ?t = h" using tasks.lookup_SomeD(3)[OF h] by simp
  show "wait_data_ok ?t" using sem(4) dq(2) by (auto split: if_splits)
  show "h \<in> set (queue_of m' (semaphore_table s')) \<longleftrightarrow> sem_wait ?t = Some m'" for m'
    using none(3) dq(2) by (auto simp: q sem_wait_def sem_reason_def split: if_splits)
  show "(h, d') \<in> set (dq_items s') \<longleftrightarrow> timed_wait ?t = Some d'" for d'
    using none(4) dq(2) by (force simp: timed_wait_def timed_reason_def split: if_splits)
  show "k \<in> set (queue_of m' (semaphore_table s')) \<longleftrightarrow> k \<in> set (queue_of m' (semaphore_table s))" if "k \<noteq> h" for k m'
    using that by (simp add: q)
  show "(k, d') \<in> set (dq_items s') \<longleftrightarrow> (k, d') \<in> set (dq_items s)" if "k \<noteq> h" for k d'
    using that dq(2) by (auto split: if_splits)
qed (use dq in simp_all)

text \<open>A running task begins a delay.\<close>

lemma wait_inv_wait_delay:
  assumes inv: "wait_inv s" and h: "lookup_tcb h (task_table s) = Some i"
    and st: "tstate (task_table s ! i) \<noteq> TASK_STATE_WAITING" and d: "d \<noteq> 0"
    and tt: "task_table s' = (task_table s)[i := tcb_enter TASK_STATE_WAITING 0 TASK_WAIT_REASON_DELAY d (task_table s ! i)]"
    and frame: "next_task_id s' = next_task_id s" "next_sem_id s' = next_sem_id s"
      "semaphore_table s' = semaphore_table s"
    and dq: "dq_ok s'" "dq_items s' = dq_items s @ [(h, d)]"
  shows "wait_inv s'"
proof (rule wait_inv_step[OF inv h tt frame(1)])
  let ?t = "tcb_enter TASK_STATE_WAITING 0 TASK_WAIT_REASON_DELAY d (task_table s ! i)"
  note none = not_waiting_no_wait[OF inv h st]
  show "tid ?t = h" using tasks.lookup_SomeD(3)[OF h] by simp
  show "wait_data_ok ?t" using d by simp
  show "sems_ok (semaphore_table s') (next_sem_id s')" using frame wait_inv_sems_ok[OF inv] by simp
  show "h \<in> set (queue_of m (semaphore_table s')) \<longleftrightarrow> sem_wait ?t = Some m" for m
    using none(3) frame by (simp add: sem_wait_def sem_reason_def)
  show "(h, d') \<in> set (dq_items s') \<longleftrightarrow> timed_wait ?t = Some d'" for d'
    using none(4) dq(2) by (force simp: timed_wait_def timed_reason_def)
qed (use frame dq in auto)

text \<open>
  A task ends its wait: its id leaves the queue of its semaphore, if it waits for one, and the
  delay queue, if its wait has a time limit.
\<close>

lemma wait_inv_wake:
  assumes inv: "wait_inv s" and h: "lookup_tcb h (task_table s) = Some i"
    and tt: "task_table s' = (task_table s)[i := tcb_enter TASK_STATE_READY 0 TASK_WAIT_REASON_NONE 0 (task_table s ! i)]"
    and frame: "next_task_id s' = next_task_id s"
    and sems: "sems_ok (semaphore_table s') (next_sem_id s')"
      "\<And>m. set (queue_of m (semaphore_table s')) = set (queue_of m (semaphore_table s)) - {h}"
    and dq: "dq_ok s'" "set (dq_items s') = {p \<in> set (dq_items s). fst p \<noteq> h}"
  shows "wait_inv s'"
proof (rule wait_inv_step[OF inv h tt frame])
  show "tid (tcb_enter TASK_STATE_READY 0 TASK_WAIT_REASON_NONE 0 (task_table s ! i)) = h"
    using tasks.lookup_SomeD(3)[OF h] by simp
qed (use sems dq in \<open>auto simp: sem_wait_def timed_wait_def sem_reason_def timed_reason_def\<close>)

end
