(* ===== verification/Tick.thy ===== *)
theory Tick
  imports Wait_Links
begin

section \<open>What one tick does\<close>

text \<open>
  The tick of the delay queue visits the entries one by one and removes entries while it goes.
  This theory shows that it is one simultaneous step: every timed wait loses a tick, and the
  waits at their last tick end. \<open>tick_tcb\<close>, \<open>tick_items\<close> and \<open>expired_ids\<close> are that
  specification; \<open>delay_queue_tick_spec\<close> is the refinement.
\<close>

subsection \<open>The specification\<close>

definition tick_tcb :: "tcb_t \<Rightarrow> tcb_t" where
  "tick_tcb t =
     (if \<not> timed_reason (wait_reason t) then t
      else if delay_ticks_remaining t = 1 then tcb_enter TASK_STATE_READY 0 TASK_WAIT_REASON_NONE 0 t
      else t\<lparr>delay_ticks_remaining := delay_ticks_remaining t - 1\<rparr>)"

definition tick_items :: "(int \<times> u32) list \<Rightarrow> (int \<times> u32) list" where
  "tick_items ps = map (\<lambda>(k, d). (k, d - 1)) (filter (\<lambda>(k, d). d \<noteq> 1) ps)"

definition expired_ids :: "(int \<times> u32) list \<Rightarrow> int list" where
  "expired_ids ps = map fst (filter (\<lambda>(k, d). d = 1) ps)"

lemma tick_items_simps [simp]:
  "tick_items [] = []"
  "tick_items ((k, d) # ps) = (if d = 1 then tick_items ps else (k, d - 1) # tick_items ps)"
  by (simp_all add: tick_items_def)

lemma expired_ids_simps [simp]:
  "expired_ids [] = []"
  "expired_ids ((k, d) # ps) = (if d = 1 then k # expired_ids ps else expired_ids ps)"
  by (simp_all add: expired_ids_def)

subsection \<open>The steps of one iteration\<close>

lemma semaphore_find_set_dq [simp]:
  "find_semaphore_by_id m (set_dq i e s) = find_semaphore_by_id m s"
  by (simp add: find_semaphore_by_id_def)

lemma dq_at_set_dq: "i < length (delay_queue_entries s) \<Longrightarrow> dq_at i (set_dq i e s) = e"
  by (simp add: dq_at_def set_dq_def)

lemma dq_items_set_dq: "dq_items (set_dq i e s) = (dq_items s)[i := dq_pair e]"
  by (simp add: dq_items_def set_dq_def take_update_swap map_update)

lemma dq_ok_set_dq:
  assumes "dq_ok s" and "i < delay_queue_count s" and "dq_task_id e = dq_task_id (dq_at i s)"
  shows "dq_ok (set_dq i e s)"
proof -
  have "map fst (dq_items (set_dq i e s)) = (map fst (dq_items s))[i := fst (dq_pair e)]"
    by (simp add: dq_items_set_dq map_update)
  also have "fst (dq_pair e) = map fst (dq_items s) ! i"
    using assms dq_items_nth[OF assms(1,2)] length_dq_items[OF assms(1)] by (simp add: dq_pair_def)
  finally have "map fst (dq_items (set_dq i e s)) = map fst (dq_items s)" by simp
  with assms(1) show ?thesis by (simp add: dq_ok_def set_dq_def)
qed

text \<open>The countdown of an entry whose task exists.\<close>

lemma tick_down_task:
  "task_table (delay_queue_tick_down index k (Some i) r b a s)
     = (task_table s)[i := (task_table s ! i)\<lparr>delay_ticks_remaining := a\<rparr>]"
  "next_task_id (delay_queue_tick_down index k (Some i) r b a s) = next_task_id s"
  "semaphore_table (delay_queue_tick_down index k (Some i) r b a s) = semaphore_table s"
  "next_sem_id (delay_queue_tick_down index k (Some i) r b a s) = next_sem_id s"
  "delay_queue_entries (delay_queue_tick_down index k (Some i) r b a s)
     = delay_queue_entries (set_dq index (dq_at index s\<lparr>dq_remaining := a\<rparr>) s)"
  by (simp_all add: delay_queue_tick_down_def Let_def task_table_upd_tcb)

lemma dq_items_tick_down:
  "dq_items (delay_queue_tick_down index k (Some i) r b a s) = (dq_items s)[index := (dq_task_id (dq_at index s), a)]"
  using dq_items_set_dq[of index "dq_at index s\<lparr>dq_remaining := a\<rparr>" s]
  by (simp add: dq_items_def tick_down_task(5) dq_pair_def)

lemma dq_ok_tick_down:
  assumes "dq_ok s" and "index < delay_queue_count s"
  shows "dq_ok (delay_queue_tick_down index k (Some i) r b a s)"
  using dq_ok_set_dq[OF assms, of "dq_at index s\<lparr>dq_remaining := a\<rparr>"]
  by (simp add: dq_ok_def dq_items_def tick_down_task(5))

text \<open>An expired delay.\<close>

lemma expire_delay:
  assumes "lookup_tcb k (task_table s) = Some i" and "tstate (task_table s ! i) = TASK_STATE_WAITING"
    and "wait_reason (task_table s ! i) = TASK_WAIT_REASON_DELAY"
  shows "task_table (delay_queue_expire (Some i) TASK_WAIT_REASON_DELAY eid s)
      = (task_table s)[i := tcb_enter TASK_STATE_READY 0 TASK_WAIT_REASON_NONE 0 (task_table s ! i)]"
    and "next_task_id (delay_queue_expire (Some i) TASK_WAIT_REASON_DELAY eid s) = next_task_id s"
    and "semaphore_table (delay_queue_expire (Some i) TASK_WAIT_REASON_DELAY eid s) = semaphore_table s"
    and "next_sem_id (delay_queue_expire (Some i) TASK_WAIT_REASON_DELAY eid s) = next_sem_id s"
  using assms tasks.lookup_SomeD[OF assms(1)]
  by (simp_all add: delay_queue_expire_def task_wake_waiting_on_delay_by_id_def task_get_mutable_by_id_def
      tcb_at_def task_table_upd_tcb Let_def)

lemma dq_expire [simp]:
  "dq_items (delay_queue_expire t r k s) = dq_items s" "dq_ok (delay_queue_expire t r k s) = dq_ok s"
  by (simp_all add: dq_items_def dq_ok_def)

text \<open>A removal of a queued waiter succeeds.\<close>

lemma sem_remove_waiter_queued:
  assumes "find_semaphore_by_id m s = Some j" and "0 < k" and "k \<in> set (waiters (sem_at j s))"
  obtains s' where "sem_remove_waiter m k s = (SEM_OK, s')"
    and "task_table s' = task_table s" and "next_task_id s' = next_task_id s"
    and "semaphore_table s' = (semaphore_table s)[j := ring_rebuild (remove1 k (waiters (sem_at j s))) (sem_at j s)]"
    and "next_sem_id s' = next_sem_id s"
proof -
  have "wait_count (sem_at j s) \<noteq> 0" using assms(3) by (intro notI) (simp add: waiters_def)
  with assms that show thesis
    by (auto simp: sem_remove_waiter_def ring_keep_waiters Let_def semaphore_table_upd_sem sem_at_def)
qed

text \<open>An expired semaphore wait leaves the semaphore's queue and becomes READY.\<close>

lemma expire_sem_timeout:
  assumes k: "lookup_tcb k (task_table s) = Some i" and st: "tstate (task_table s ! i) = TASK_STATE_WAITING"
    and r: "wait_reason (task_table s ! i) = TASK_WAIT_REASON_SEMAPHORE_TIMEOUT"
    and m: "wait_sem_id (task_table s ! i) = m" "find_semaphore_by_id m s = Some j"
    and q: "k \<in> set (waiters (sem_at j s))"
  shows "task_table (delay_queue_expire (Some i) TASK_WAIT_REASON_SEMAPHORE_TIMEOUT eid s)
      = (task_table s)[i := tcb_enter TASK_STATE_READY 0 TASK_WAIT_REASON_NONE 0 (task_table s ! i)]"
    and "next_task_id (delay_queue_expire (Some i) TASK_WAIT_REASON_SEMAPHORE_TIMEOUT eid s) = next_task_id s"
    and "semaphore_table (delay_queue_expire (Some i) TASK_WAIT_REASON_SEMAPHORE_TIMEOUT eid s)
      = (semaphore_table s)[j := ring_rebuild (remove1 k (waiters (sem_at j s))) (sem_at j s)]"
    and "next_sem_id (delay_queue_expire (Some i) TASK_WAIT_REASON_SEMAPHORE_TIMEOUT eid s) = next_sem_id s"
proof -
  note i = tasks.lookup_SomeD[OF k]
  obtain s' where s': "sem_remove_waiter m k s = (SEM_OK, s')"
    "task_table s' = task_table s" "next_task_id s' = next_task_id s"
    "semaphore_table s' = (semaphore_table s)[j := ring_rebuild (remove1 k (waiters (sem_at j s))) (sem_at j s)]"
    "next_sem_id s' = next_sem_id s"
    using sem_remove_waiter_queued[OF m(2) i(4) q] by blast
  have at: "tcb_at i s' = task_table s ! i" "tcb_at i s = task_table s ! i"
    using s'(2) by (simp_all add: tcb_at_def)
  have m0: "0 < m" using find_semaphore_SomeD(4)[OF m(2)] .
  have "delay_queue_expire (Some i) TASK_WAIT_REASON_SEMAPHORE_TIMEOUT eid s
      = (let s = tcb_say i (\<lambda>t. [''[twai-sem] timeout: semid='', int_str (wait_sem_id t),
                   '' task id='', int_str (tid t), '' name='', name_or ''(null)'' (tname t), ''\<newline>'']) s';
             s = snd (task_wake_waiting_on_sem_timeout_by_id (tid (tcb_at i s)) (wait_sem_id (tcb_at i s)) s)
         in say (\<lambda>s. [''[twai-sem] completed: result=E_TMOUT action=timeout\<newline>'']) s)"
    using i m by (simp add: delay_queue_expire_def at s'(1))
  then show "task_table (delay_queue_expire (Some i) TASK_WAIT_REASON_SEMAPHORE_TIMEOUT eid s)
      = (task_table s)[i := tcb_enter TASK_STATE_READY 0 TASK_WAIT_REASON_NONE 0 (task_table s ! i)]"
    and "next_task_id (delay_queue_expire (Some i) TASK_WAIT_REASON_SEMAPHORE_TIMEOUT eid s) = next_task_id s"
    and "semaphore_table (delay_queue_expire (Some i) TASK_WAIT_REASON_SEMAPHORE_TIMEOUT eid s)
      = (semaphore_table s)[j := ring_rebuild (remove1 k (waiters (sem_at j s))) (sem_at j s)]"
    and "next_sem_id (delay_queue_expire (Some i) TASK_WAIT_REASON_SEMAPHORE_TIMEOUT eid s) = next_sem_id s"
    using i k st r m m0
    by (simp_all add: task_wake_waiting_on_sem_timeout_by_id_def task_get_mutable_by_id_def at s' Let_def
        task_table_upd_tcb)
qed

subsection \<open>One iteration keeps the invariant\<close>

text \<open>What the invariant says about the entry at \<open>index\<close>.\<close>

lemma entry_task:
  assumes "wait_inv s" and "index < delay_queue_count s" and "dq_items s ! index = (k, d)"
  obtains i where "lookup_tcb k (task_table s) = Some i"
    and "tstate (task_table s ! i) = TASK_STATE_WAITING" and "timed_reason (wait_reason (task_table s ! i))"
    and "delay_ticks_remaining (task_table s ! i) = d" and "d \<noteq> 0"
    and "dq_task_id (dq_at index s) = k" and "dq_remaining (dq_at index s) = d"
proof -
  have dq: "dq_ok s" by (rule wait_invD(3)[OF assms(1)])
  have pair: "dq_pair (dq_at index s) = (k, d)" using dq_items_nth[OF dq assms(2)] assms(3) by simp
  have "(k, d) \<in> set (dq_items s)"
    using assms(2,3) length_dq_items[OF dq] by (metis nth_mem)
  with wait_invD(4)[OF assms(1), of k] have d: "delay_of k (task_table s) = Some d" by (simp add: link_ok_def)
  then obtain i where i: "lookup_tcb k (task_table s) = Some i" using delay_of_SomeD by blast
  have tw: "timed_wait (task_table s ! i) = Some d" using d wait_of_lookup(2)[OF i] by simp
  have "wait_data_ok (task_table s ! i)" by (rule wait_inv_data[OF assms(1) i])
  with tw pair i that show thesis
    by (auto simp: timed_wait_def wait_data_ok_def dq_pair_def timed_reason_def split: if_splits)
qed

lemma distinct_fst_unique:
  "distinct (map fst ps) \<Longrightarrow> (k, d) \<in> set ps \<Longrightarrow> (k, d') \<in> set ps \<longleftrightarrow> d' = d"
  by (auto dest: eq_key_imp_eq_value)

lemma set_update_other:
  assumes "index < length ps" and "fst (ps ! index) = fst p" and "k \<noteq> fst p"
  shows "(k, c) \<in> set (ps[index := p]) \<longleftrightarrow> (k, c) \<in> set ps"
proof
  assume "(k, c) \<in> set (ps[index := p])"
  then show "(k, c) \<in> set ps" using assms(3) set_update_subset_insert[of ps index p] by auto
next
  assume "(k, c) \<in> set ps"
  then obtain j where j: "j < length ps" "ps ! j = (k, c)" by (auto simp: in_set_conv_nth)
  then have "j \<noteq> index" using assms(2,3) by auto
  then show "(k, c) \<in> set (ps[index := p])"
    using j nth_list_update_neq[of index j ps p] by (metis length_list_update nth_mem)
qed

text \<open>The values one iteration reads.\<close>

lemma tick_entry_unfold:
  assumes "lookup_tcb k (task_table s) = Some i" and "dq_task_id (dq_at index s) = k"
    and "dq_remaining (dq_at index s) = d" and "d \<noteq> 0"
  shows "delay_queue_tick_entry index e s =
    (let r = wait_reason (tcb_at i s);
         s = delay_queue_tick_down index k (Some i) r d (d - 1) s
     in if d \<noteq> 1 then (index + 1, e, s)
        else (index, e + 1, delay_queue_timeout index k (Some i) r s))"
proof -
  have "d > 0" and "d - 1 > 0 \<longleftrightarrow> d \<noteq> 1" using assms(4) by (simp_all add: word_neq_0_conv[symmetric])
  then show ?thesis
    using assms by (simp add: delay_queue_tick_entry_def Let_def task_get_mutable_by_id_def)
qed

lemma wait_inv_tick_alive:
  assumes inv: "wait_inv s" and index: "index < delay_queue_count s"
    and item: "dq_items s ! index = (k, d)" and d1: "d \<noteq> 1"
  obtains s' i where "delay_queue_tick_entry index e s = (index + 1, e, s')" and "wait_inv s'"
    and "lookup_tcb k (task_table s) = Some i"
    and "task_table s' = (task_table s)[i := tick_tcb (task_table s ! i)]"
    and "semaphore_table s' = semaphore_table s"
    and "dq_items s' = (dq_items s)[index := (k, d - 1)]" and "delay_queue_count s' = delay_queue_count s"
proof -
  obtain i where i: "lookup_tcb k (task_table s) = Some i" "tstate (task_table s ! i) = TASK_STATE_WAITING"
    "timed_reason (wait_reason (task_table s ! i))" "delay_ticks_remaining (task_table s ! i) = d"
    and d0: "d \<noteq> 0" and e: "dq_task_id (dq_at index s) = k" "dq_remaining (dq_at index s) = d"
    using entry_task[OF inv index item] by metis
  let ?t = "(task_table s ! i)\<lparr>delay_ticks_remaining := d - 1\<rparr>"
  define s' where "s' = delay_queue_tick_down index k (Some i) (wait_reason (tcb_at i s)) d (d - 1) s"
  have entry: "delay_queue_tick_entry index e s = (index + 1, e, s')"
    using tick_entry_unfold[OF i(1) e d0, of e] d1 by (simp add: s'_def)
  have items: "dq_items s' = (dq_items s)[index := (k, d - 1)]"
    by (simp add: s'_def dq_items_tick_down e)
  have ok: "dq_ok s'" unfolding s'_def by (rule dq_ok_tick_down[OF wait_invD(3)[OF inv] index])
  have len: "index < length (dq_items s)" using length_dq_items[OF wait_invD(3)[OF inv]] index by simp
  have tt: "task_table s' = (task_table s)[i := ?t]" and nxt: "next_task_id s' = next_task_id s"
    by (simp_all add: s'_def tick_down_task)
  have "wait_inv s'"
  proof (rule wait_inv_step[OF inv i(1) tt nxt])
    show "tid ?t = k" using tasks.lookup_SomeD(3)[OF i(1)] by simp
    show "tcb_used ?t" using tasks.lookup_SomeD(2)[OF i(1)] by (simp add: tcb_used_def)
    show "wait_data_ok ?t" using wait_inv_data[OF inv i(1)] i(3) d1 by (simp add: wait_data_ok_def)
    show "sems_ok (semaphore_table s') (next_sem_id s')"
      using wait_inv_sems_ok[OF inv] by (simp add: s'_def tick_down_task)
    show "(j, c) \<in> set (dq_items s') \<longleftrightarrow> (j, c) \<in> set (dq_items s)" if "j \<noteq> k" for j c
      unfolding items using that len item by (intro set_update_other) simp_all
    show "k \<in> set (queue_of m (semaphore_table s')) \<longleftrightarrow> sem_wait ?t = Some m" for m
      using wait_invD(4)[OF inv, of k] wait_of_lookup(1)[OF i(1)]
      by (simp add: link_ok_def sem_wait_def s'_def tick_down_task)
    have "(k, d - 1) \<in> set (dq_items s')" using len set_update_memI items by metis
    then show "(k, c) \<in> set (dq_items s') \<longleftrightarrow> timed_wait ?t = Some c" for c
      using distinct_fst_unique[of "dq_items s'" k "d - 1" c] ok i(3)
      by (auto simp: dq_ok_def timed_wait_def)
  qed (use ok in \<open>simp_all add: s'_def tick_down_task\<close>)
  moreover have "tick_tcb (task_table s ! i) = ?t" using i(3,4) d1 by (simp add: tick_tcb_def)
  ultimately show thesis
    using entry items i(1) tt that[of s' i] by (simp add: s'_def tick_down_task)
qed

text \<open>The removal of \<open>k\<close> from one wait queue, seen from all queues.\<close>

lemma waiters_removed:
  assumes "sem_ok sem"
  shows "waiters (ring_rebuild (remove1 k (waiters sem)) sem) = filter (\<lambda>j. j \<noteq> k) (waiters sem)"
proof -
  have "length (remove1 k (waiters sem)) \<le> MAX_TASKS"
    using assms ring_ok_bound[of sem] by (auto simp: sem_ok_def length_remove1)
  moreover have "removeAll k xs = filter (\<lambda>j. j \<noteq> k) xs" for xs :: "int list"
    by (induction xs) auto
  then have "remove1 k (waiters sem) = filter (\<lambda>j. j \<noteq> k) (waiters sem)"
    using assms by (simp add: sem_ok_def distinct_remove1_removeAll)
  ultimately show ?thesis by (simp add: ring_rebuild_waiters(1))
qed

lemma queue_removed:
  assumes inv: "wait_inv s" and j: "find_semaphore_by_id m s = Some j"
    and st: "st = (semaphore_table s)[j := ring_rebuild (remove1 k (waiters (sem_at j s))) (sem_at j s)]"
  shows "sems_ok st (next_sem_id s)"
    and "queue_of m' st = (if m' = m then filter (\<lambda>j. j \<noteq> k) (queue_of m (semaphore_table s))
                           else queue_of m' (semaphore_table s))"
proof -
  note sj = find_semaphore_SomeD[OF j]
  have ok: "sem_ok (sem_at j s)" by (rule sems_inv_sem_ok[OF wait_invD(2)[OF inv] j])
  have lookup: "lookup_sem m (semaphore_table s) = Some j" using j by (simp add: find_semaphore_by_id_def)
  show "sems_ok st (next_sem_id s)"
    unfolding st using wait_inv_sems_ok[OF inv] sj sem_ok_remove[OF ok]
    by (intro sems_ok_update) (simp_all add: sem_at_def)
  show "queue_of m' st = (if m' = m then filter (\<lambda>j. j \<noteq> k) (queue_of m (semaphore_table s))
                          else queue_of m' (semaphore_table s))"
    unfolding st using waiters_removed[OF ok] queue_of_find[OF j] sj by (simp add: queue_of_update[OF lookup])
qed

lemma set_insert_filter:
  "P = insert x A \<Longrightarrow> (\<And>p. p \<in> A \<Longrightarrow> f p \<noteq> f x) \<Longrightarrow> A = {p \<in> P. f p \<noteq> f x}"
  by auto

lemma distinct_fst_removed:
  assumes "distinct (map fst ps)" and "index < length ps"
  shows "set (take index ps @ drop (Suc index) ps) = {p \<in> set ps. fst p \<noteq> fst (ps ! index)}"
proof -
  have ps: "take index ps @ ps ! index # drop (Suc index) ps = ps"
    by (rule id_take_nth_drop[OF assms(2), symmetric])
  have "distinct (map fst (take index ps @ ps ! index # drop (Suc index) ps))"
    unfolding ps by (rule assms(1))
  then have "fst (ps ! index) \<notin> fst ` set (take index ps @ drop (Suc index) ps)"
    by (auto simp del: take_map drop_map)
  then have "fst p \<noteq> fst (ps ! index)" if "p \<in> set (take index ps @ drop (Suc index) ps)" for p
    using that by (metis image_eqI)
  moreover have "set (take index ps @ ps ! index # drop (Suc index) ps) = set ps"
    by (rule arg_cong[OF ps])
  then have "set ps = insert (ps ! index) (set (take index ps @ drop (Suc index) ps))" by simp
  ultimately show ?thesis by (intro set_insert_filter)
qed

text \<open>
  The wakeup of an expired entry, in a state \<open>s1\<close> that agrees with a state \<open>s\<close> of the invariant
  but for the remaining ticks of the task.
\<close>

lemma expire_queues:
  assumes inv: "wait_inv s" and k: "lookup_tcb k (task_table s) = Some i"
    and st: "tstate (task_table s ! i) = TASK_STATE_WAITING" and r: "timed_reason (wait_reason (task_table s ! i))"
    and s1: "task_table s1 = (task_table s)[i := (task_table s ! i)\<lparr>delay_ticks_remaining := 0\<rparr>]"
      "next_task_id s1 = next_task_id s" "semaphore_table s1 = semaphore_table s" "next_sem_id s1 = next_sem_id s"
    and s2: "s2 = delay_queue_expire (Some i) (wait_reason (task_table s ! i)) k s1"
  shows "task_table s2 = (task_table s)[i := tcb_enter TASK_STATE_READY 0 TASK_WAIT_REASON_NONE 0 (task_table s ! i)]"
    and "next_task_id s2 = next_task_id s" and "next_sem_id s2 = next_sem_id s"
    and "sems_ok (semaphore_table s2) (next_sem_id s)"
    and "queue_of m (semaphore_table s2) = filter (\<lambda>j. j \<noteq> k) (queue_of m (semaphore_table s))"
proof -
  let ?r = "wait_reason (task_table s ! i)" and ?m = "wait_sem_id (task_table s ! i)"
  note slot = tasks.lookup_SomeD[OF k]
  have lookup1: "lookup_tcb k (task_table s1) = Some i"
    unfolding s1 using slot k by (subst tasks.lookup_update_same) (simp_all add: tcb_used_def)
  have at1: "task_table s1 ! i = (task_table s ! i)\<lparr>delay_ticks_remaining := 0\<rparr>" using slot by (simp add: s1)
  have enter: "(task_table s1)[i := tcb_enter TASK_STATE_READY 0 TASK_WAIT_REASON_NONE 0 (task_table s1 ! i)]
      = (task_table s)[i := tcb_enter TASK_STATE_READY 0 TASK_WAIT_REASON_NONE 0 (task_table s ! i)]"
    using slot by (simp add: s1(1))
  have only: "k \<notin> set (queue_of m' (semaphore_table s))" if "wait_of k (task_table s) \<noteq> Some m'" for m'
    using that wait_invD(4)[OF inv, of k] by (simp add: link_ok_def)
  have wait: "wait_of k (task_table s) = (if sem_reason ?r then Some ?m else None)"
    by (simp add: wait_of_lookup(1)[OF k] sem_wait_def)
  consider (delay) "?r = TASK_WAIT_REASON_DELAY" | (sem) "?r = TASK_WAIT_REASON_SEMAPHORE_TIMEOUT"
    using r by (auto simp: timed_reason_def)
  then have "task_table s2 = (task_table s)[i := tcb_enter TASK_STATE_READY 0 TASK_WAIT_REASON_NONE 0 (task_table s ! i)]
     \<and> next_task_id s2 = next_task_id s \<and> next_sem_id s2 = next_sem_id s \<and> sems_ok (semaphore_table s2) (next_sem_id s)
     \<and> queue_of m (semaphore_table s2) = filter (\<lambda>j. j \<noteq> k) (queue_of m (semaphore_table s))"
  proof cases
    case delay
    then have "k \<notin> set (queue_of m (semaphore_table s))" using only[of m] wait by (simp add: sem_reason_def)
    then have "filter (\<lambda>j. j \<noteq> k) (queue_of m (semaphore_table s)) = queue_of m (semaphore_table s)"
      by (metis (mono_tags, lifting) filter_True)
    then show ?thesis
      using expire_delay[OF lookup1, of k] st delay at1 s1 enter wait_inv_sems_ok[OF inv] by (simp add: s2)
  next
    case sem
    then have "k \<in> set (queue_of ?m (semaphore_table s))"
      using wait wait_invD(4)[OF inv, of k] by (simp add: link_ok_def sem_reason_def)
    then obtain j where j: "find_semaphore_by_id ?m s = Some j" and q: "k \<in> set (waiters (sem_at j s))"
      using queue_of_find[of ?m s]
      by (cases "find_semaphore_by_id ?m s") (auto simp: queue_of_def find_semaphore_by_id_def)
    have j1: "find_semaphore_by_id ?m s1 = Some j" and sat: "sem_at j s1 = sem_at j s"
      using j s1 by (simp_all add: find_semaphore_by_id_def sem_at_def)
    note ex = expire_sem_timeout[OF lookup1 _ _ _ j1, of k, unfolded at1 sat s1(2-4), simplified, OF st sem q, folded sem, folded s2]
    have "queue_of m (semaphore_table s2) = filter (\<lambda>j. j \<noteq> k) (queue_of m (semaphore_table s))"
    proof (cases "m = ?m")
      case True
      then show ?thesis using queue_removed(2)[OF inv j ex(3), of m] by simp
    next
      case False
      then have "k \<notin> set (queue_of m (semaphore_table s))" using only[of m] wait by simp
      then have "filter (\<lambda>j. j \<noteq> k) (queue_of m (semaphore_table s)) = queue_of m (semaphore_table s)"
        by (metis (mono_tags, lifting) filter_True)
      with False show ?thesis using queue_removed(2)[OF inv j ex(3), of m] by simp
    qed
    with ex queue_removed(1)[OF inv j ex(3)] show ?thesis by (simp add: s1(1))
  qed
  then show "task_table s2 = (task_table s)[i := tcb_enter TASK_STATE_READY 0 TASK_WAIT_REASON_NONE 0 (task_table s ! i)]"
    and "next_task_id s2 = next_task_id s" and "next_sem_id s2 = next_sem_id s"
    and "sems_ok (semaphore_table s2) (next_sem_id s)"
    and "queue_of m (semaphore_table s2) = filter (\<lambda>j. j \<noteq> k) (queue_of m (semaphore_table s))"
    by simp_all
qed

lemma wait_inv_tick_expired:
  assumes inv: "wait_inv s" and index: "index < delay_queue_count s"
    and item: "dq_items s ! index = (k, 1)"
  obtains s' i where "delay_queue_tick_entry index e s = (index, e + 1, s')" and "wait_inv s'"
    and "lookup_tcb k (task_table s) = Some i"
    and "task_table s' = (task_table s)[i := tick_tcb (task_table s ! i)]"
    and "\<And>m. queue_of m (semaphore_table s') = filter (\<lambda>j. j \<noteq> k) (queue_of m (semaphore_table s))"
    and "dq_items s' = take index (dq_items s) @ drop (Suc index) (dq_items s)"
    and "delay_queue_count s' = delay_queue_count s - 1"
proof -
  obtain i where i: "lookup_tcb k (task_table s) = Some i" "tstate (task_table s ! i) = TASK_STATE_WAITING"
    "timed_reason (wait_reason (task_table s ! i))" "delay_ticks_remaining (task_table s ! i) = 1"
    and e: "dq_task_id (dq_at index s) = k" "dq_remaining (dq_at index s) = 1"
    using entry_task[OF inv index item] by metis
  let ?r = "wait_reason (task_table s ! i)"
  define s1 where "s1 = delay_queue_tick_down index k (Some i) ?r 1 0 s"
  define s1' where "s1' = say (\<lambda>s. [''[delay-q] timeout reached: task id='', int_str k,
                        '' name='', dq_name (Some i) s, '' reason='', delay_queue_wait_reason_name ?r]
                @ (if ?r = TASK_WAIT_REASON_SEMAPHORE_TIMEOUT
                   then ['' sem id='', int_str (wait_sem_id (tcb_at i s))] else []) @ [''\<newline>'']) s1"
  define s2 where "s2 = delay_queue_expire (Some i) ?r k s1'"
  define s' where "s' = delay_queue_timeout index k (Some i) ?r s1"
  have entry: "delay_queue_tick_entry index e s = (index, e + 1, s')"
    using tick_entry_unfold[OF i(1) e, of e] by (simp add: s'_def s1_def tcb_at_def Let_def)
  note wake = expire_queues[OF inv i(1-3), of s1' s2, OF _ _ _ _ s2_def]
  have wake: "task_table s2 = (task_table s)[i := tcb_enter TASK_STATE_READY 0 TASK_WAIT_REASON_NONE 0 (task_table s ! i)]"
    "next_task_id s2 = next_task_id s" "next_sem_id s2 = next_sem_id s" "sems_ok (semaphore_table s2) (next_sem_id s)"
    "\<And>m. queue_of m (semaphore_table s2) = filter (\<lambda>j. j \<noteq> k) (queue_of m (semaphore_table s))"
    by (rule wake; simp add: s1'_def s1_def tick_down_task)+
  have dq2: "dq_items s2 = (dq_items s)[index := (k, 0)]" "delay_queue_count s2 = delay_queue_count s" "dq_ok s2"
    using dq_ok_tick_down[OF wait_invD(3)[OF inv] index, of k i ?r 1 0] dq_items_tick_down[of index k i ?r 1 0 s] e
    by (simp_all add: s2_def s1'_def s1_def)
  have "\<exists>g g'. s' = say g' (delay_queue_remove_at index (say g s2))"
    unfolding s'_def delay_queue_timeout_def s2_def s1'_def Let_def option.case by blast
  then obtain g g' where s': "s' = say g' (delay_queue_remove_at index (say g s2))" by blast
  have items: "dq_items s' = take index (dq_items s) @ drop (Suc index) (dq_items s)"
    using dq2 index by (simp add: s' dq_items_remove_at)
  have ok': "dq_ok s'" using dq2 index by (simp add: s' dq_ok_remove_at)
  have len: "index < length (dq_items s)" using length_dq_items[OF wait_invD(3)[OF inv]] index by simp
  have "set (dq_items s') = {p \<in> set (dq_items s). fst p \<noteq> k}"
    unfolding items using distinct_fst_removed[OF _ len] item wait_invD(3)[OF inv] by (simp add: dq_ok_def)
  then have inv': "wait_inv s'"
    using wake ok' by (intro wait_inv_wake[OF inv i(1)]) (auto simp: s')
  have "tick_tcb (task_table s ! i) = tcb_enter TASK_STATE_READY 0 TASK_WAIT_REASON_NONE 0 (task_table s ! i)"
    using i by (simp add: tick_tcb_def)
  then show thesis
    using that[OF entry inv' i(1)] wake items dq2(2) by (simp add: s')
qed

subsection \<open>The whole loop\<close>

definition tick_some :: "int set \<Rightarrow> tcb_t \<Rightarrow> tcb_t" where
  "tick_some ks t = (if tcb_used t \<and> tid t \<in> ks then tick_tcb t else t)"

lemma tick_tcb_fields [simp]: "tid (tick_tcb t) = tid t" "tcb_used (tick_tcb t) = tcb_used t" if "tcb_used t"
  using that by (simp_all add: tick_tcb_def tcb_used_def)

lemma tick_some_step:
  assumes "unique_ids tcb_used tid tt" and "lookup_tcb k tt = Some i" and "k \<notin> ks"
  shows "map (tick_some ks) (tt[i := tick_tcb (tt ! i)]) = map (tick_some (insert k ks)) tt"
proof (rule nth_equalityI)
  fix j assume "j < length (map (tick_some ks) (tt[i := tick_tcb (tt ! i)]))"
  then have j: "j < length tt" by simp
  note i = tasks.lookup_SomeD[OF assms(2)]
  show "map (tick_some ks) (tt[i := tick_tcb (tt ! i)]) ! j = map (tick_some (insert k ks)) tt ! j"
  proof (cases "j = i")
    case True
    with i assms(3) show ?thesis by (simp add: tick_some_def)
  next
    case False
    then have "tid (tt ! j) \<noteq> k" if "tcb_used (tt ! j)"
      using that i j assms(1) unfolding unique_ids_def by metis
    with False i j show ?thesis by (auto simp: tick_some_def)
  qed
qed simp

lemma wait_inv_unique: "wait_inv s \<Longrightarrow> unique_ids tcb_used tid (task_table s)"
  by (simp add: wait_inv_def tasks_inv_def tasks_ok_def)

lemma tick_loop:
  "wait_inv s \<Longrightarrow> dq_items s = pre @ rest \<Longrightarrow>
   \<exists>s'. delay_queue_tick_loop (length pre) e s = (e + int (length (expired_ids rest)), s') \<and> wait_inv s' \<and>
     dq_items s' = pre @ tick_items rest \<and>
     task_table s' = map (tick_some (fst ` set rest)) (task_table s) \<and>
     (\<forall>m. queue_of m (semaphore_table s')
        = filter (\<lambda>k. k \<notin> set (expired_ids rest)) (queue_of m (semaphore_table s)))"
proof (induction rest arbitrary: pre e s)
  case Nil
  have "length pre = delay_queue_count s" using length_dq_items[OF wait_invD(3)[OF Nil(1)]] Nil(2) by simp
  with Nil show ?case
    by (simp add: delay_queue_tick_loop.simps tick_some_def)
next
  case (Cons p rest)
  obtain k d where p: "p = (k, d)" by (cases p)
  have dq: "dq_ok s" by (rule wait_invD(3)[OF Cons.prems(1)])
  have index: "length pre < delay_queue_count s" using length_dq_items[OF dq] Cons.prems(2) by simp
  have item: "dq_items s ! length pre = (k, d)" using Cons.prems(2) p by simp
  have fresh: "k \<notin> fst ` set rest" using dq Cons.prems(2) p by (auto simp: dq_ok_def)
  note loop = delay_queue_tick_loop.simps[of "length pre" e s] index
  note uniq = wait_inv_unique[OF Cons.prems(1)]
  show ?case
  proof (cases "d = 1")
    case True
    obtain s1 i where s1: "delay_queue_tick_entry (length pre) e s = (length pre, e + 1, s1)" "wait_inv s1"
      "lookup_tcb k (task_table s) = Some i" "task_table s1 = (task_table s)[i := tick_tcb (task_table s ! i)]"
      "\<And>m. queue_of m (semaphore_table s1) = filter (\<lambda>j. j \<noteq> k) (queue_of m (semaphore_table s))"
      "dq_items s1 = take (length pre) (dq_items s) @ drop (Suc (length pre)) (dq_items s)"
      using wait_inv_tick_expired[OF Cons.prems(1) index, of k e] item True by metis
    have "dq_items s1 = pre @ rest" using s1(6) Cons.prems(2) by simp
    from Cons.IH[OF s1(2) this, of "e + 1"] show ?thesis
      using s1 True p tick_some_step[OF uniq s1(3) fresh] loop by (auto simp: conj_commute)
  next
    case False
    obtain s1 i where s1: "delay_queue_tick_entry (length pre) e s = (length pre + 1, e, s1)" "wait_inv s1"
      "lookup_tcb k (task_table s) = Some i" "task_table s1 = (task_table s)[i := tick_tcb (task_table s ! i)]"
      "semaphore_table s1 = semaphore_table s" "dq_items s1 = (dq_items s)[length pre := (k, d - 1)]"
      using wait_inv_tick_alive[OF Cons.prems(1) index item False, of e] by metis
    have "dq_items s1 = (pre @ [(k, d - 1)]) @ rest" using s1(6) Cons.prems(2) by simp
    from Cons.IH[OF s1(2) this, of e] show ?thesis
      using s1 False p tick_some_step[OF uniq s1(3) fresh] loop by auto
  qed
qed

text \<open>Ticking the ids of the delay queue is ticking every TCB.\<close>

lemma tick_some_all:
  assumes "wait_inv s"
  shows "map (tick_some (fst ` set (dq_items s))) (task_table s) = map tick_tcb (task_table s)"
proof (rule map_cong[OF refl])
  fix t assume "t \<in> set (task_table s)"
  then obtain i where i: "i < length (task_table s)" "t = task_table s ! i" by (auto simp: in_set_conv_nth)
  have ok: "tasks_ok (task_table s) (next_task_id s)" using wait_invD(1)[OF assms] by (simp add: tasks_inv_def)
  have data: "wait_data_ok t" using ok i tasks_okD(1,5)[OF ok] by simp
  show "tick_some (fst ` set (dq_items s)) t = tick_tcb t"
  proof (cases "tcb_used t \<and> timed_reason (wait_reason t)")
    case True
    then have "lookup_tcb (tid t) (task_table s) = Some i"
      using tasks_ok_lookup[OF ok] tasks_okD(1)[OF ok] i by simp
    then have "(tid t, delay_ticks_remaining t) \<in> set (dq_items s)"
      using True i wait_invD(4)[OF assms, of "tid t"]
      by (simp add: link_ok_def wait_of_lookup(2) timed_wait_def)
    with True show ?thesis by (force simp: tick_some_def)
  next
    case False
    with data have "tick_tcb t = t"
      by (auto simp: tick_tcb_def wait_data_ok_def tcb_used_def timed_reason_def)
    then show ?thesis by (simp add: tick_some_def)
  qed
qed

theorem delay_queue_tick_refines:
  assumes "wait_inv s"
  shows "\<exists>s'. delay_queue_tick s = (int (length (expired_ids (dq_items s))), s') \<and> wait_inv s' \<and>
    task_table s' = map tick_tcb (task_table s) \<and> dq_items s' = tick_items (dq_items s) \<and>
    (\<forall>m. queue_of m (semaphore_table s')
       = filter (\<lambda>k. k \<notin> set (expired_ids (dq_items s))) (queue_of m (semaphore_table s)))"
proof -
  let ?s = "say (\<lambda>s. [''[delay-q] tick begin: count='', int_str (int (delay_queue_count s)), ''\<newline>'']) s"
  have "wait_inv ?s" and "dq_items ?s = [] @ dq_items s" using assms by simp_all
  from tick_loop[OF this, of 0] obtain s' where
    "delay_queue_tick_loop 0 0 ?s = (int (length (expired_ids (dq_items s))), s')" "wait_inv s'"
    "dq_items s' = tick_items (dq_items s)"
    "task_table s' = map tick_tcb (task_table s)"
    "\<forall>m. queue_of m (semaphore_table s')
       = filter (\<lambda>k. k \<notin> set (expired_ids (dq_items s))) (queue_of m (semaphore_table s))"
    using tick_some_all[OF assms] by auto
  then show ?thesis by (simp add: delay_queue_tick_def Let_def)
qed

end
