(* ===== verification/Kernel_Inv.thy ===== *)
theory Kernel_Inv
  imports Itron_API Tick
begin

section \<open>The kernel invariant\<close>

text \<open>
  \<open>kernel_inv\<close>: the tables are well formed, the records of every wait agree (\<open>wait_inv\<close>), and only
  the current task can be RUNNING. It reads seven components of the state, the \<open>core\<close>; whatever
  else an operation writes (log, pending request, contexts, hardware) cannot break it. This
  theory shows that the operations below the task API keep it.
\<close>

subsection \<open>The part of the state the invariant reads\<close>

definition core :: "'a dispatcher_module_scheme \<Rightarrow>
    tcb_t list \<times> int \<times> semaphore_t list \<times> int \<times> delay_queue_entry_t list \<times> nat \<times> nat option" where
  "core s = (task_table s, next_task_id s, semaphore_table s, next_sem_id s,
     delay_queue_entries s, delay_queue_count s, current_task s)"

definition run_ok :: "tcb_t list \<Rightarrow> nat option \<Rightarrow> bool" where
  "run_ok tt cur \<longleftrightarrow>
     (\<forall>i < length tt. tstate (tt ! i) = TASK_STATE_RUNNING \<longrightarrow> Some i = cur) \<and>
     (case cur of None \<Rightarrow> True | Some c \<Rightarrow> c < length tt \<and> tcb_used (tt ! c))"

definition kernel_inv :: "'a dispatcher_module_scheme \<Rightarrow> bool" where
  "kernel_inv s \<longleftrightarrow> wait_inv s \<and> run_ok (task_table s) (current_task s)"

lemma core_eqD:
  assumes "core s' = core s"
  shows "task_table s' = task_table s" and "next_task_id s' = next_task_id s"
    and "semaphore_table s' = semaphore_table s" and "next_sem_id s' = next_sem_id s"
    and "delay_queue_entries s' = delay_queue_entries s" and "delay_queue_count s' = delay_queue_count s"
    and "current_task s' = current_task s" and "dq_items s' = dq_items s" and "dq_ok s' = dq_ok s"
  using assms by (simp_all add: core_def dq_items_def dq_ok_def)

lemma wait_inv_core:
  assumes "core s' = core s"
  shows "wait_inv s' = wait_inv s"
  using core_eqD[OF assms] by (simp add: wait_inv_def tasks_inv_def sems_inv_def link_ok_def)

lemma kernel_inv_core:
  assumes "core s' = core s"
  shows "kernel_inv s' = kernel_inv s"
  using core_eqD[OF assms] wait_inv_core[OF assms] by (simp add: kernel_inv_def)

lemma kernel_invD:
  assumes "kernel_inv s"
  shows "wait_inv s" and "run_ok (task_table s) (current_task s)"
    and "length (task_table s) = MAX_TASKS"
  using assms by (simp_all add: kernel_inv_def wait_inv_def tasks_inv_def tasks_ok_def)

lemma current_say [simp]: "current_task (say f s) = current_task s"
  by (simp add: say_def writes_def)

lemma core_say [simp]: "core (say f s) = core s"
  by (simp add: core_def)

lemma kernel_inv_say [simp]: "kernel_inv (say f s) = kernel_inv s"
  by (rule kernel_inv_core) simp

lemma completed_frames [simp]:
  "task_table (completed op e a s) = task_table s" "core (completed op e a d) = core d"
  by (simp_all add: completed_def)

lemma current_upd [simp]:
  "current_task (upd_tcb i f s) = current_task s" "current_task (upd_sem j g s) = current_task s"
  "current_task (set_dq i e s) = current_task s"
  by (simp_all add: upd_tcb_def upd_sem_def set_dq_def)

lemma current_shift [simp]: "current_task (dq_shift js s) = current_task s"
proof (induction js arbitrary: s)
  case Nil
  show ?case by (simp add: dq_shift_def)
next
  case (Cons j js)
  have "dq_shift (j # js) s = dq_shift js (set_dq j (dq_at (j + 1) s) s)" by (simp add: dq_shift_def)
  with Cons show ?case by simp
qed

lemma current_dq [simp]:
  "current_task (delay_queue_remove_at i s) = current_task s" "current_task (dq_append k d s) = current_task s"
  by (simp_all add: delay_queue_remove_at_def dq_append_def Let_def)

text \<open>The fields of the dispatcher and of the pending request.\<close>

lemma core_pending [simp]:
  "core (s\<lparr>dispatch_pending_state := p\<rparr>) = core s"
  "core (pending_request src r c n s) = core s"
  "core (dispatch_pending_clear_with_reason l s) = core s"
  "core (dispatch_pending_clear_for_test_or_later_boundary s) = core s"
  "core (dispatch_pending_clear_irq_for_evaluation s) = core s"
  "core (dispatch_request_from_irq cu ca s) = core s"
  "core (dispatch_request_from_task_start cu ca s) = core s"
  "core (dispatch_request_from_task_wakeup cu ca s) = core s"
  "core (dispatch_pending_log_state_from_irq nr s) = core s"
proof -
  show set_pending: "core (s\<lparr>dispatch_pending_state := p\<rparr>) = core s" for p and s :: "'a pending_module_scheme"
    by (simp add: core_def)
  show req: "core (pending_request src r c n s) = core s" for src r c n
    by (simp add: pending_request_def set_pending)
  show clear: "core (dispatch_pending_clear_with_reason l s) = core s" for l
    by (simp add: dispatch_pending_clear_with_reason_def set_pending Let_def split: option.split)
  show clear_all: "core (dispatch_pending_clear_for_test_or_later_boundary s) = core s"
    by (simp add: dispatch_pending_clear_for_test_or_later_boundary_def clear)
  show clear_irq: "core (dispatch_pending_clear_irq_for_evaluation s) = core s"
    by (simp add: dispatch_pending_clear_irq_for_evaluation_def clear)
  show "core (dispatch_request_from_irq cu ca s) = core s"
    by (simp add: dispatch_request_from_irq_def clear_irq req split: option.split)
  show "core (dispatch_request_from_task_start cu ca s) = core s"
    by (simp add: dispatch_request_from_task_start_def clear_all req split: option.split)
  show "core (dispatch_request_from_task_wakeup cu ca s) = core s"
    by (simp add: dispatch_request_from_task_wakeup_def clear_all req split: option.split)
  show "core (dispatch_pending_log_state_from_irq nr s) = core s"
    by (simp add: dispatch_pending_log_state_from_irq_def set_pending Let_def)
qed

subsection \<open>RUNNING and the current task\<close>

lemma run_ok_update:
  assumes "run_ok tt cur" and "tcb_used t" and "tstate t \<noteq> TASK_STATE_RUNNING"
  shows "run_ok (tt[i := t]) cur"
proof (cases "i < length tt")
  case True
  with assms show ?thesis by (cases cur) (auto simp: run_ok_def nth_update_eq_if)
next
  case False
  with assms show ?thesis by (simp add: not_less list_update_beyond)
qed

lemma run_ok_dispatch:
  assumes "run_ok tt cur" and "i < length tt" and "tcb_used t"
    and "\<And>j. cur = Some j \<Longrightarrow> tstate (tt ! j) \<noteq> TASK_STATE_RUNNING"
  shows "run_ok (tt[i := t]) (Some i)"
proof -
  have "tstate (tt ! j) \<noteq> TASK_STATE_RUNNING" if "j < length tt" for j
    using assms(1) assms(4)[of j] that by (auto simp: run_ok_def)
  with assms(2,3) show ?thesis by (simp add: run_ok_def nth_update_eq_if)
qed

lemma run_ok_map:
  assumes "run_ok tt cur" and "\<And>t. t \<in> set tt \<Longrightarrow> tcb_used (f t) = tcb_used t"
    and "\<And>t. t \<in> set tt \<Longrightarrow> tstate (f t) = TASK_STATE_RUNNING \<Longrightarrow> tstate t = TASK_STATE_RUNNING"
  shows "run_ok (map f tt) cur"
  using assms(1) assms(2,3)[OF nth_mem] by (simp add: run_ok_def split: option.splits)

text \<open>The general step: one TCB changes, and the waits agree again.\<close>

lemma kernel_inv_task_change:
  assumes "kernel_inv s" and "task_table s' = (task_table s)[i := t]" and "current_task s' = current_task s"
    and "tcb_used t" and "tstate t \<noteq> TASK_STATE_RUNNING" and "wait_inv s'"
  shows "kernel_inv s'"
  using assms run_ok_update[of "task_table s" "current_task s" t i] by (simp add: kernel_inv_def)

lemma kernel_inv_no_queue:
  assumes "kernel_inv s" and "lookup_tcb h (task_table s) = Some i"
    and "sem_wait (task_table s ! i) = None" and "timed_wait (task_table s ! i) = None"
    and "st \<in> {TASK_STATE_READY, TASK_STATE_DORMANT, TASK_STATE_WAITING}"
    and "\<not> sem_reason r" and "\<not> timed_reason r"
    and "wait_data_ok (tcb_enter st m r d (task_table s ! i))"
  shows "kernel_inv (upd_tcb i (tcb_enter st m r d) s)"
proof (rule kernel_inv_task_change[OF assms(1)])
  show "wait_inv (upd_tcb i (tcb_enter st m r d) s)"
    by (rule wait_inv_no_queue[OF kernel_invD(1)[OF assms(1)] assms(2-4)])
      (use assms in \<open>auto simp: task_table_upd_tcb\<close>)
qed (use assms(5) in \<open>auto simp: task_table_upd_tcb\<close>)

lemma no_wait_states:
  "wait_data_ok t \<Longrightarrow> tstate t \<noteq> TASK_STATE_WAITING \<Longrightarrow> sem_wait t = None"
  "wait_data_ok t \<Longrightarrow> tstate t \<noteq> TASK_STATE_WAITING \<Longrightarrow> timed_wait t = None"
  "wait_reason t = TASK_WAIT_REASON_SLEEP \<Longrightarrow> sem_wait t = None"
  "wait_reason t = TASK_WAIT_REASON_SLEEP \<Longrightarrow> timed_wait t = None"
  by (auto simp: wait_data_ok_def sem_wait_def timed_wait_def sem_reason_def timed_reason_def)

lemma kernel_inv_data:
  "kernel_inv s \<Longrightarrow> lookup_tcb k (task_table s) = Some i \<Longrightarrow> wait_data_ok (task_table s ! i)"
  by (rule wait_inv_data[OF kernel_invD(1)])

lemma kernel_inv_start_dormant:
  assumes "kernel_inv s"
  shows "kernel_inv (snd (task_start_dormant k s))"
  using assms kernel_inv_data[OF assms, of k]
  by (auto simp: task_start_dormant_def task_scan_defs Let_def no_wait_states sem_reason_def timed_reason_def
      split: option.splits intro!: kernel_inv_no_queue[of s k])

lemma kernel_inv_mark_ready:
  assumes "kernel_inv s"
  shows "kernel_inv (snd (task_mark_ready_from_running k s))"
  using assms kernel_inv_data[OF assms, of k]
  by (auto simp: task_mark_ready_from_running_def task_scan_defs Let_def no_wait_states sem_reason_def
      timed_reason_def split: option.splits intro!: kernel_inv_no_queue[of s k])

lemma kernel_inv_mark_dormant:
  assumes "kernel_inv s"
  shows "kernel_inv (snd (task_mark_dormant_from_entry_return k s))"
  using assms kernel_inv_data[OF assms, of k]
  by (auto simp: task_mark_dormant_from_entry_return_def task_scan_defs Let_def no_wait_states sem_reason_def
      timed_reason_def split: option.splits intro!: kernel_inv_no_queue[of s k])

lemma kernel_inv_mark_sleep:
  assumes "kernel_inv s"
  shows "kernel_inv (snd (task_mark_waiting_on_sleep k s))"
  using assms kernel_inv_data[OF assms, of k]
  by (auto simp: task_mark_waiting_on_sleep_def task_scan_defs Let_def no_wait_states sem_reason_def
      timed_reason_def split: option.splits intro!: kernel_inv_no_queue[of s k])

lemma kernel_inv_wake_sleep:
  assumes "kernel_inv s"
  shows "kernel_inv (snd (task_wake_waiting_on_sleep_by_id k s))"
  using assms
  by (auto simp: task_wake_waiting_on_sleep_by_id_def task_scan_defs Let_def no_wait_states sem_reason_def
      timed_reason_def split: option.splits intro!: kernel_inv_no_queue[of s k])

subsection \<open>New tasks and new semaphores\<close>

lemma tcb_of_insert:
  assumes "i < length tt" and "\<not> tcb_used (tt ! i)" and "tcb_used t" and "0 < tid t"
    and "lookup_tcb (tid t) tt = None"
  shows "tcb_of k (tt[i := t]) = (if k = tid t then Some t else tcb_of k tt)"
proof -
  have lookup: "lookup_tcb k (tt[i := t]) = (if k = tid t then Some i else lookup_tcb k tt)"
    by (rule tasks.lookup_insert[OF assms])
  have "lookup_tcb k tt \<noteq> Some i" using assms(2) tasks.lookup_SomeD(2)[of k tt i] by auto
  with lookup assms(1) show ?thesis by (cases "lookup_tcb k tt") (auto simp: tcb_of_def)
qed

lemma wait_inv_insert_task:
  assumes inv: "wait_inv s" and i: "i < length (task_table s)" "\<not> tcb_used (task_table s ! i)"
    and t: "tcb_used t" "0 < tid t" "lookup_tcb (tid t) (task_table s) = None"
      "wait_reason t = TASK_WAIT_REASON_NONE"
    and s': "task_table s' = (task_table s)[i := t]" "tasks_inv s'" "semaphore_table s' = semaphore_table s"
      "next_sem_id s' = next_sem_id s" "dq_items s' = dq_items s" "dq_ok s' = dq_ok s"
  shows "wait_inv s'"
proof (rule wait_inv_change[OF inv s'(2)])
  note tcb = tcb_of_insert[OF i t(1-3)]
  have "wait_of (tid t) (task_table s) = None" "delay_of (tid t) (task_table s) = None"
    using t(3) by (simp_all add: wait_of_def delay_of_def tcb_of_def)
  then show "link_ok (tid t) s'"
    using wait_invD(4)[OF inv, of "tid t"] t(4)
    by (simp add: link_ok_def s' wait_of_def[of _ "(task_table s)[i := t]"]
        delay_of_def[of _ "(task_table s)[i := t]"] tcb
        sem_wait_def timed_wait_def sem_reason_def timed_reason_def)
  show "tcb_of k (task_table s') = tcb_of k (task_table s)" if "k \<noteq> tid t" for k
    using that by (simp add: s'(1) tcb)
  show "sems_inv s'" using wait_invD(2)[OF inv] s' by (simp add: sems_inv_def)
  show "dq_ok s'" using wait_invD(3)[OF inv] s' by simp
qed (use s' in simp_all)

lemma kernel_inv_insert_task:
  assumes inv: "kernel_inv s" and "i < length (task_table s)" "\<not> tcb_used (task_table s ! i)"
    and "tcb_used t" "0 < tid t" "lookup_tcb (tid t) (task_table s) = None"
      "wait_reason t = TASK_WAIT_REASON_NONE" and st: "tstate t \<noteq> TASK_STATE_RUNNING"
    and "task_table s' = (task_table s)[i := t]" "tasks_inv s'" "semaphore_table s' = semaphore_table s"
      "next_sem_id s' = next_sem_id s" "dq_items s' = dq_items s" "dq_ok s' = dq_ok s"
      "current_task s' = current_task s"
  shows "kernel_inv s'"
  by (rule kernel_inv_task_change[OF inv _ _ _ st wait_inv_insert_task[OF kernel_invD(1)[OF inv]]])
    (use assms in auto)

lemma dq_next_task_id [simp]:
  "dq_items (s\<lparr>next_task_id := n\<rparr>) = dq_items s" "dq_ok (s\<lparr>next_task_id := n\<rparr>) = dq_ok s"
  "dq_items (s\<lparr>next_sem_id := n\<rparr>) = dq_items s" "dq_ok (s\<lparr>next_sem_id := n\<rparr>) = dq_ok s"
  by (simp_all add: dq_items_def dq_ok_def)

lemma kernel_inv_task_register:
  assumes "kernel_inv s"
  shows "kernel_inv (snd (task_register name ent prio base sz s))"
proof (cases "name = None \<or> ent = 0 \<or> base = 0 \<or> sz = 0 \<or> find_free_slot s = None \<or> TASK_ID_MAX \<le> next_task_id s")
  case True
  have "0 < next_task_id s" using kernel_invD(1)[OF assms] by (simp add: wait_inv_def tasks_inv_def tasks_ok_def)
  with True assms show ?thesis
    by (auto simp: task_register_def allocate_task_id_def Let_def split: option.split)
next
  case False
  then obtain i where i: "find_free_slot s = Some i" by auto
  note slot = find_free_slot_SomeD[OF i]
  have inv: "tasks_inv s" using kernel_invD(1)[OF assms] by (simp add: wait_inv_def)
  then have ok: "tasks_ok (task_table s) (next_task_id s)" by (simp add: tasks_inv_def)
  let ?t = "task_configure_slot (next_task_id s) name ent prio base sz TASK_STATE_READY (task_table s ! i)"
  let ?s' = "snd (task_register name ent prio base sz s)"
  have s': "task_table ?s' = (task_table s)[i := ?t]" "semaphore_table ?s' = semaphore_table s"
    "next_sem_id ?s' = next_sem_id s" "dq_items ?s' = dq_items s" "dq_ok ?s' = dq_ok s"
    "current_task ?s' = current_task s"
    using False i tasks_okD(3)[OF ok]
    by (auto simp: task_register_def allocate_task_id_def Let_def task_table_upd_tcb)
  show ?thesis
    by (rule kernel_inv_insert_task[OF assms slot, where t = ?t])
      (use s' tasks_okD(3)[OF ok] fresh_task_id[OF ok, of "next_task_id s"] tasks_inv_task_register[OF inv]
        in \<open>simp_all add: tcb_used_def\<close>)
qed

lemma kernel_inv_task_create_dormant:
  assumes "kernel_inv s" and "k < INT_MAX"
  shows "kernel_inv (snd (task_create_dormant k name ent prio base sz s))"
proof (cases "k \<le> 0 \<or> name = None \<or> ent = 0 \<or> base = 0 \<or> sz = 0 \<or> find_free_slot s = None \<or> task_id_is_in_use k s")
  case True
  with assms show ?thesis by (auto simp: task_create_dormant_def split: option.split)
next
  case False
  then obtain i where i: "find_free_slot s = Some i" by auto
  note slot = find_free_slot_SomeD[OF i]
  have inv: "tasks_inv s" using kernel_invD(1)[OF assms(1)] by (simp add: wait_inv_def)
  have fresh: "lookup_tcb k (task_table s) = None" using False task_id_in_use_lookup[of k s] by simp
  let ?t = "task_configure_slot k name ent prio base sz TASK_STATE_DORMANT (task_table s ! i)"
  let ?s' = "snd (task_create_dormant k name ent prio base sz s)"
  have s': "task_table ?s' = (task_table s)[i := ?t]" "semaphore_table ?s' = semaphore_table s"
    "next_sem_id ?s' = next_sem_id s" "dq_items ?s' = dq_items s" "dq_ok ?s' = dq_ok s"
    "current_task ?s' = current_task s"
    using False i by (auto simp: task_create_dormant_def Let_def task_table_upd_tcb)
  show ?thesis
    by (rule kernel_inv_insert_task[OF assms(1) slot, where t = ?t])
      (use s' False fresh tasks_inv_task_create_dormant[OF inv assms(2)]
        in \<open>simp_all add: tcb_used_def\<close>)
qed

lemma kernel_inv_cre_tsk:
  assumes "kernel_inv s" and "k < INT_MAX"
  shows "kernel_inv (snd (cre_tsk k pk s))"
  using assms
  by (auto simp: cre_tsk_def Let_def completed_def kernel_inv_task_create_dormant case_prod_beta split: option.split)

text \<open>Changes of one semaphore that leave its waiters alone.\<close>

lemma kernel_inv_sem_change:
  assumes inv: "kernel_inv s" and j: "find_semaphore_by_id m s = Some j"
    and f: "sem_ident (f (sem_at j s)) = sem_ident (sem_at j s)" "waiters (f (sem_at j s)) = waiters (sem_at j s)"
      "sem_ok (f (sem_at j s))"
  shows "kernel_inv (upd_sem j f s)"
proof -
  note sj = find_semaphore_SomeD[OF j]
  have lookup: "lookup_sem m (semaphore_table s) = Some j" using j by (simp add: find_semaphore_by_id_def)
  have q: "queue_of m' (semaphore_table (upd_sem j f s)) = queue_of m' (semaphore_table s)" for m'
    using queue_of_find[OF j] f sj
    by (simp add: semaphore_table_upd_sem queue_of_update[OF lookup] sem_at_def)
  have "sems_inv (upd_sem j f s)"
    using wait_invD(2)[OF kernel_invD(1)[OF inv]] sj f by (intro sems_inv_upd_sem)
  with inv q show ?thesis by (simp add: kernel_inv_def wait_inv_def tasks_inv_def link_ok_def)
qed

lemma kernel_inv_sem_ok: "kernel_inv s \<Longrightarrow> find_semaphore_by_id m s = Some j \<Longrightarrow> sem_ok (sem_at j s)"
  by (rule sems_inv_sem_ok[OF wait_invD(2)[OF kernel_invD(1)]])

lemma kernel_inv_take:
  assumes "kernel_inv s"
  shows "kernel_inv (snd (sem_take_if_available m s))"
proof (cases "find_semaphore_by_id m s")
  case None
  with assms show ?thesis by (simp add: sem_take_if_available_def)
next
  case (Some j)
  have "sem_ok ((sem_at j s)\<lparr>sem_count := sem_count (sem_at j s) - 1\<rparr>)" if "0 < sem_count (sem_at j s)"
    using kernel_inv_sem_ok[OF assms Some] that by (auto simp: sem_ok_def sem_used_def)
  with Some assms show ?thesis
    by (simp add: sem_take_if_available_def Let_def kernel_inv_sem_change)
qed

lemma kernel_inv_increment:
  assumes "kernel_inv s" and "\<And>j. find_semaphore_by_id m s = Some j \<Longrightarrow> waiters (sem_at j s) = []"
  shows "kernel_inv (snd (sem_increment_count m s))"
proof (cases "find_semaphore_by_id m s")
  case None
  with assms show ?thesis by (simp add: sem_increment_count_def)
next
  case (Some j)
  have "sem_ok ((sem_at j s)\<lparr>sem_count := sem_count (sem_at j s) + 1\<rparr>)"
    if "sem_count (sem_at j s) < sem_max_count (sem_at j s)"
    using kernel_inv_sem_ok[OF assms(1) Some] assms(2)[OF Some] that
    by (auto simp: sem_ok_def sem_used_def simp del: waiters_nil)
  with Some assms(1) show ?thesis
    by (simp add: sem_increment_count_def Let_def kernel_inv_sem_change)
qed

lemma find_free_semaphore_SomeD:
  assumes "find_free_semaphore_slot s = Some i"
  shows "i < length (semaphore_table s)" and "\<not> sem_used (semaphore_table s ! i)"
  using first_index_SomeD[OF assms[unfolded find_free_semaphore_slot_def]] by (simp_all add: sem_used_def)

text \<open>The conditions under which no semaphore is created, and the new semaphore otherwise.\<close>

definition sem_create_refused :: "c_string \<Rightarrow> int \<Rightarrow> int \<Rightarrow> 'a semaphore_module_scheme \<Rightarrow> bool" where
  "sem_create_refused name initial_count max_count s \<longleftrightarrow>
     name = None \<or> initial_count < 0 \<or> max_count \<le> 0 \<or> initial_count > max_count \<or>
     find_free_semaphore_slot s = None \<or> SEM_ID_MAX \<le> next_sem_id s"

definition new_sem :: "int \<Rightarrow> c_string \<Rightarrow> int \<Rightarrow> int \<Rightarrow> semaphore_t \<Rightarrow> semaphore_t" where
  "new_sem ident name initial_count max_count sem = sem_reset_wait_queue
     (sem\<lparr>sem_ident := ident, sem_name := name, sem_count := initial_count, sem_max_count := max_count\<rparr>)"

lemma new_sem_fields [simp]:
  "sem_ident (new_sem k name n mx sem) = k" "sem_count (new_sem k name n mx sem) = n"
  "sem_max_count (new_sem k name n mx sem) = mx" "waiters (new_sem k name n mx sem) = []"
  by (simp_all add: new_sem_def)

lemma sem_create_fails:
  assumes "sems_ok (semaphore_table s) (next_sem_id s)" and "sem_create_refused name n mx s"
  shows "fst (sem_create name n mx s) < 0" and "snd (sem_create name n mx s) = s"
  using assms(2) sems_okD(3)[OF assms(1)]
  by (auto simp: sem_create_refused_def sem_create_def allocate_sem_id_def Let_def split: option.split)

lemma sem_create_inserts:
  assumes sems: "sems_ok (semaphore_table s) (next_sem_id s)" and ok: "\<not> sem_create_refused name n mx s"
  obtains i where "find_free_semaphore_slot s = Some i" and "fst (sem_create name n mx s) = next_sem_id s"
    and "semaphore_table (snd (sem_create name n mx s))
      = (semaphore_table s)[i := new_sem (next_sem_id s) name n mx (semaphore_table s ! i)]"
    and "next_sem_id (snd (sem_create name n mx s)) = next_sem_id s + 1"
    and "\<And>m. lookup_sem m ((semaphore_table s)[i := new_sem (next_sem_id s) name n mx (semaphore_table s ! i)])
      = (if m = next_sem_id s then Some i else lookup_sem m (semaphore_table s))"
    and "lookup_sem (next_sem_id s) (semaphore_table s) = None"
proof -
  let ?k = "next_sem_id s"
  obtain i where i: "find_free_semaphore_slot s = Some i" using ok by (auto simp: sem_create_refused_def)
  note slot = find_free_semaphore_SomeD[OF i] and k = sems_okD(3)[OF sems]
  let ?sem = "new_sem ?k name n mx (semaphore_table s ! i)"
  have fresh: "lookup_sem ?k (semaphore_table s) = None"
  proof (rule ccontr)
    assume "lookup_sem ?k (semaphore_table s) \<noteq> None"
    then obtain j where j: "lookup_sem ?k (semaphore_table s) = Some j" by blast
    show False using sems.lookup_SomeD[OF j] sems_okD(1)[OF sems] sems_okD(6)[OF sems, of j] by simp
  qed
  have "fst (sem_create name n mx s) = ?k" "semaphore_table (snd (sem_create name n mx s)) = (semaphore_table s)[i := ?sem]"
    "next_sem_id (snd (sem_create name n mx s)) = ?k + 1"
    using ok i k
    by (auto simp: sem_create_refused_def sem_create_def allocate_sem_id_def new_sem_def Let_def semaphore_table_upd_sem)
  moreover have "lookup_sem m ((semaphore_table s)[i := ?sem]) = (if m = ?k then Some i else lookup_sem m (semaphore_table s))" for m
    using sems.lookup_insert[of i "semaphore_table s" ?sem m] slot k fresh by (simp add: sem_used_def)
  ultimately show thesis using that[OF i] fresh by blast
qed

lemma kernel_inv_sem_create:
  assumes inv: "kernel_inv s" and "max_count \<le> INT_MAX"
  shows "kernel_inv (snd (sem_create name initial_count max_count s))"
proof (cases "sem_create_refused name initial_count max_count s")
  case True
  with sem_create_fails(2)[OF wait_inv_sems_ok[OF kernel_invD(1)[OF inv]]] inv show ?thesis by simp
next
  case False
  note w = kernel_invD(1)[OF inv]
  note sems = wait_inv_sems_ok[OF w]
  let ?n = "next_sem_id s" and ?s' = "snd (sem_create name initial_count max_count s)"
  obtain i where i: "find_free_semaphore_slot s = Some i"
    and st: "semaphore_table ?s' = (semaphore_table s)[i := new_sem ?n name initial_count max_count (semaphore_table s ! i)]"
    and next_id: "next_sem_id ?s' = ?n + 1"
    and lookup: "\<And>m. lookup_sem m ((semaphore_table s)[i := new_sem ?n name initial_count max_count (semaphore_table s ! i)])
      = (if m = ?n then Some i else lookup_sem m (semaphore_table s))"
    and fresh: "lookup_sem ?n (semaphore_table s) = None"
    using sem_create_inserts[OF sems False] by metis
  note slot = find_free_semaphore_SomeD[OF i]
  let ?sem = "new_sem ?n name initial_count max_count (semaphore_table s ! i)"
  have s': "task_table ?s' = task_table s" "next_task_id ?s' = next_task_id s" "dq_items ?s' = dq_items s"
    "dq_ok ?s' = dq_ok s" "current_task ?s' = current_task s"
    by (auto simp: sem_create_def allocate_sem_id_def Let_def split: option.split)
  have ok: "sem_ok ?sem"
    using False assms(2) sems_okD(3)[OF sems]
    by (auto simp: sem_ok_def sem_used_def sem_create_refused_def new_sem_def)
  have sems': "sems_ok (semaphore_table ?s') (next_sem_id ?s')"
    unfolding st next_id using sems slot ok False by (intro sems_ok_insert) (simp_all add: sem_create_refused_def)
  have "queue_of m (semaphore_table ?s') = queue_of m (semaphore_table s)" for m
    using lookup[of m] slot fresh sems.lookup_SomeD(2)[of m "semaphore_table s" i]
    by (auto simp: st queue_of_def nth_list_update split: option.split)
  then have "wait_inv ?s'"
    using w sems' s' by (simp add: wait_inv_def tasks_inv_def sems_inv_def link_ok_def)
  with inv s' show ?thesis by (simp add: kernel_inv_def)
qed

subsection \<open>The services that do not switch\<close>

lemma kernel_inv_sta_tsk:
  assumes "kernel_inv s"
  shows "kernel_inv (snd (sta_tsk k s))"
proof -
  have "core (snd (sta_tsk_ready cur k s)) = core s" for cur and s :: "'a pending_module_scheme"
    by (auto simp: sta_tsk_ready_def Let_def split: option.split)
  then have "kernel_inv (snd (sta_tsk_ready cur k s)) = kernel_inv s" for cur and s :: "'a pending_module_scheme"
    by (rule kernel_inv_core)
  then show ?thesis
    using assms
    by (auto simp: sta_tsk_def Let_def completed_def kernel_inv_start_dormant case_prod_beta split: option.split)
qed

lemma kernel_inv_wup_tsk:
  assumes "kernel_inv s"
  shows "kernel_inv (snd (wup_tsk k s))"
proof -
  have "core (snd (wup_tsk_ready cur k s)) = core s" for cur and s :: "'a pending_module_scheme"
    by (auto simp: wup_tsk_ready_def Let_def split: option.split)
  then have "kernel_inv (snd (wup_tsk_ready cur k s)) = kernel_inv s" for cur and s :: "'a pending_module_scheme"
    by (rule kernel_inv_core)
  then show ?thesis
    using assms
    by (auto simp: wup_tsk_def Let_def completed_def kernel_inv_wake_sleep case_prod_beta split: option.split)
qed

lemma kernel_inv_pol_sem:
  assumes "kernel_inv s"
  shows "kernel_inv (snd (pol_sem m s))"
  using assms
  by (auto simp: pol_sem_def Let_def completed_def kernel_inv_take case_prod_beta split: option.split)

subsection \<open>The request a service leaves\<close>

lemma pending_frames [simp]:
  "dispatch_pending_state (say f s) = dispatch_pending_state s"
  "dispatch_pending_state (upd_tcb i g s) = dispatch_pending_state s"
  "dispatch_pending_state (upd_sem j h s) = dispatch_pending_state s"
  "dispatch_pending_state (completed op e a s) = dispatch_pending_state s"
  by (simp_all add: say_def writes_def upd_tcb_def upd_sem_def completed_def)

lemma more_frames [simp]:
  "delay_module.more (say f s) = delay_module.more s"
  "delay_module.more (upd_tcb i g s) = delay_module.more s"
  "delay_module.more (upd_sem j h s) = delay_module.more s"
  "delay_module.more (set_dq k e s) = delay_module.more s"
  by (simp_all add: say_def writes_def upd_tcb_def upd_sem_def set_dq_def)

lemma more_shift [simp]: "delay_module.more (dq_shift js s) = delay_module.more s"
proof (induction js arbitrary: s)
  case Nil
  show ?case by (simp add: dq_shift_def)
next
  case (Cons j js)
  have "dq_shift (j # js) s = dq_shift js (set_dq j (dq_at (j + 1) s) s)" by (simp add: dq_shift_def)
  with Cons show ?case by simp
qed

lemma more_remove_at [simp]: "delay_module.more (delay_queue_remove_at i s) = delay_module.more s"
  by (simp add: delay_queue_remove_at_def Let_def)

lemma pending_delay_queue:
  fixes s s' :: "'a pending_module_scheme"
  shows "delay_module.more s' = delay_module.more s \<Longrightarrow> dispatch_pending_state s' = dispatch_pending_state s"
  by (cases s; cases s'; simp)

text \<open>
  The request that a service leaves when it has made the task in slot \<open>i\<close> READY: a request of the task
  API when the current task is RUNNING and of worse priority, and the old request otherwise.
\<close>

definition ready_request ::
  "dispatch_pending_reason_t \<Rightarrow> nat option \<Rightarrow> nat \<Rightarrow> 'a pending_module_scheme \<Rightarrow> dispatch_pending_state_t" where
  "ready_request reason cur i s =
     (case cur of
        None \<Rightarrow> dispatch_pending_state s
      | Some c \<Rightarrow>
          if tstate (tcb_at c s) = TASK_STATE_RUNNING \<and> priority (tcb_at i s) < priority (tcb_at c s)
          then \<lparr>requested = True, request_logged = False, source = DISPATCH_PENDING_SOURCE_TASK,
                pending_reason = reason, pending_current = Some c, pending_candidate = Some i,
                current_id = tid (tcb_at c s), candidate_id = tid (tcb_at i s)\<rparr>
          else dispatch_pending_state s)"

text \<open>The change of slot \<open>i\<close> from a state that is not RUNNING leaves the request unchanged.\<close>

lemma ready_request_same:
  assumes "i < length (task_table s)" and "tstate (tcb_at i s) \<noteq> TASK_STATE_RUNNING"
    and "task_table s' = task_table (upd_tcb i (tcb_enter TASK_STATE_READY 0 TASK_WAIT_REASON_NONE 0) s)"
    and "dispatch_pending_state s' = dispatch_pending_state s"
  shows "ready_request r cur i s' = ready_request r cur i s"
  using assms
  by (auto simp: ready_request_def tcb_at_def upd_tcb_def nth_update_eq_if tcb_enter_def split: option.split)

subsection \<open>\<open>sig_sem\<close>\<close>

lemma dequeue_some:
  assumes "find_semaphore_by_id m s = Some j" and "waiters (sem_at j s) = k # ks" and "ring_ok (sem_at j s)"
  shows "\<exists>f. sem_dequeue_waiter m s = ((SEM_OK, Some k), say f (upd_sem j (\<lambda>sem. snd (ring_take sem)) s))"
proof -
  have "wait_count (sem_at j s) \<noteq> 0" using assms(2) by (cases "wait_count (sem_at j s)") (auto simp: waiters_def)
  moreover from this have "fst (ring_take (sem_at j s)) = k"
    using ring_take_waiters(1)[OF assms(3)] assms(2) by simp
  ultimately show ?thesis using assms(1) by (auto simp: sem_dequeue_waiter_def Let_def)
qed

lemma dequeue_none:
  assumes "find_semaphore_by_id m s = Some j" and "waiters (sem_at j s) = []"
  shows "\<exists>f. sem_dequeue_waiter m s = ((SEM_WAIT_QUEUE_EMPTY, None), say f s)"
  using assms by (auto simp: sem_dequeue_waiter_def)

lemma remove_sem_timeout_some:
  assumes "lookup_tcb k (task_table s) = Some i" and "tstate (task_table s ! i) = TASK_STATE_WAITING"
    and "wait_reason (task_table s ! i) = TASK_WAIT_REASON_SEMAPHORE_TIMEOUT"
    and "delay_queue_find_index_by_task_id k s = Some index"
  shows "\<exists>f g. delay_queue_remove_sem_timeout_waiter k s
      = (DELAY_QUEUE_OK, say f (delay_queue_remove_at index (say g s)))"
  using assms tasks.lookup_SomeD(4)[OF assms(1)]
  by (auto simp: delay_queue_remove_sem_timeout_waiter_def task_get_mutable_by_id_def tcb_at_def Let_def)

lemma wake_sem_some:
  assumes "lookup_tcb k (task_table s) = Some i" and "tstate (task_table s ! i) = TASK_STATE_WAITING"
    and "wait_sem_id (task_table s ! i) = m" and "0 < m"
  shows "sem_reason (wait_reason (task_table s ! i)) \<Longrightarrow>
      \<exists>f. task_wake_waiting_on_sem_by_id k m s
        = (0, say f (upd_tcb i (tcb_enter TASK_STATE_READY 0 TASK_WAIT_REASON_NONE 0) s))"
    and "wait_reason (task_table s ! i) = TASK_WAIT_REASON_SEMAPHORE_TIMEOUT \<Longrightarrow>
      \<exists>f. task_wake_waiting_on_sem_timeout_by_id k m s
        = (0, say f (upd_tcb i (tcb_enter TASK_STATE_READY 0 TASK_WAIT_REASON_NONE 0) s))"
  using assms tasks.lookup_SomeD(4)[OF assms(1)]
  by (auto simp: task_wake_waiting_on_sem_by_id_def task_wake_waiting_on_sem_timeout_by_id_def
      task_get_mutable_by_id_def tcb_at_def Let_def sem_reason_def)

lemma filter_removed:
  assumes "distinct (map fst ps)" and "i < length ps"
  shows "take i ps @ drop (Suc i) ps = filter (\<lambda>p. fst p \<noteq> fst (ps ! i)) ps"
proof -
  have split: "ps = take i ps @ ps ! i # drop (Suc i) ps" using id_take_nth_drop[OF assms(2)] .
  then have "distinct (map fst (take i ps @ ps ! i # drop (Suc i) ps))" using assms(1) by simp
  then have "filter (\<lambda>p. fst p \<noteq> fst (ps ! i)) (take i ps) = take i ps"
    and "filter (\<lambda>p. fst p \<noteq> fst (ps ! i)) (drop (Suc i) ps) = drop (Suc i) ps"
    by (auto simp: filter_id_conv) (metis fst_conv imageI)+
  then have "filter (\<lambda>p. fst p \<noteq> fst (ps ! i)) (take i ps @ ps ! i # drop (Suc i) ps)
      = take i ps @ drop (Suc i) ps" by simp
  with split show ?thesis by simp
qed

lemma sig_sem_ready_core [simp]: "core (snd (sig_sem_ready cur k w r s)) = core s"
  and sig_sem_ready_ok [simp]: "fst (sig_sem_ready cur k w r s) = E_OK"
  by (auto simp: sig_sem_ready_def Let_def split: option.split)

lemma sig_sem_ready_request:
  assumes "task_get_by_id k s = Some i" and "tstate (tcb_at i s) = TASK_STATE_READY"
  shows "dispatch_pending_state (snd (sig_sem_ready cur k w r s)) = ready_request DISPATCH_PENDING_TASK_WAKEUP cur i s"
  using assms
  by (auto simp: sig_sem_ready_def ready_request_def dispatch_request_from_task_wakeup_def pending_request_def Let_def
      split: option.split)

text \<open>
  The wakeup after the dequeue, in a state \<open>s\<close> where the id \<open>k\<close> already left its queue: the
  task becomes READY, and a wait with a time limit leaves the delay queue.
\<close>

lemma woken_request:
  assumes k: "lookup_tcb k (task_table s) = Some i" "tstate (task_table s ! i) = TASK_STATE_WAITING"
    and s1: "task_table s1 = task_table s" "dispatch_pending_state s1 = dispatch_pending_state s"
  shows "dispatch_pending_state (snd (sig_sem_ready cur k w r
      (say f (upd_tcb i (tcb_enter TASK_STATE_READY 0 TASK_WAIT_REASON_NONE 0) s1))))
    = ready_request DISPATCH_PENDING_TASK_WAKEUP cur i s"
proof -
  let ?s = "say f (upd_tcb i (tcb_enter TASK_STATE_READY 0 TASK_WAIT_REASON_NONE 0) s1)"
  note i = tasks.lookup_SomeD(1)[OF k(1)]
  have "task_get_by_id k ?s = Some i" "tstate (tcb_at i ?s) = TASK_STATE_READY"
    using lookup_upd_enter[of k s1 i TASK_STATE_READY k] k(1) i s1(1)
    by (simp_all add: task_get_by_id_def tcb_at_def task_table_upd_tcb)
  from sig_sem_ready_request[OF this] have "dispatch_pending_state (snd (sig_sem_ready cur k w r ?s))
    = ready_request DISPATCH_PENDING_TASK_WAKEUP cur i ?s" .
  also have "\<dots> = ready_request DISPATCH_PENDING_TASK_WAKEUP cur i s"
    using i k(2) s1 by (intro ready_request_same) (simp_all add: tcb_at_def task_table_upd_tcb)
  finally show ?thesis .
qed

lemma sig_sem_wake_spec:
  assumes k: "lookup_tcb k (task_table s) = Some i" "tstate (task_table s ! i) = TASK_STATE_WAITING"
    and r: "sem_reason (wait_reason (task_table s ! i))" "wait_sem_id (task_table s ! i) = m" "0 < m"
    and dq: "dq_ok s" "\<And>d. (k, d) \<in> set (dq_items s) \<longleftrightarrow> timed_wait (task_table s ! i) = Some d"
  shows "\<exists>s'. sig_sem_wake cur m k s = (E_OK, s') \<and>
    task_table s' = (task_table s)[i := tcb_enter TASK_STATE_READY 0 TASK_WAIT_REASON_NONE 0 (task_table s ! i)] \<and>
    next_task_id s' = next_task_id s \<and> semaphore_table s' = semaphore_table s \<and> next_sem_id s' = next_sem_id s \<and>
    dq_ok s' \<and> dq_items s' = filter (\<lambda>p. fst p \<noteq> k) (dq_items s) \<and> current_task s' = current_task s \<and>
    dispatch_pending_state s' = ready_request DISPATCH_PENDING_TASK_WAKEUP cur i s"
proof (cases "wait_reason (task_table s ! i) = TASK_WAIT_REASON_SEMAPHORE_TIMEOUT")
  case False
  then have reason: "wait_reason (task_table s ! i) = TASK_WAIT_REASON_SEMAPHORE"
    using r(1) by (simp add: sem_reason_def)
  define s1 where "s1 = tcb_say i (\<lambda>t. [''[sem] wakeup: semid='', mag_str m, '' task'']
      @ itron_api_log_task_id_name t
      @ ['' reason='', itron_api_wait_reason_name TASK_WAIT_REASON_SEMAPHORE, ''\<newline>'']) s"
  obtain f where f: "task_wake_waiting_on_sem_by_id k m s1
      = (0, say f (upd_tcb i (tcb_enter TASK_STATE_READY 0 TASK_WAIT_REASON_NONE 0) s1))"
    using wake_sem_some(1)[of k s1 i m] k r by (auto simp: s1_def)
  let ?ready = "sig_sem_ready cur k i TASK_WAIT_REASON_SEMAPHORE
      (say f (upd_tcb i (tcb_enter TASK_STATE_READY 0 TASK_WAIT_REASON_NONE 0) s1))"
  have "sig_sem_wake cur m k s = (let (r, s') = task_wake_waiting_on_sem_by_id k m s1
      in if r \<noteq> 0 then (E_OBJ, completed ''sig-sem'' E_OBJ ''wakeup-failed'' s')
         else sig_sem_ready cur k i TASK_WAIT_REASON_SEMAPHORE s')"
    unfolding s1_def using k(1) reason by (simp add: sig_sem_wake_def task_get_by_id_def tcb_at_def)
  with f have "sig_sem_wake cur m k s = ?ready" by simp
  then have wake: "sig_sem_wake cur m k s = (E_OK, snd ?ready)"
    using sig_sem_ready_ok[of cur k i TASK_WAIT_REASON_SEMAPHORE] by (metis prod.collapse)
  have "\<forall>d. (k, d) \<notin> set (dq_items s)"
    using dq(2) reason by (simp add: timed_wait_def timed_reason_def)
  then have "filter (\<lambda>p. fst p \<noteq> k) (dq_items s) = dq_items s" by (intro filter_True) auto
  moreover have "task_table s1 = task_table s" "dispatch_pending_state s1 = dispatch_pending_state s"
    by (simp_all add: s1_def)
  then have "dispatch_pending_state (snd ?ready) = ready_request DISPATCH_PENDING_TASK_WAKEUP cur i s"
    by (rule woken_request[OF k])
  ultimately show ?thesis using wake dq(1) core_eqD[OF sig_sem_ready_core[of cur k i TASK_WAIT_REASON_SEMAPHORE
        "say f (upd_tcb i (tcb_enter TASK_STATE_READY 0 TASK_WAIT_REASON_NONE 0) s1)"]]
    by (intro exI[of _ "snd ?ready"]) (simp add: task_table_upd_tcb s1_def)
next
  case True
  define s1 where "s1 = tcb_say i (\<lambda>t. [''[sem] wakeup: semid='', mag_str m, '' task'']
      @ itron_api_log_task_id_name t
      @ ['' reason='', itron_api_wait_reason_name TASK_WAIT_REASON_SEMAPHORE_TIMEOUT, ''\<newline>'']) s"
  have "(k, delay_ticks_remaining (task_table s ! i)) \<in> set (dq_items s1)"
    using dq(2) True by (simp add: timed_wait_def timed_reason_def s1_def)
  then have "k \<in> fst ` set (dq_items s1)" by force
  then obtain index where index: "delay_queue_find_index_by_task_id k s1 = Some index"
    using find_index_None[of k s1] by auto
  obtain f g where remove: "delay_queue_remove_sem_timeout_waiter k s1
      = (DELAY_QUEUE_OK, say f (delay_queue_remove_at index (say g s1)))"
    using remove_sem_timeout_some[of k s1 i index] k True index by (auto simp: s1_def)
  define s2 where "s2 = say f (delay_queue_remove_at index (say g s1))"
  obtain h where h: "task_wake_waiting_on_sem_timeout_by_id k m s2
      = (0, say h (upd_tcb i (tcb_enter TASK_STATE_READY 0 TASK_WAIT_REASON_NONE 0) s2))"
    using wake_sem_some(2)[of k s2 i m] k r True by (auto simp: s2_def s1_def)
  let ?ready = "sig_sem_ready cur k i TASK_WAIT_REASON_SEMAPHORE_TIMEOUT
      (say h (upd_tcb i (tcb_enter TASK_STATE_READY 0 TASK_WAIT_REASON_NONE 0) s2))"
  have "sig_sem_wake cur m k s = (let (q, s') = delay_queue_remove_sem_timeout_waiter k s1
      in if q \<noteq> DELAY_QUEUE_OK then (E_OBJ, completed ''sig-sem'' E_OBJ ''delay-queue-remove-failed'' s')
         else let (r, s') = task_wake_waiting_on_sem_timeout_by_id k m s'
      in if r \<noteq> 0 then (E_OBJ, completed ''sig-sem'' E_OBJ ''wakeup-failed'' s')
         else sig_sem_ready cur k i TASK_WAIT_REASON_SEMAPHORE_TIMEOUT s')"
    unfolding s1_def using k(1) True by (simp add: sig_sem_wake_def task_get_by_id_def tcb_at_def)
  with remove h have "sig_sem_wake cur m k s = ?ready" by (simp add: s2_def)
  then have wake: "sig_sem_wake cur m k s = (E_OK, snd ?ready)"
    using sig_sem_ready_ok[of cur k i TASK_WAIT_REASON_SEMAPHORE_TIMEOUT] by (metis prod.collapse)
  have ok1: "dq_ok s1" using dq(1) by (simp add: s1_def)
  have at: "index < delay_queue_count s1" "fst (dq_items s1 ! index) = k"
    using first_index_SomeD[OF index[unfolded find_index_items]] length_dq_items[OF ok1] by simp_all
  have "dq_items s2 = filter (\<lambda>p. fst p \<noteq> k) (dq_items s)"
    using filter_removed[of "dq_items s1" index] at ok1 length_dq_items[OF ok1]
    by (simp add: s2_def dq_items_remove_at dq_ok_def s1_def)
  moreover have "dq_ok s2" using at(1) ok1 by (simp add: s2_def dq_ok_remove_at)
  moreover have "dispatch_pending_state (snd ?ready) = ready_request DISPATCH_PENDING_TASK_WAKEUP cur i s"
  proof (rule woken_request[OF k])
    show "task_table s2 = task_table s" by (simp add: s2_def s1_def)
    have "delay_module.more s2 = delay_module.more s" by (simp add: s2_def s1_def)
    then show "dispatch_pending_state s2 = dispatch_pending_state s" by (rule pending_delay_queue)
  qed
  ultimately show ?thesis
    using wake core_eqD[OF sig_sem_ready_core[of cur k i TASK_WAIT_REASON_SEMAPHORE_TIMEOUT
        "say h (upd_tcb i (tcb_enter TASK_STATE_READY 0 TASK_WAIT_REASON_NONE 0) s2)"]]
    by (intro exI[of _ "snd ?ready"]) (simp add: task_table_upd_tcb s2_def s1_def)
qed


text \<open>
  The abstract semaphore: count, limit and the waiting ids, first come first. \<open>signal_spec\<close> is
  the contract of \<open>sig_sem\<close> on it: the result code, the semaphore, and the id it wakes.
\<close>

definition sem_view :: "int \<Rightarrow> semaphore_t list \<Rightarrow> (int \<times> int \<times> int list) option" where
  "sem_view m st = map_option (\<lambda>i. (sem_count (st ! i), sem_max_count (st ! i), waiters (st ! i))) (lookup_sem m st)"

fun signal_spec :: "int \<times> int \<times> int list \<Rightarrow> int \<times> (int \<times> int \<times> int list) \<times> int option" where
  "signal_spec (c, mx, k # ks) = (E_OK, (c, mx, ks), Some k)"
| "signal_spec (c, mx, []) = (if c < mx then (E_OK, (c + 1, mx, []), None) else (E_QOVR, (c, mx, []), None))"

definition woken :: "tcb_t \<Rightarrow> tcb_t" where
  "woken t = tcb_enter TASK_STATE_READY 0 TASK_WAIT_REASON_NONE 0 t"

lemma sem_view_find:
  "find_semaphore_by_id m s = Some j \<Longrightarrow>
    sem_view m (semaphore_table s) = Some (sem_count (sem_at j s), sem_max_count (sem_at j s), waiters (sem_at j s))"
  by (simp add: sem_view_def find_semaphore_by_id_def sem_at_def)

lemma sem_view_queue: "queue_of m st = (case sem_view m st of None \<Rightarrow> [] | Some (c, mx, q) \<Rightarrow> q)"
  by (simp add: queue_of_def sem_view_def split: option.split)

lemma sem_view_update:
  assumes "lookup_sem h st = Some i" and "sem_ident sem = h"
  shows "sem_view m (st[i := sem])
    = (if m = h then Some (sem_count sem, sem_max_count sem, waiters sem) else sem_view m st)"
proof -
  note i = sems.lookup_SomeD[OF assms(1)]
  have same: "lookup_sem m (st[i := sem]) = lookup_sem m st"
    using i assms by (intro sems.lookup_update_same) (simp_all add: sem_used_def)
  show ?thesis
  proof (cases "m = h")
    case True
    with same assms i show ?thesis by (simp add: sem_view_def)
  next
    case False
    then have "lookup_sem m st \<noteq> Some i" using i sems.lookup_SomeD(3)[of m st i] by auto
    with False same show ?thesis by (cases "lookup_sem m st") (auto simp: sem_view_def)
  qed
qed

text \<open>Every queued task waits for that semaphore.\<close>

lemma queued_task:
  assumes "wait_inv s" and "k \<in> set (queue_of m (semaphore_table s))"
  obtains i where "lookup_tcb k (task_table s) = Some i" and "tstate (task_table s ! i) = TASK_STATE_WAITING"
    and "sem_reason (wait_reason (task_table s ! i))" and "wait_sem_id (task_table s ! i) = m"
proof -
  have w: "wait_of k (task_table s) = Some m"
    using wait_invD(4)[OF assms(1), of k] assms(2) by (simp add: link_ok_def)
  then obtain i where i: "lookup_tcb k (task_table s) = Some i" using wait_of_SomeD by blast
  with w have r: "sem_reason (wait_reason (task_table s ! i))" "wait_sem_id (task_table s ! i) = m"
    by (auto simp: wait_of_lookup sem_wait_def split: if_splits)
  with wait_inv_data[OF assms(1) i] have "tstate (task_table s ! i) = TASK_STATE_WAITING"
    by (auto simp: wait_data_ok_def sem_reason_def)
  from that[OF i this r] show thesis .
qed

lemma queued_delay:
  assumes "wait_inv s" and "lookup_tcb k (task_table s) = Some i"
  shows "(k, d) \<in> set (dq_items s) \<longleftrightarrow> timed_wait (task_table s ! i) = Some d"
  using wait_invD(4)[OF assms(1), of k] assms(2) by (simp add: link_ok_def delay_of_def tcb_of_def)


text \<open>\<open>sig_sem\<close> implements the contract, and its other effects are those of ending the wait.\<close>

lemma sig_sem_dispatch:
  assumes m: "find_semaphore_by_id m s = Some j" and w: "waiters (sem_at j s) = k # ks" "ring_ok (sem_at j s)"
  shows "\<exists>s2. sig_sem m s = sig_sem_wake (current_task s) m k s2 \<and>
    core s2 = core (upd_sem j (\<lambda>sem. snd (ring_take sem)) s) \<and>
    dispatch_pending_state s2 = dispatch_pending_state s"
proof -
  define s1 where "s1 = say (\<lambda>s'. [''[sig-sem] called: semid='', mag_str m] @ log_current (current_task s) s') s"
  have m1: "find_semaphore_by_id m s1 = Some j" and at: "sem_at j s1 = sem_at j s"
    using m by (simp_all add: s1_def)
  obtain f where f: "sem_dequeue_waiter m s1 = ((SEM_OK, Some k), say f (upd_sem j (\<lambda>sem. snd (ring_take sem)) s1))"
    using dequeue_some[OF m1] w at by metis
  have "sig_sem m s = (let ((r, w), s') = sem_dequeue_waiter m s1 in sig_sem_wake (current_task s) m k s')"
    unfolding sig_sem_def Let_def dispatcher_get_current_def s1_def[symmetric]
    using m1 f by (simp add: sem_get_by_id_def)
  with f have "sig_sem m s = sig_sem_wake (current_task s) m k (say f (upd_sem j (\<lambda>sem. snd (ring_take sem)) s1))"
    by simp
  moreover have "core (say f (upd_sem j (\<lambda>sem. snd (ring_take sem)) s1))
      = core (upd_sem j (\<lambda>sem. snd (ring_take sem)) s)"
    by (simp add: core_def semaphore_table_upd_sem s1_def)
  moreover have "dispatch_pending_state (say f (upd_sem j (\<lambda>sem. snd (ring_take sem)) s1)) = dispatch_pending_state s"
    by (simp add: s1_def)
  ultimately show ?thesis by blast
qed

lemma sig_sem_wakes:
  assumes inv: "kernel_inv s" and view: "sem_view m (semaphore_table s) = Some (c, mx, k # ks)"
  shows "\<exists>s' i. sig_sem m s = (E_OK, s') \<and> kernel_inv s' \<and> lookup_tcb k (task_table s) = Some i \<and>
    task_table s' = (task_table s)[i := woken (task_table s ! i)] \<and>
    sem_view m (semaphore_table s') = Some (c, mx, ks) \<and>
    (\<forall>m'. m' \<noteq> m \<longrightarrow> sem_view m' (semaphore_table s') = sem_view m' (semaphore_table s)) \<and>
    dq_items s' = filter (\<lambda>p. fst p \<noteq> k) (dq_items s) \<and> current_task s' = current_task s \<and>
    dispatch_pending_state s' = ready_request DISPATCH_PENDING_TASK_WAKEUP (current_task s) i s"
proof -
  note w = kernel_invD(1)[OF inv]
  obtain j where lookup: "lookup_sem m (semaphore_table s) = Some j"
    and sem: "sem_count (semaphore_table s ! j) = c" "sem_max_count (semaphore_table s ! j) = mx"
      "waiters (semaphore_table s ! j) = k # ks"
    using view by (auto simp: sem_view_def)
  then have m: "find_semaphore_by_id m s = Some j" by (simp add: find_semaphore_by_id_def)
  note sj = find_semaphore_SomeD[OF m]
  let ?sem = "snd (ring_take (sem_at j s))"
  have ok: "sem_ok (sem_at j s)" by (rule kernel_inv_sem_ok[OF inv m])
  have ks: "waiters (sem_at j s) = k # ks" and ring: "ring_ok (sem_at j s)"
    using sem ok by (simp_all add: sem_at_def sem_ok_def)
  obtain s2 where sig: "sig_sem m s = sig_sem_wake (current_task s) m k s2"
    and core2: "core s2 = core (upd_sem j (\<lambda>sem. snd (ring_take sem)) s)"
    and pending2: "dispatch_pending_state s2 = dispatch_pending_state s"
    using sig_sem_dispatch[OF m ks ring] by blast
  have s2: "task_table s2 = task_table s" "next_task_id s2 = next_task_id s" "next_sem_id s2 = next_sem_id s"
    "semaphore_table s2 = (semaphore_table s)[j := ?sem]" "dq_items s2 = dq_items s" "dq_ok s2 = dq_ok s"
    "current_task s2 = current_task s"
    using core_eqD[OF core2] by (simp_all add: semaphore_table_upd_sem sem_at_def)
  have "k \<in> set (queue_of m (semaphore_table s))" using queue_of_find[OF m] ks by simp
  then obtain i where i: "lookup_tcb k (task_table s) = Some i"
    and wait: "tstate (task_table s ! i) = TASK_STATE_WAITING" "sem_reason (wait_reason (task_table s ! i))"
      "wait_sem_id (task_table s ! i) = m"
    using queued_task[OF w] by metis
  obtain s' where wake: "sig_sem m s = (E_OK, s')"
    and s': "task_table s' = (task_table s)[i := woken (task_table s ! i)]"
      "next_task_id s' = next_task_id s" "semaphore_table s' = (semaphore_table s)[j := ?sem]"
      "next_sem_id s' = next_sem_id s" "dq_ok s'" "dq_items s' = filter (\<lambda>p. fst p \<noteq> k) (dq_items s)"
      "current_task s' = current_task s"
      "dispatch_pending_state s' = ready_request DISPATCH_PENDING_TASK_WAKEUP (current_task s) i s2"
    using sig_sem_wake_spec[of k s2 i m "current_task s"] i wait sj(4) queued_delay[OF w i] wait_invD(3)[OF w]
    unfolding sig s2 woken_def by auto
  have "waiters (sem_at j s) \<noteq> []" using ks by simp
  then have take: "sem_ok ?sem" "waiters ?sem = ks" "sem_ident ?sem = m" "sem_count ?sem = c" "sem_max_count ?sem = mx"
    using sem_ok_take[OF ok] ring_take_waiters(2)[OF ring] ks sj sem
    by (simp_all add: sem_at_def ring_take_def del: waiters_nil)
  have view': "sem_view m' (semaphore_table s')
      = (if m' = m then Some (c, mx, ks) else sem_view m' (semaphore_table s))" for m'
    using sem_view_update[OF lookup take(3)] take by (simp add: s')
  have q: "queue_of m' (semaphore_table s') = (if m' = m then ks else queue_of m' (semaphore_table s))" for m'
    using view'[of m'] by (simp add: sem_view_queue)
  have "wait_inv s'"
  proof (rule wait_inv_wake[OF w i])
    show "task_table s' = (task_table s)[i := tcb_enter TASK_STATE_READY 0 TASK_WAIT_REASON_NONE 0 (task_table s ! i)]"
      using s'(1) by (simp add: woken_def)
    show "sems_ok (semaphore_table s') (next_sem_id s')"
      unfolding s' using wait_inv_sems_ok[OF w] sj take by (intro sems_ok_update) (simp_all add: sem_at_def)
    have "k \<notin> set ks" using ok ks by (simp add: sem_ok_def)
    moreover have "k \<notin> set (queue_of m' (semaphore_table s))" if "m' \<noteq> m" for m'
      using wait_invD(4)[OF w, of k] that wait i by (simp add: link_ok_def wait_of_lookup sem_wait_def)
    ultimately show "set (queue_of m' (semaphore_table s')) = set (queue_of m' (semaphore_table s)) - {k}" for m'
      using ks queue_of_find[OF m] by (auto simp: q)
  qed (use s' in auto)
  then have "kernel_inv s'"
    using kernel_inv_task_change[OF inv s'(1,7)] by (simp add: woken_def)
  moreover have "ready_request r cur i s2 = ready_request r cur i s" for r cur
    using s2(1) pending2 by (simp add: ready_request_def tcb_at_def split: option.split)
  ultimately show ?thesis using wake i s' view' by auto
qed


lemma sem_view_None: "sem_view m (semaphore_table s) = None \<longleftrightarrow> find_semaphore_by_id m s = None"
  by (simp add: sem_view_def find_semaphore_by_id_def)

lemma sig_sem_counts:
  assumes inv: "kernel_inv s" and view: "sem_view m (semaphore_table s) = Some (c, mx, [])"
  shows "\<exists>s'. sig_sem m s = ((if c < mx then E_OK else E_QOVR), s') \<and> kernel_inv s' \<and>
    task_table s' = task_table s \<and>
    sem_view m (semaphore_table s') = Some (if c < mx then c + 1 else c, mx, []) \<and>
    (\<forall>m'. m' \<noteq> m \<longrightarrow> sem_view m' (semaphore_table s') = sem_view m' (semaphore_table s)) \<and>
    dq_items s' = dq_items s \<and> current_task s' = current_task s \<and>
    dispatch_pending_state s' = dispatch_pending_state s"
proof -
  obtain j where lookup: "lookup_sem m (semaphore_table s) = Some j"
    and sem: "sem_count (semaphore_table s ! j) = c" "sem_max_count (semaphore_table s ! j) = mx"
      "waiters (semaphore_table s ! j) = []"
    using view by (auto simp: sem_view_def)
  then have m: "find_semaphore_by_id m s = Some j" by (simp add: find_semaphore_by_id_def)
  define s1 where "s1 = say (\<lambda>s'. [''[sig-sem] called: semid='', mag_str m] @ log_current (current_task s) s') s"
  have m1: "find_semaphore_by_id m s1 = Some j" and at: "sem_at j s1 = semaphore_table s ! j"
    and inv1: "kernel_inv s1" and core1: "core s1 = core s"
    using m inv by (simp_all add: s1_def sem_at_def)
  obtain f where f: "sem_dequeue_waiter m s1 = ((SEM_WAIT_QUEUE_EMPTY, None), say f s1)"
    using dequeue_none[OF m1] sem at by metis
  define s2 where "s2 = say f s1"
  have sig: "core (snd (sig_sem m s)) = core (snd (sem_increment_count m s2)) \<and>
      fst (sig_sem m s) = (if fst (fst (sem_increment_count m s2)) = SEM_OK then E_OK else E_QOVR) \<and>
      dispatch_pending_state (snd (sig_sem m s)) = dispatch_pending_state (snd (sem_increment_count m s2))"
    unfolding sig_sem_def Let_def dispatcher_get_current_def s1_def[symmetric]
    using m1 f by (simp add: sem_get_by_id_def s2_def case_prod_beta)
  have s2: "find_semaphore_by_id m s2 = Some j" "sem_at j s2 = semaphore_table s ! j" "kernel_inv s2"
    "core s2 = core s"
    using m1 at inv1 core1 by (simp_all add: s2_def)
  note c2 = core_eqD[OF s2(4)]
  let ?s' = "snd (sem_increment_count m s2)"
  have "kernel_inv ?s'" using kernel_inv_increment[OF s2(3), of m] s2(1,2) sem by simp
  moreover have "task_table ?s' = task_table s" "dq_items ?s' = dq_items s" "current_task ?s' = current_task s"
    using s2(1) c2 by (simp_all add: sem_increment_count_def Let_def)
  moreover have "sem_view m' (semaphore_table ?s')
      = (if m' = m then Some (if c < mx then c + 1 else c, mx, []) else sem_view m' (semaphore_table s))" for m'
  proof (cases "c < mx")
    case True
    let ?sem = "(semaphore_table s ! j)\<lparr>sem_count := c + 1\<rparr>"
    have "semaphore_table ?s' = (semaphore_table s)[j := ?sem]"
      using True s2 c2 sem by (simp add: sem_increment_count_def Let_def semaphore_table_upd_sem sem_at_def)
    moreover have "sem_ident ?sem = m" using find_semaphore_SomeD(3)[OF m] by (simp add: sem_at_def)
    ultimately show ?thesis using True sem_view_update[OF lookup, of ?sem m'] sem by simp
  next
    case False
    then have "semaphore_table ?s' = semaphore_table s"
      using s2 c2 sem by (simp add: sem_increment_count_def Let_def)
    with False view show ?thesis by simp
  qed
  moreover have "dispatch_pending_state ?s' = dispatch_pending_state s"
    by (simp add: sem_increment_count_def s2_def s1_def Let_def split: option.split)
  moreover have "fst (fst (sem_increment_count m s2)) = SEM_OK \<longleftrightarrow> c < mx"
    using s2 sem by (auto simp: sem_increment_count_def Let_def)
  ultimately show ?thesis
    using sig kernel_inv_core[of "snd (sig_sem m s)" ?s'] core_eqD[of "snd (sig_sem m s)" ?s']
    by (intro exI[of _ "snd (sig_sem m s)"]) (simp add: prod_eq_iff)
qed

lemma sig_sem_unknown:
  assumes "sem_view m (semaphore_table s) = None"
  shows "fst (sig_sem m s) = E_ID" and "core (snd (sig_sem m s)) = core s"
    and "dispatch_pending_state (snd (sig_sem m s)) = dispatch_pending_state s"
proof -
  define s1 where "s1 = say (\<lambda>s'. [''[sig-sem] called: semid='', mag_str m] @ log_current (current_task s) s') s"
  have none: "sem_get_by_id m s1 = None" and core1: "core s1 = core s"
    and pending1: "dispatch_pending_state s1 = dispatch_pending_state s"
    using assms[unfolded sem_view_None] by (simp_all add: s1_def sem_get_by_id_def)
  have "sig_sem m s = (E_ID, completed ''sig-sem'' E_ID ''invalid-semaphore''
      (say (\<lambda>s'. [''[sig-sem] rejected: reason=invalid-semaphore semid='', mag_str m, ''\<newline>'']) s1))"
    unfolding sig_sem_def Let_def dispatcher_get_current_def s1_def[symmetric]
    by (simp only: none simp_thms if_True)
  then show "fst (sig_sem m s) = E_ID" and "core (snd (sig_sem m s)) = core s"
    and "dispatch_pending_state (snd (sig_sem m s)) = dispatch_pending_state s" using core1 pending1 by auto
qed

lemma kernel_inv_sig_sem:
  assumes "kernel_inv s"
  shows "kernel_inv (snd (sig_sem m s))"
proof (cases "sem_view m (semaphore_table s)")
  case None
  with kernel_inv_core[OF sig_sem_unknown(2)[OF None]] assms show ?thesis by simp
next
  case (Some v)
  then obtain c mx q where v: "sem_view m (semaphore_table s) = Some (c, mx, q)" by (cases v) auto
  show ?thesis
  proof (cases q)
    case Nil
    obtain r s' where "sig_sem m s = (r, s')" "kernel_inv s'"
      using sig_sem_counts[OF assms v[unfolded Nil]] by blast
    then show ?thesis by simp
  next
    case (Cons k ks)
    obtain r s' where "sig_sem m s = (r, s')" "kernel_inv s'"
      using sig_sem_wakes[OF assms v[unfolded Cons]] by blast
    then show ?thesis by simp
  qed
qed

end
