(* ===== verification/Tick_Frame.thy ===== *)
theory Tick_Frame
  imports Kernel_Inv
begin

section \<open>Ticks, preemption and requests keep the invariant\<close>

text \<open>
  The tick of the delay queue leaves everything above the delay queue alone: the tick counter,
  the contexts, the current task, the pending request. Together with the refinement of the tick
  this gives the invariant for the whole timer interrupt.
\<close>

subsection \<open>What a tick does not touch\<close>

lemma more_expire [simp]: "delay_module.more (delay_queue_expire t r k s) = delay_module.more s"
proof -
  have "delay_module.more (snd (sem_remove_waiter m k s)) = delay_module.more s" for m k and s :: "'a delay_module_scheme"
    by (simp add: sem_remove_waiter_def Let_def case_prod_beta split: option.split)
  moreover have "delay_module.more (snd (task_wake_waiting_on_sem_timeout_by_id k m s)) = delay_module.more s"
    "delay_module.more (snd (task_wake_waiting_on_delay_by_id k s)) = delay_module.more s"
    for m k and s :: "'a delay_module_scheme"
    by (simp_all add: task_wake_waiting_on_sem_timeout_by_id_def task_wake_waiting_on_delay_by_id_def
        Let_def split: option.split)
  ultimately show ?thesis
    by (simp add: delay_queue_expire_def Let_def case_prod_beta split: option.split)
qed

lemma more_tick_entry:
  "delay_queue_tick_entry i e s = (i', e', s') \<Longrightarrow> delay_module.more s' = delay_module.more s"
  by (auto simp: delay_queue_tick_entry_def delay_queue_tick_down_def delay_queue_timeout_def Let_def
      split: option.splits if_splits)

lemma more_tick_loop: "delay_module.more (snd (delay_queue_tick_loop i e s)) = delay_module.more s"
proof (induction i e s rule: delay_queue_tick_loop.induct)
  case (1 i e s)
  show ?case
  proof (cases "i < delay_queue_count s")
    case True
    obtain i' e' s' where step: "delay_queue_tick_entry i e s = (i', e', s')" by (metis prod_cases3)
    with 1[OF True step[symmetric]] more_tick_entry[OF step] True show ?thesis
      by (simp add: delay_queue_tick_loop.simps[of i e s])
  next
    case False
    then show ?thesis by (simp add: delay_queue_tick_loop.simps[of i e s])
  qed
qed

lemma more_tick: "delay_module.more (snd (delay_queue_tick s)) = delay_module.more s"
  by (simp add: delay_queue_tick_def Let_def case_prod_beta more_tick_loop)

lemma more_fields:
  fixes s s' :: "'a pending_module_scheme"
  assumes "delay_module.more s' = delay_module.more s"
  shows "current_task s' = current_task s" and "system_ticks s' = system_ticks s"
    and "dispatch_pending_state s' = dispatch_pending_state s" and "boot_context s' = boot_context s"
    and "active_task s' = active_task s" and "stack_mem s' = stack_mem s"
  using assms by (cases s; cases s'; simp)+

subsection \<open>The timer tick\<close>

lemma tick_tcb_state:
  assumes "wait_data_ok t"
  shows "tcb_used (tick_tcb t) = tcb_used t"
    and "tstate (tick_tcb t) = TASK_STATE_RUNNING \<Longrightarrow> tstate t = TASK_STATE_RUNNING"
  using assms by (cases "wait_reason t"; auto simp: tick_tcb_def tcb_used_def wait_data_ok_def timed_reason_def
      split: if_splits)+

lemma timer_tick_refines:
  fixes s :: "'a pending_module_scheme"
  assumes "kernel_inv s"
  shows "kernel_inv (timer_tick s)" and "system_ticks (timer_tick s) = system_ticks s + 1"
    and "task_table (timer_tick s) = map tick_tcb (task_table s)"
    and "dq_items (timer_tick s) = tick_items (dq_items s)"
    and "queue_of m (semaphore_table (timer_tick s))
      = filter (\<lambda>k. k \<notin> set (expired_ids (dq_items s))) (queue_of m (semaphore_table s))"
    and "current_task (timer_tick s) = current_task s"
    and "dispatch_pending_state (timer_tick s) = dispatch_pending_state s"
proof -
  let ?s = "say (\<lambda>s. [''[timer] tick: count='', ulong_str (system_ticks s), ''\<newline>''])
    (s\<lparr>system_ticks := system_ticks s + 1\<rparr>)"
  have tick: "timer_tick s = snd (delay_queue_tick ?s)" by (simp add: timer_tick_def)
  have eq: "task_table ?s = task_table s" "dq_items ?s = dq_items s" "semaphore_table ?s = semaphore_table s"
    by (simp_all add: dq_items_def)
  have "core ?s = core s" by (simp add: core_def)
  then have inv: "kernel_inv ?s" using kernel_inv_core assms by metis
  obtain s' where s': "delay_queue_tick ?s = (int (length (expired_ids (dq_items s))), s')" "wait_inv s'"
    "task_table s' = map tick_tcb (task_table s)" "dq_items s' = tick_items (dq_items s)"
    "\<forall>m. queue_of m (semaphore_table s')
       = filter (\<lambda>k. k \<notin> set (expired_ids (dq_items s))) (queue_of m (semaphore_table s))"
    using delay_queue_tick_refines[OF kernel_invD(1)[OF inv]] unfolding eq by blast
  have "delay_module.more s' = delay_module.more ?s" using more_tick[of ?s] s'(1) by simp
  note more = more_fields[OF this]
  have data: "wait_data_ok t" if "t \<in> set (task_table s)" for t
    using kernel_invD(1)[OF assms] that by (simp add: wait_inv_def tasks_inv_def tasks_ok_def)
  have run: "run_ok (map tick_tcb (task_table s)) (current_task s)"
    by (rule run_ok_map[OF kernel_invD(2)[OF assms]])
      (use data tick_tcb_state in auto)
  show "kernel_inv (timer_tick s)" "system_ticks (timer_tick s) = system_ticks s + 1"
    "task_table (timer_tick s) = map tick_tcb (task_table s)"
    "dq_items (timer_tick s) = tick_items (dq_items s)"
    "queue_of m (semaphore_table (timer_tick s))
      = filter (\<lambda>k. k \<notin> set (expired_ids (dq_items s))) (queue_of m (semaphore_table s))"
    "current_task (timer_tick s) = current_task s"
    "dispatch_pending_state (timer_tick s) = dispatch_pending_state s"
    using s' more run by (simp_all add: tick kernel_inv_def say_def writes_def)
qed


subsection \<open>What a tick leaves of the semaphores\<close>

text \<open>Id, count and limit: a tick only shortens wait queues.\<close>

definition sem_static :: "semaphore_t \<Rightarrow> int \<times> int \<times> int" where
  "sem_static sem = (sem_ident sem, sem_count sem, sem_max_count sem)"

definition sems_static :: "'a semaphore_module_scheme \<Rightarrow> (int \<times> int \<times> int) list" where
  "sems_static s = map sem_static (semaphore_table s)"

lemma sems_static_frame: "semaphore_table s' = semaphore_table s \<Longrightarrow> sems_static s' = sems_static s"
  by (simp add: sems_static_def)

lemma sems_static_frames [simp]:
  "sems_static (say f s) = sems_static s" "sems_static (upd_tcb i g s) = sems_static s"
  by (rule sems_static_frame, simp)+

lemma sems_static_queue [simp]:
  "sems_static (set_dq k e s) = sems_static s" "sems_static (delay_queue_remove_at i s) = sems_static s"
  by (rule sems_static_frame, simp)+

lemma sems_static_remove [simp]: "sems_static (snd (sem_remove_waiter m k s)) = sems_static s"
proof -
  have "sems_static (upd_sem j (\<lambda>sem. ring_rebuild (q sem) sem) s) = sems_static s" for j q and s :: "'a semaphore_module_scheme"
    by (cases "j < length (semaphore_table s)")
      (simp_all add: sems_static_def semaphore_table_upd_sem map_update sem_static_def list_update_same_conv
        list_update_beyond)
  then show ?thesis by (simp add: sem_remove_waiter_def Let_def split: option.split)
qed

lemma sems_static_expire [simp]: "sems_static (delay_queue_expire t r k s) = sems_static s"
proof -
  have "sems_static (snd (task_wake_waiting_on_sem_timeout_by_id k m s)) = sems_static s"
    "sems_static (snd (task_wake_waiting_on_delay_by_id k s)) = sems_static s"
    for m k and s :: "'a delay_module_scheme"
    by (simp_all add: task_wake_waiting_on_sem_timeout_by_id_def task_wake_waiting_on_delay_by_id_def
        Let_def split: option.split)
  then show ?thesis by (simp add: delay_queue_expire_def Let_def case_prod_beta split: option.split)
qed

lemma sems_static_entry:
  "delay_queue_tick_entry i e s = (i', e', s') \<Longrightarrow> sems_static s' = sems_static s"
  by (auto simp: delay_queue_tick_entry_def delay_queue_tick_down_def delay_queue_timeout_def Let_def
      split: option.splits if_splits)

lemma sems_static_loop: "sems_static (snd (delay_queue_tick_loop i e s)) = sems_static s"
proof (induction i e s rule: delay_queue_tick_loop.induct)
  case (1 i e s)
  show ?case
  proof (cases "i < delay_queue_count s")
    case True
    obtain i' e' s' where step: "delay_queue_tick_entry i e s = (i', e', s')" by (metis prod_cases3)
    with 1[OF True step[symmetric]] sems_static_entry[OF step] True show ?thesis
      by (simp add: delay_queue_tick_loop.simps[of i e s])
  next
    case False
    then show ?thesis by (simp add: delay_queue_tick_loop.simps[of i e s])
  qed
qed

lemma sems_static_dq_tick [simp]: "sems_static (snd (delay_queue_tick s)) = sems_static s"
  by (simp add: delay_queue_tick_def Let_def case_prod_beta sems_static_loop)

lemma sems_static_ticks [simp]: "sems_static (s\<lparr>system_ticks := n\<rparr>) = sems_static s"
  by (rule sems_static_frame) simp

lemma sems_static_tick: "sems_static (timer_tick s) = sems_static s"
  by (simp add: timer_tick_def)

lemma sem_view_static:
  assumes "sems_static s' = sems_static s"
  shows "sem_view m (semaphore_table s')
    = map_option (\<lambda>(c, mx, q). (c, mx, queue_of m (semaphore_table s'))) (sem_view m (semaphore_table s))"
proof -
  let ?st = "semaphore_table s" and ?st' = "semaphore_table s'"
  have eq: "map sem_static ?st' = map sem_static ?st" using assms by (simp add: sems_static_def)
  then have len: "length ?st' = length ?st" by (rule map_eq_imp_length_eq)
  have at: "sem_static (?st' ! i) = sem_static (?st ! i)" if "i < length ?st" for i
    using arg_cong[OF eq, of "\<lambda>xs. xs ! i"] that len by simp
  have "first_index (\<lambda>sem. sem_ident sem = m) ?st' = first_index (\<lambda>sem. sem_ident sem = m) ?st"
    using at by (intro first_index_cong[OF len]) (simp add: sem_static_def len)
  then have "lookup_sem m ?st' = lookup_sem m ?st" by (simp add: lookup_sem_def)
  with at sems.lookup_SomeD(1)[of m ?st] show ?thesis
    by (cases "lookup_sem m ?st") (auto simp: sem_view_def queue_of_def sem_static_def)
qed

lemma timer_tick_sem_view:
  fixes s :: "'a pending_module_scheme"
  assumes "kernel_inv s"
  shows "sem_view m (semaphore_table (timer_tick s))
    = map_option (\<lambda>(c, mx, q). (c, mx, filter (\<lambda>k. k \<notin> set (expired_ids (dq_items s))) q)) (sem_view m (semaphore_table s))"
  using sem_view_static[OF sems_static_tick, of m s] timer_tick_refines(5)[OF assms, of m]
  by (cases "sem_view m (semaphore_table s)") (auto simp: sem_view_queue)

subsection \<open>Preemption evaluation and the other operations\<close>

lemma core_preemption [simp]: "core (snd (preemption_evaluate_from_irq s)) = core s"
proof -
  have log: "core (preemption_irq_log_task p t s) = core s" for p t and s :: "'a pending_module_scheme"
    by (simp add: preemption_irq_log_task_def split: option.split)
  have decision: "core (preemption_irq_log_decision d s) = core s" for d and s :: "'a pending_module_scheme"
    by (simp add: preemption_irq_log_decision_def)
  show ?thesis by (simp add: preemption_evaluate_from_irq_def Let_def log decision)
qed

lemma kernel_inv_preemption: "kernel_inv (snd (preemption_evaluate_from_irq s)) = kernel_inv s"
  by (rule kernel_inv_core) simp

lemma commit_current_spec:
  assumes "lookup_tcb k (task_table s) = Some i" and "tstate (task_table s ! i) = TASK_STATE_READY"
  shows "dispatcher_commit_current (Some i) s
    = (DISPATCHER_OK, (upd_tcb i (tcb_enter TASK_STATE_RUNNING 0 TASK_WAIT_REASON_NONE 0) s)\<lparr>current_task := Some i\<rparr>)"
  using assms tasks.lookup_SomeD[OF assms(1)]
  by (simp add: dispatcher_commit_current_def task_mark_running_def tcb_at_def lookup_tcb_def Let_def)

text \<open>The demotion of the old current task is left to the caller, so the new one must be alone.\<close>

lemma kernel_inv_commit_current:
  assumes inv: "kernel_inv s" and k: "lookup_tcb k (task_table s) = Some i"
    and ready: "tstate (task_table s ! i) = TASK_STATE_READY"
    and alone: "\<And>j. current_task s = Some j \<Longrightarrow> tstate (task_table s ! j) \<noteq> TASK_STATE_RUNNING"
  shows "kernel_inv (snd (dispatcher_commit_current (Some i) s))"
proof -
  let ?t = "tcb_enter TASK_STATE_RUNNING 0 TASK_WAIT_REASON_NONE 0 (task_table s ! i)"
  let ?s' = "snd (dispatcher_commit_current (Some i) s)"
  have s': "task_table ?s' = (task_table s)[i := ?t]" "current_task ?s' = Some i"
    "next_task_id ?s' = next_task_id s" "semaphore_table ?s' = semaphore_table s"
    "next_sem_id ?s' = next_sem_id s" "dq_items ?s' = dq_items s" "dq_ok ?s' = dq_ok s"
    unfolding commit_current_spec[OF k ready]
    by (simp_all add: task_table_upd_tcb dq_items_def dq_ok_def)
  note data = kernel_inv_data[OF inv k]
  have "wait_inv ?s'"
    by (rule wait_inv_no_queue[OF kernel_invD(1)[OF inv] k _ _ s'(1)])
      (use s' ready data in \<open>simp_all add: no_wait_states sem_reason_def timed_reason_def\<close>)
  moreover have "run_ok (task_table ?s') (current_task ?s')"
    unfolding s' using tasks.lookup_SomeD[OF k] alone
    by (intro run_ok_dispatch[OF kernel_invD(2)[OF inv]]) (simp_all add: tcb_used_def)
  ultimately show ?thesis by (simp add: kernel_inv_def)
qed

end
