(* ===== verification/Switching.thy ===== *)
theory Switching
  imports Tick_Frame
begin

section \<open>Switches return and keep the invariant\<close>

text \<open>
  What the code at a task entry has to guarantee is the locale \<open>switch_contract\<close>: it returns, keeps
  the invariant, and leaves the boot context, the switch reservations, the stacks and the saved
  contexts alone. Under this contract every switch of the kernel comes back to its caller, with an
  error code or after the entries have run, and the invariant holds again. The invariant is a
  parameter with a few laws (\<open>switch_inv\<close>); \<open>entry_contract\<close> is the contract for the invariant of the
  kernel, \<open>sys_inv\<close>.
\<close>

subsection \<open>The invariant with entries\<close>

definition entries_ok :: "tcb_t list \<Rightarrow> bool" where
  "entries_ok tt \<longleftrightarrow> (\<forall>t \<in> set tt. tcb_used t \<longrightarrow> entry t \<noteq> 0)"

definition sys_inv :: "'a dispatcher_module_scheme \<Rightarrow> bool" where
  "sys_inv s \<longleftrightarrow> kernel_inv s \<and> entries_ok (task_table s)"

lemma sys_inv_kernel: "sys_inv s \<Longrightarrow> kernel_inv s"
  by (simp add: sys_inv_def)

lemma sys_inv_entries: "sys_inv s \<Longrightarrow> entries_ok (task_table s)"
  by (simp add: sys_inv_def)

lemma entries_ok_nth: "entries_ok tt \<Longrightarrow> i < length tt \<Longrightarrow> tcb_used (tt ! i) \<Longrightarrow> entry (tt ! i) \<noteq> 0"
  by (simp add: entries_ok_def)

lemma entries_ok_update: "entries_ok tt \<Longrightarrow> (tcb_used t \<Longrightarrow> entry t \<noteq> 0) \<Longrightarrow> entries_ok (tt[i := t])"
  unfolding entries_ok_def by (auto dest: set_update_subset_insert[THEN subsetD])

lemma entries_ok_upd_tcb:
  assumes "entries_ok (task_table s)"
    and "i < length (task_table s) \<Longrightarrow> tcb_used (f (task_table s ! i)) \<Longrightarrow> entry (f (task_table s ! i)) \<noteq> 0"
  shows "entries_ok (task_table (upd_tcb i f s))"
proof (cases "i < length (task_table s)")
  case True
  with assms show ?thesis by (simp add: task_table_upd_tcb entries_ok_update)
next
  case False
  with assms(1) show ?thesis by (simp add: task_table_upd_tcb not_less list_update_beyond)
qed

lemma sys_inv_core:
  assumes "core s' = core s"
  shows "sys_inv s' = sys_inv s"
  using kernel_inv_core[OF assms] core_eqD(1)[OF assms] by (simp add: sys_inv_def)

lemma sys_inv_say [simp]: "sys_inv (say f s) = sys_inv s"
  by (rule sys_inv_core) simp

subsection \<open>Contexts are not part of the invariant\<close>

definition tcb_view :: "tcb_t \<Rightarrow> int \<times> task_state_t \<times> int \<times> task_wait_reason_t \<times> u32" where
  "tcb_view t = (tid t, tstate t, wait_sem_id t, wait_reason t, delay_ticks_remaining t)"

lemma tcb_viewD:
  assumes "tcb_view t = tcb_view u"
  shows "tid t = tid u" and "tstate t = tstate u" and "tcb_used t = tcb_used u"
    and "wait_data_ok t = wait_data_ok u" and "sem_wait t = sem_wait u" and "timed_wait t = timed_wait u"
  using assms by (simp_all add: tcb_view_def tcb_used_def wait_data_ok_def sem_wait_def timed_wait_def)

lemma tasks_ok_view:
  assumes "map tcb_view uu = map tcb_view tt"
  shows "tasks_ok uu n = tasks_ok tt n" and "run_ok uu cur = run_ok tt cur"
    and "wait_of k uu = wait_of k tt" and "delay_of k uu = delay_of k tt"
proof -
  have len: "length uu = length tt" using assms map_eq_imp_length_eq by blast
  have view: "tcb_view (uu ! i) = tcb_view (tt ! i)" if "i < length tt" for i
    using arg_cong[OF assms, of "\<lambda>xs. xs ! i"] that len by simp
  note at = tcb_viewD[OF view]
  have "unique_ids tcb_used tid uu = unique_ids tcb_used tid tt"
    by (simp add: unique_ids_def len at cong: conj_cong imp_cong)
  then show "tasks_ok uu n = tasks_ok tt n"
    by (simp add: tasks_ok_def len all_set_conv_all_nth at cong: conj_cong imp_cong)
  show "run_ok uu cur = run_ok tt cur"
    by (cases cur) (auto simp: run_ok_def len at)
  have lookup: "lookup_tcb k uu = lookup_tcb k tt"
  proof (cases "0 < k")
    case True
    then show ?thesis using at len by (simp add: tasks.lookup_scan) (rule first_index_cong; simp)
  next
    case False
    then show ?thesis by (simp add: tasks.lookup_nonpos)
  qed
  have less: "i < length tt" if "lookup_tcb k tt = Some i" for i using tasks.lookup_SomeD(1)[OF that] .
  show "wait_of k uu = wait_of k tt" and "delay_of k uu = delay_of k tt"
    using less by (cases "lookup_tcb k tt"; simp add: wait_of_def delay_of_def tcb_of_def lookup at)+
qed

text \<open>Everything the invariant reads, with the tasks without their saved contexts.\<close>

definition kview :: "'a dispatcher_module_scheme \<Rightarrow>
    (int \<times> task_state_t \<times> int \<times> task_wait_reason_t \<times> u32) list \<times> u64 list \<times> int \<times>
    semaphore_t list \<times> int \<times> delay_queue_entry_t list \<times> nat \<times> nat option" where
  "kview s = (map tcb_view (task_table s), map entry (task_table s), next_task_id s, semaphore_table s,
     next_sem_id s, delay_queue_entries s, delay_queue_count s, current_task s)"

lemma sys_inv_view:
  assumes "sys_inv s" and "map tcb_view (task_table s') = map tcb_view (task_table s)"
    and "map entry (task_table s') = map entry (task_table s)"
    and "next_task_id s' = next_task_id s" and "semaphore_table s' = semaphore_table s"
    and "next_sem_id s' = next_sem_id s" and "delay_queue_entries s' = delay_queue_entries s"
    and "delay_queue_count s' = delay_queue_count s" and "current_task s' = current_task s"
  shows "sys_inv s'"
proof -
  note view = tasks_ok_view[OF assms(2)]
  have dq: "dq_items s' = dq_items s" "dq_ok s' = dq_ok s"
    using assms(7,8) by (simp_all add: dq_items_def dq_ok_def)
  have len: "length (task_table s') = length (task_table s)" using assms(2) map_eq_imp_length_eq by blast
  have "tcb_view (task_table s' ! i) = tcb_view (task_table s ! i)" and "entry (task_table s' ! i) = entry (task_table s ! i)"
    if "i < length (task_table s)" for i
    using arg_cong[OF assms(2), of "\<lambda>xs. xs ! i"] arg_cong[OF assms(3), of "\<lambda>xs. xs ! i"] that len
    by simp_all
  note same = this(2) tcb_viewD(3)[OF this(1)]
  have "entries_ok (task_table s') = entries_ok (task_table s)"
    by (simp add: entries_ok_def all_set_conv_all_nth len same cong: imp_cong)
  then show ?thesis
    using assms(1,4-9) view dq
    by (simp add: sys_inv_def kernel_inv_def wait_inv_def tasks_inv_def sems_inv_def link_ok_def)
qed

lemma map_upd_tcb:
  "(\<And>t. g (f t) = g t) \<Longrightarrow> map g (task_table (upd_tcb i f s)) = map g (task_table s)"
  by (cases "i < length (task_table s)")
    (simp_all add: task_table_upd_tcb map_update list_update_same_conv list_update_beyond)

lemma kview_core:
  assumes "core s' = core s"
  shows "kview s' = kview s"
  using core_eqD[OF assms] by (simp add: kview_def)

lemma sys_inv_kview: "kview s' = kview s \<Longrightarrow> sys_inv s \<Longrightarrow> sys_inv s'"
  by (rule sys_inv_view) (simp_all add: kview_def)

lemma kview_tcontext: "kview (upd_tcb i (\<lambda>t. t\<lparr>tcontext := c\<rparr>) s) = kview s"
  by (simp add: kview_def map_upd_tcb tcb_view_def)

lemma kview_save_context [simp]: "kview (save_context i c s) = kview s"
  by (simp add: save_context_def kview_tcontext)

lemma sys_inv_save_context: "sys_inv s \<Longrightarrow> sys_inv (save_context i c s)"
  by (rule sys_inv_kview[OF kview_save_context])

subsection \<open>Prepared frames\<close>

lemma tcb_address_inj:
  assumes "i < MAX_TASKS" and "j < MAX_TASKS" and "tcb_address env i = tcb_address env j"
  shows "i = j"
proof -
  have "(of_nat (128 * i) :: u64) = of_nat (128 * j)" using assms(3) by (simp add: tcb_address_def)
  then have "take_bit 64 (128 * i) = take_bit 64 (128 * j)" by (simp only: word_of_nat_eq_iff) simp
  with assms(1,2) show ?thesis by (simp add: take_bit_eq_mod)
qed

definition prepared :: "'s kernel_env \<Rightarrow> nat \<Rightarrow> 'a context_module_scheme \<Rightarrow> bool" where
  "prepared env i s \<longleftrightarrow>
     stack_mem s (rsp (tcontext (tcb_at i s))) = Some (trampoline_address env) \<and>
     r12 (tcontext (tcb_at i s)) = tcb_address env i"

text \<open>A prepared context continues at the entry of its own task.\<close>

lemma resume_prepared:
  assumes "prepared env i s" and "i < MAX_TASKS"
  shows "resume_target env (tcontext (tcb_at i s)) s = Some i"
proof -
  have "first_index (\<lambda>j. tcb_address env j = tcb_address env i) [0..<MAX_TASKS] = Some i"
    using assms(2) tcb_address_inj[of _ i env] by (intro first_index_unique) auto
  with assms(1) show ?thesis by (simp add: resume_target_def prepared_def)
qed

lemma initial_rsp_nonzero: "initial_rsp a \<noteq> 0"
proof
  assume "initial_rsp a = 0"
  then have "and a (not 15) = 8" by (simp add: initial_rsp_def)
  moreover have "bit (and a (not 15)) 3 = False" by (simp add: bit_simps numeral_eq_Suc)
  ultimately have "bit (8 :: u64) 3 = False" by simp
  then show False by (simp add: bit_simps)
qed


text \<open>The preparation of a valid task, and what it leaves alone.\<close>

lemma context_fields_say [simp]:
  "boot_context (say f s) = boot_context s" "active_task (say f s) = active_task s"
  "task_to_task_smoke_from (say f s) = task_to_task_smoke_from s"
  "task_to_task_smoke_to (say f s) = task_to_task_smoke_to s" "stack_mem (say f s) = stack_mem s"
  by (simp_all add: say_def writes_def)

lemma context_fields_upd [simp]:
  "boot_context (upd_tcb i f s) = boot_context s" "active_task (upd_tcb i f s) = active_task s"
  "task_to_task_smoke_from (upd_tcb i f s) = task_to_task_smoke_from s"
  "task_to_task_smoke_to (upd_tcb i f s) = task_to_task_smoke_to s" "stack_mem (upd_tcb i f s) = stack_mem s"
  by (simp_all add: upd_tcb_def)

lemma prepared_say [simp]: "prepared env i (say f s) = prepared env i s"
  by (simp add: prepared_def)

lemma tcb_at_upd: "i < length (task_table s) \<Longrightarrow> tcb_at j (upd_tcb i f s) = (if j = i then f (tcb_at i s) else tcb_at j s)"
  by (simp add: tcb_at_def task_table_upd_tcb nth_update_eq_if)

definition valid_stack :: "nat \<Rightarrow> 'a task_module_scheme \<Rightarrow> bool" where
  "valid_stack i s \<longleftrightarrow> context_validate_task (Some i) s = TASK_CONTEXT_OK"

lemma prepare_spec:
  assumes "i < length (task_table s)" and "valid_stack i s"
  shows "\<exists>f c. task_context_prepare_initial_frame env (Some i) s
      = (TASK_CONTEXT_OK, say f (upd_tcb i (\<lambda>t. t\<lparr>tcontext := c\<rparr>)
          (s\<lparr>stack_mem := (stack_mem s)(rsp c \<mapsto> trampoline_address env)\<rparr>))) \<and>
    rsp c \<noteq> 0 \<and> r12 c = tcb_address env i"
proof -
  let ?c = "\<lparr>rsp = initial_rsp (stack_top (tcb_at i s)), rbp = 0, rbx = 0, r12 = tcb_address env i,
      r13 = 0, r14 = 0, r15 = 0\<rparr>"
  have "\<exists>f. task_context_prepare_initial_frame env (Some i) s
      = (TASK_CONTEXT_OK, say f (upd_tcb i (\<lambda>t. t\<lparr>tcontext := ?c\<rparr>)
          (s\<lparr>stack_mem := (stack_mem s)(rsp ?c \<mapsto> trampoline_address env)\<rparr>)))"
    using assms by (auto simp: task_context_prepare_initial_frame_def valid_stack_def Let_def)
  moreover have "rsp ?c \<noteq> 0" and "r12 ?c = tcb_address env i" by (simp_all add: initial_rsp_nonzero)
  ultimately show ?thesis by blast
qed

lemma prepare_prepares:
  assumes i: "i < length (task_table s)" and v: "valid_stack i s"
    and eq: "task_context_prepare_initial_frame env (Some i) s = (r, s')"
  shows "r = TASK_CONTEXT_OK" and "prepared env i s'" and "valid_stack i s'"
    and "kview s' = kview s"
    and "length (task_table s') = length (task_table s)"
    and "boot_context s' = boot_context s" and "current_task s' = current_task s"
    and "\<And>j. tcb_used (tcb_at j s') = tcb_used (tcb_at j s)" and "\<And>j. entry (tcb_at j s') = entry (tcb_at j s)"
    and "\<And>j. tstate (tcb_at j s') = tstate (tcb_at j s)" and "\<And>j. tid (tcb_at j s') = tid (tcb_at j s)"
    and "\<And>j. j \<noteq> i \<Longrightarrow> valid_stack j s' = valid_stack j s"
    and "\<And>j. j \<noteq> i \<Longrightarrow> prepared env j s \<Longrightarrow> prepared env j s'"
proof -
  obtain f c where fc: "r = TASK_CONTEXT_OK"
      "s' = say f (upd_tcb i (\<lambda>t. t\<lparr>tcontext := c\<rparr>) (s\<lparr>stack_mem := (stack_mem s)(rsp c \<mapsto> trampoline_address env)\<rparr>))"
    and c: "rsp c \<noteq> 0" "r12 c = tcb_address env i"
    using prepare_spec[OF i v, of env] eq by auto
  have at: "tcb_at j s' = (if j = i then (tcb_at i s)\<lparr>tcontext := c\<rparr> else tcb_at j s)" for j
    using i by (simp add: fc(2) tcb_at_def task_table_upd_tcb nth_update_eq_if)
  have mem: "stack_mem s' = (stack_mem s)(rsp c \<mapsto> trampoline_address env)" by (simp add: fc(2))
  show "r = TASK_CONTEXT_OK" by (fact fc(1))
  show "prepared env i s'" using c by (simp add: prepared_def at mem)
  show "valid_stack i s'" using v c by (simp add: valid_stack_def context_validate_task_def at split: if_splits)
  show "length (task_table s') = length (task_table s)" "boot_context s' = boot_context s"
    "current_task s' = current_task s"
    by (simp_all add: fc(2) task_table_upd_tcb)
  show "tcb_used (tcb_at j s') = tcb_used (tcb_at j s)" "entry (tcb_at j s') = entry (tcb_at j s)"
    "tstate (tcb_at j s') = tstate (tcb_at j s)" "tid (tcb_at j s') = tid (tcb_at j s)" for j
    by (simp_all add: at tcb_used_def)
  show "valid_stack j s' = valid_stack j s" "prepared env j s \<Longrightarrow> prepared env j s'" if "j \<noteq> i" for j
    using that by (simp_all add: valid_stack_def context_validate_task_def at prepared_def mem)
  have "core (s\<lparr>stack_mem := m\<rparr>) = core s" for m by (simp add: core_def)
  then have "kview (s\<lparr>stack_mem := m\<rparr>) = kview s" for m by (rule kview_core)
  then show "kview s' = kview s" by (simp add: fc(2) kview_tcontext kview_core[OF core_say])
qed


subsection \<open>What an entry leaves alone\<close>

definition switch_frame :: "'a dispatcher_module_scheme \<Rightarrow> 'a dispatcher_module_scheme \<Rightarrow> bool" where
  "switch_frame s s' \<longleftrightarrow> boot_context s' = boot_context s \<and> stack_mem s' = stack_mem s \<and>
     task_to_task_smoke_from s' = task_to_task_smoke_from s \<and>
     task_to_task_smoke_to s' = task_to_task_smoke_to s \<and>
     length (task_table s') = length (task_table s) \<and>
     (\<forall>i. tcb_used (tcb_at i s) \<longrightarrow> tcb_used (tcb_at i s') \<and> tcontext (tcb_at i s') = tcontext (tcb_at i s))"

lemma switch_frame_say: "switch_frame s (say f s)"
  by (simp add: switch_frame_def)

lemma switch_frame_trans: "switch_frame s s' \<Longrightarrow> switch_frame s' s'' \<Longrightarrow> switch_frame s s''"
  by (simp add: switch_frame_def)

lemma switch_frame_prepared:
  "switch_frame s s' \<Longrightarrow> tcb_used (tcb_at i s) \<Longrightarrow> prepared env i s \<Longrightarrow> prepared env i s'"
  by (simp add: switch_frame_def prepared_def)

lemma switch_frame_upd:
  assumes "\<And>t. tcb_used (f t)" and "\<And>t. tcontext (f t) = tcontext t"
  shows "switch_frame s (upd_tcb i f s)"
proof -
  have at: "tcb_at j (upd_tcb i f s) = (if j = i \<and> i < length (task_table s) then f (tcb_at i s) else tcb_at j s)" for j
    by (cases "i < length (task_table s)")
      (auto simp: tcb_at_def task_table_upd_tcb nth_update_eq_if list_update_beyond)
  then show ?thesis using assms by (simp add: switch_frame_def task_table_upd_tcb)
qed

lemma entries_ok_enter:
  assumes "entries_ok (task_table s)"
  shows "scan_task_id k (task_table s) = Some i \<Longrightarrow> entries_ok (task_table (upd_tcb i (tcb_enter st m r d) s))"
    and "lookup_tcb k (task_table s) = Some i \<Longrightarrow> entries_ok (task_table (upd_tcb i (tcb_enter st m r d) s))"
proof -
  have used: "entries_ok (task_table (upd_tcb i (tcb_enter st m r d) s))"
    if "i < length (task_table s)" "tcb_used (task_table s ! i)"
    using that entries_ok_nth[OF assms] by (intro entries_ok_upd_tcb[OF assms]) (simp add: tcb_enter_def)
  show "entries_ok (task_table (upd_tcb i (tcb_enter st m r d) s))" if "scan_task_id k (task_table s) = Some i"
    using first_index_SomeD[OF that[unfolded scan_task_id_def]] by (intro used) simp_all
  show "entries_ok (task_table (upd_tcb i (tcb_enter st m r d) s))" if "lookup_tcb k (task_table s) = Some i"
    using tasks.lookup_SomeD[OF that] by (intro used)
qed

lemma entries_ok_marks:
  assumes "entries_ok (task_table s)"
  shows "entries_ok (task_table (snd (task_mark_dormant_from_entry_return k s)))"
    and "entries_ok (task_table (snd (task_mark_ready_from_running k s)))"
    and "entries_ok (task_table (snd (task_mark_running k s)))"
    and "entries_ok (task_table (snd (task_start_dormant k s)))"
    and "entries_ok (task_table (snd (task_mark_waiting_on_sem k m s)))"
    and "entries_ok (task_table (snd (task_mark_waiting_on_sem_timeout k m d s)))"
    and "entries_ok (task_table (snd (task_mark_waiting_on_delay k d s)))"
    and "entries_ok (task_table (snd (task_mark_waiting_on_sleep k s)))"
  using assms
  by (simp_all add: task_mark_dormant_from_entry_return_def task_mark_ready_from_running_def
      task_mark_running_def task_start_dormant_def task_mark_waiting_on_sem_def
      task_mark_waiting_on_sem_timeout_def task_mark_waiting_on_delay_def task_mark_waiting_on_sleep_def
      task_get_mutable_by_id_def entries_ok_enter Let_def split: option.split)

lemma sys_inv_mark_dormant: "sys_inv s \<Longrightarrow> sys_inv (snd (task_mark_dormant_from_entry_return k s))"
  using kernel_inv_mark_dormant[of s k] by (simp add: sys_inv_def entries_ok_marks)

lemma finalize_dormant:
  "\<exists>k g h. task_context_finalize t s = say g (snd (task_mark_dormant_from_entry_return k (say h s)))"
  by (auto simp: task_context_finalize_def Let_def case_prod_beta)

lemma switch_frame_mark_dormant: "switch_frame s (snd (task_mark_dormant_from_entry_return k s))"
proof -
  have "switch_frame s (upd_tcb i (tcb_enter TASK_STATE_DORMANT m r d) s)" for i m r d
    by (rule switch_frame_upd) (simp_all add: tcb_used_def tcb_enter_def)
  moreover have "switch_frame s s" by (simp add: switch_frame_def)
  ultimately show ?thesis
    by (simp add: task_mark_dormant_from_entry_return_def split: option.split)
qed

subsection \<open>The contract of the entries\<close>

text \<open>
  What the switch code asks of an invariant: it reads the tables only, the task table has its full
  length, every task has an entry, and both a context with a stack pointer and the end of an entry
  keep it.
\<close>

locale switch_inv =
  fixes inv :: "'a pending_module_scheme \<Rightarrow> bool"
  assumes inv_core: "core s' = core s \<Longrightarrow> inv s' = inv s"
    and inv_context: "inv s \<Longrightarrow> rsp c \<noteq> 0 \<Longrightarrow> inv (save_context i c s)"
    and inv_length: "inv s \<Longrightarrow> length (task_table s) = MAX_TASKS"
    and inv_entries: "inv s \<Longrightarrow> entries_ok (task_table s)"
    and inv_dormant: "inv s \<Longrightarrow> inv (snd (task_mark_dormant_from_entry_return k s))"
begin

lemma inv_say [simp]: "inv (say f s) = inv s"
  by (rule inv_core) simp

lemma inv_finalize:
  assumes "inv s"
  shows "inv (task_context_finalize t s)" and "switch_frame s (task_context_finalize t s)"
proof -
  obtain k g h where fin: "task_context_finalize t s = say g (snd (task_mark_dormant_from_entry_return k (say h s)))"
    using finalize_dormant by blast
  show "inv (task_context_finalize t s)" unfolding fin using assms inv_dormant by simp
  show "switch_frame s (task_context_finalize t s)"
    unfolding fin using switch_frame_mark_dormant[of "say h s" k] switch_frame_say switch_frame_trans by metis
qed

lemma inv_entry: "inv s \<Longrightarrow> t < MAX_TASKS \<Longrightarrow> tcb_used (tcb_at t s) \<Longrightarrow> entry (tcb_at t s) \<noteq> 0"
  using inv_entries[of s] inv_length[of s] by (simp add: tcb_at_def entries_ok_nth)

end

text \<open>
  The entries return, keep the invariant and leave the contexts alone; the registers that a switch
  saves keep the invariant.
\<close>

locale switch_contract = switch_inv inv for inv :: "'a pending_module_scheme \<Rightarrow> bool" +
  fixes env :: "'a pending_module_scheme kernel_env"
  assumes entry_returns:
    "inv s \<Longrightarrow> address \<noteq> 0 \<Longrightarrow> \<exists>s'. entry_body env address s = Some s' \<and> inv s' \<and> switch_frame s s'"
    and inv_live [simp]: "inv s \<Longrightarrow> inv (save_context i (live_context env site s') s)"
begin

text \<open>The entry runs and the task is finalized.\<close>

lemma entry_finalized:
  assumes inv: "inv s" and t: "t < MAX_TASKS" "tcb_used (tcb_at t s)"
  shows "\<exists>s'. entry_body env (entry (tcb_at t s)) s = Some s' \<and> inv s' \<and> switch_frame s s' \<and>
    inv (task_context_finalize t s') \<and> switch_frame s (task_context_finalize t s')"
proof -
  have "entry (tcb_at t s) \<noteq> 0" by (rule inv_entry[OF inv t])
  then obtain s' where "entry_body env (entry (tcb_at t s)) s = Some s'" "inv s'" "switch_frame s s'"
    using entry_returns[OF inv] by blast
  with inv_finalize[of s' t] show ?thesis using switch_frame_trans by blast
qed

text \<open>
  The entered task runs and is finalized; then it goes on with the second task of a reservation,
  or switches back.
\<close>

lemma enter_trace:
  assumes inv: "inv s" and t: "t < MAX_TASKS" "tcb_used (tcb_at t s)"
  shows "\<exists>e s2 s3 f h. entry_body env (entry (tcb_at t s)) (say e s) = Some s2 \<and> inv s2 \<and>
    s3 = task_context_finalize t s2 \<and> inv s3 \<and> switch_frame s s3 \<and> task_context_enter env (Some t) s =
    (if task_to_task_smoke_from s3 = Some t \<and> task_to_task_smoke_to s3 \<noteq> None
     then let n = the (task_to_task_smoke_to s3);
              s4 = s3\<lparr>task_to_task_smoke_from := None, task_to_task_smoke_to := None, active_task := Some n\<rparr>;
              s5 = save_context t (live_context env (SITE_TASK_TO_TASK t) (say f s4)) (say f s4)
          in Option.bind (resume_target env (tcontext (tcb_at n s5)) s5) (\<lambda>i. task_context_enter env (Some i) s5)
     else Some (save_context t (live_context env (SITE_BACK t) (say h s3)) (say h s3)))"
proof -
  define s1 where "s1 = tcb_say t (\<lambda>t. [''[context] entered task stack:'']
    @ context_log_task_prefix '' task'' (Some t)
    @ context_log_rsp '' current.rsp='' (rsp (tcontext t)) @ [''\<newline>'']) s"
  have s1: "inv s1" "tcb_used (tcb_at t s1)" "entry (tcb_at t s1) = entry (tcb_at t s)" "switch_frame s s1"
    using inv t by (simp_all add: s1_def switch_frame_say)
  obtain s2 where s2: "entry_body env (entry (tcb_at t s1)) s1 = Some s2"
    "inv (task_context_finalize t s2)" "switch_frame s1 (task_context_finalize t s2)" "inv s2"
    using entry_finalized[OF s1(1) t(1) s1(2)] by blast
  define s3 where "s3 = task_context_finalize t s2"
  have s3: "switch_frame s s3" using s1(4) s2(3) switch_frame_trans unfolding s3_def by blast
  have e: "entry (tcb_at t s) \<noteq> 0" by (rule inv_entry[OF inv t])
  have "\<exists>f h. task_context_enter env (Some t) s =
    (if task_to_task_smoke_from s3 = Some t \<and> task_to_task_smoke_to s3 \<noteq> None
     then let n = the (task_to_task_smoke_to s3);
              s4 = s3\<lparr>task_to_task_smoke_from := None, task_to_task_smoke_to := None, active_task := Some n\<rparr>;
              s5 = save_context t (live_context env (SITE_TASK_TO_TASK t) (say f s4)) (say f s4)
          in Option.bind (resume_target env (tcontext (tcb_at n s5)) s5) (\<lambda>i. task_context_enter env (Some i) s5)
     else Some (save_context t (live_context env (SITE_BACK t) (say h s3)) (say h s3)))"
    using e s2(1)
    by (subst task_context_enter.simps) (auto simp: s1_def[symmetric] s1(3) s3_def[symmetric] Let_def)
  moreover have "\<exists>e. entry_body env (entry (tcb_at t s)) (say e s) = Some s2"
    using s2(1) unfolding s1(3) unfolding s1_def by blast
  ultimately show ?thesis using s2(2,4) s3 unfolding s3_def by blast
qed

lemma enter_steps:
  assumes inv: "inv s" and t: "t < MAX_TASKS" "tcb_used (tcb_at t s)"
  shows "\<exists>s3 f h. inv s3 \<and> switch_frame s s3 \<and> task_context_enter env (Some t) s =
    (if task_to_task_smoke_from s3 = Some t \<and> task_to_task_smoke_to s3 \<noteq> None
     then let n = the (task_to_task_smoke_to s3);
              s4 = s3\<lparr>task_to_task_smoke_from := None, task_to_task_smoke_to := None, active_task := Some n\<rparr>;
              s5 = save_context t (live_context env (SITE_TASK_TO_TASK t) (say f s4)) (say f s4)
          in Option.bind (resume_target env (tcontext (tcb_at n s5)) s5) (\<lambda>i. task_context_enter env (Some i) s5)
     else Some (save_context t (live_context env (SITE_BACK t) (say h s3)) (say h s3)))"
  using enter_trace[OF assms] by blast

text \<open>A task without a reservation switches back.\<close>

lemma enter_back:
  assumes inv: "inv s" and t: "t < MAX_TASKS" "tcb_used (tcb_at t s)"
    and last: "\<not> (task_to_task_smoke_from s = Some t \<and> task_to_task_smoke_to s \<noteq> None)"
  shows "\<exists>s'. task_context_enter env (Some t) s = Some s' \<and> inv s' \<and> boot_context s' = boot_context s \<and>
    task_to_task_smoke_from s' = task_to_task_smoke_from s"
proof -
  obtain s3 h where s3: "inv s3" "switch_frame s s3"
    "task_context_enter env (Some t) s = Some (save_context t (live_context env (SITE_BACK t) (say h s3)) (say h s3))"
    using enter_steps[OF inv t] last by (auto simp: switch_frame_def)
  have "boot_context (save_context t c (say h s3)) = boot_context s \<and>
      task_to_task_smoke_from (save_context t c (say h s3)) = task_to_task_smoke_from s" for c
    using s3(2) by (simp add: save_context_def switch_frame_def)
  with s3 show ?thesis by simp
qed

text \<open>A task with a reservation goes on with the second task, which switches back.\<close>

lemma enter_pair:
  assumes inv: "inv s" and t: "t < MAX_TASKS" "tcb_used (tcb_at t s)"
    and n: "n < MAX_TASKS" "tcb_used (tcb_at n s)" "n \<noteq> t" "prepared env n s"
    and pair: "task_to_task_smoke_from s = Some t" "task_to_task_smoke_to s = Some n"
  shows "\<exists>s'. task_context_enter env (Some t) s = Some s' \<and> inv s' \<and> boot_context s' = boot_context s \<and>
    task_to_task_smoke_from s' = None"
proof -
  obtain s3 f where s3: "inv s3" "switch_frame s s3"
    and step: "task_context_enter env (Some t) s =
      (let s4 = s3\<lparr>task_to_task_smoke_from := None, task_to_task_smoke_to := None, active_task := Some n\<rparr>;
           s5 = save_context t (live_context env (SITE_TASK_TO_TASK t) (say f s4)) (say f s4)
       in Option.bind (resume_target env (tcontext (tcb_at n s5)) s5) (\<lambda>i. task_context_enter env (Some i) s5))"
    using enter_steps[OF inv t] pair by (auto simp: switch_frame_def)
  define s4 where "s4 = s3\<lparr>task_to_task_smoke_from := None, task_to_task_smoke_to := None, active_task := Some n\<rparr>"
  define s5 where "s5 = save_context t (live_context env (SITE_TASK_TO_TASK t) (say f s4)) (say f s4)"
  have "core s4 = core s3" by (simp add: core_def s4_def)
  then have "inv s4" using inv_core s3(1) by metis
  then have inv5: "inv s5" by (simp add: s5_def)
  have n3: "prepared env n s3" "tcb_used (tcb_at n s3)"
    using switch_frame_prepared[OF s3(2) n(2,4)] s3(2) n(2) by (simp_all add: switch_frame_def)
  have at5: "tcb_at n s5 = tcb_at n s3"
    using n(3) by (simp add: s5_def s4_def save_context_def tcb_at_def task_table_upd_tcb)
  have "prepared env n s5"
    using n3 at5 by (simp add: prepared_def s5_def s4_def save_context_def)
  then have resume: "resume_target env (tcontext (tcb_at n s5)) s5 = Some n"
    using n(1) resume_prepared by blast
  have none: "\<not> (task_to_task_smoke_from s5 = Some n \<and> task_to_task_smoke_to s5 \<noteq> None)"
    by (simp add: s5_def s4_def save_context_def)
  obtain s' where "task_context_enter env (Some n) s5 = Some s'" "inv s'" "boot_context s' = boot_context s5"
    "task_to_task_smoke_from s' = task_to_task_smoke_from s5"
    using enter_back[OF inv5 n(1) _ none] n3(2) at5 by auto
  moreover have "boot_context s5 = boot_context s" "task_to_task_smoke_from s5 = None"
    using s3(2) by (simp_all add: s5_def s4_def save_context_def switch_frame_def)
  ultimately show ?thesis using step resume by (simp add: s4_def[symmetric] s5_def[symmetric] Let_def)
qed

text \<open>The boot side comes back, with or without a reservation.\<close>

lemma switch_to_task_returns:
  assumes inv: "inv s" and t: "t < MAX_TASKS" "tcb_used (tcb_at t s)" "valid_stack t s" "prepared env t s"
    and n: "\<And>n. task_to_task_smoke_from s = Some t \<Longrightarrow> task_to_task_smoke_to s = Some n \<Longrightarrow>
      n < MAX_TASKS \<and> tcb_used (tcb_at n s) \<and> n \<noteq> t \<and> prepared env n s"
  shows "\<exists>s'. task_context_switch_to_task env (Some t) s = Some (TASK_CONTEXT_OK, s') \<and> inv s' \<and>
    (task_to_task_smoke_from s = None \<longrightarrow> task_to_task_smoke_from s' = None)"
proof -
  define s0 where "s0 = say (\<lambda>s. [''[context] switch begin:'', '' from=boot'']
      @ context_log_task_prefix '' to'' (Some (tcb_at t s))
      @ context_log_rsp '' boot.rsp.before='' (rsp (boot_context s))
      @ context_log_rsp '' to.rsp.restore='' (rsp (tcontext (tcb_at t s)))
      @ [''\<newline>'']) (s\<lparr>active_task := Some t\<rparr>)"
  define live where "live = live_context env SITE_BOOT s0"
  define s1 where "s1 = s0\<lparr>boot_context := live\<rparr>"
  let ?h = "\<lambda>s. [''[context] switch resumed:'', '' task=boot'']
      @ context_log_rsp '' boot.rsp.after='' (rsp (boot_context s))
      @ (case active_task s of None \<Rightarrow> []
         | Some a \<Rightarrow> context_log_task_prefix '' from'' (Some (tcb_at a s))
              @ context_log_rsp '' from.rsp.saved='' (rsp (tcontext (tcb_at a s))))
      @ [''\<newline>'']"
  have step: "task_context_switch_to_task env (Some t) s
      = Option.bind (resume_target env (tcontext (tcb_at t s1)) s1) (\<lambda>i.
        Option.bind (task_context_enter env (Some i) s1) (\<lambda>s2.
          if boot_context s2 \<noteq> live then None
          else Some (TASK_CONTEXT_OK, (say ?h s2)\<lparr>active_task := None\<rparr>)))"
    using t(3) unfolding task_context_switch_to_task_def valid_stack_def s1_def live_def s0_def Let_def
    by simp
  have core1: "core s1 = core s" by (simp add: core_def s1_def s0_def)
  then have inv1: "inv s1" using inv_core inv by metis
  have at: "tcb_at i s1 = tcb_at i s" for i by (simp add: tcb_at_def s1_def s0_def)
  have prep: "prepared env i s1 = prepared env i s" for i by (simp add: prepared_def at) (simp add: s1_def s0_def)
  have resume: "resume_target env (tcontext (tcb_at t s1)) s1 = Some t"
    using resume_prepared t prep by blast
  have "\<exists>s2. task_context_enter env (Some t) s1 = Some s2 \<and> inv s2 \<and> boot_context s2 = boot_context s1 \<and>
      (task_to_task_smoke_from s1 = None \<longrightarrow> task_to_task_smoke_from s2 = None)"
  proof (cases "task_to_task_smoke_from s1 = Some t \<and> task_to_task_smoke_to s1 \<noteq> None")
    case True
    then obtain m where m: "task_to_task_smoke_from s1 = Some t" "task_to_task_smoke_to s1 = Some m" by auto
    then have "m < MAX_TASKS" "tcb_used (tcb_at m s1)" "m \<noteq> t" "prepared env m s1"
      using n[of m] by (simp_all add: at prep) (simp_all add: s1_def s0_def)
    moreover have "tcb_used (tcb_at t s1)" using t(2) at by simp
    ultimately show ?thesis using enter_pair[OF inv1 t(1)] m by blast
  next
    case False
    moreover have "tcb_used (tcb_at t s1)" using t(2) at by simp
    ultimately show ?thesis using enter_back[OF inv1 t(1)] by metis
  qed
  then obtain s2 where s2: "task_context_enter env (Some t) s1 = Some s2" "inv s2" "boot_context s2 = live"
    "task_to_task_smoke_from s1 = None \<Longrightarrow> task_to_task_smoke_from s2 = None"
    by (auto simp: s1_def)
  have end_: "core ((say ?h s2)\<lparr>active_task := None\<rparr>) = core s2" by (simp add: core_def)
  have "inv ((say ?h s2)\<lparr>active_task := None\<rparr>)" unfolding inv_core[OF end_] by (fact s2(2))
  moreover have "task_context_switch_to_task env (Some t) s
      = Some (TASK_CONTEXT_OK, (say ?h s2)\<lparr>active_task := None\<rparr>)"
    unfolding step resume by (simp only: Option.bind.simps s2(1,3) not_False_eq_True if_False simp_thms)
  moreover have "task_to_task_smoke_from ((say ?h s2)\<lparr>active_task := None\<rparr>) = None"
    if "task_to_task_smoke_from s = None"
    using that s2(4) by (simp add: s1_def s0_def)
  ultimately show ?thesis by (intro exI conjI impI)
qed

end

text \<open>The contract with the kernel invariant.\<close>

interpretation sys: switch_inv sys_inv
proof
  fix s s' :: "'a pending_module_scheme" and c i k
  show "sys_inv s' = sys_inv s" if "core s' = core s" using that by (rule sys_inv_core)
  assume inv: "sys_inv s"
  show "sys_inv (save_context i c s)" by (rule sys_inv_save_context[OF inv])
  show "length (task_table s) = MAX_TASKS" by (rule kernel_invD(3)[OF sys_inv_kernel[OF inv]])
  show "entries_ok (task_table s)" by (rule sys_inv_entries[OF inv])
  show "sys_inv (snd (task_mark_dormant_from_entry_return k s))" by (rule sys_inv_mark_dormant[OF inv])
qed

locale entry_contract =
  fixes env :: "'a pending_module_scheme kernel_env"
  assumes contract_returns:
    "sys_inv s \<Longrightarrow> address \<noteq> 0 \<Longrightarrow>
     \<exists>s'. entry_body env address s = Some s' \<and> sys_inv s' \<and> switch_frame s s'"

sublocale entry_contract \<subseteq> switch_contract sys_inv env
  by unfold_locales (rule contract_returns sys_inv_save_context; assumption)+

lemma entry_contract_switches: "entry_contract env \<Longrightarrow> switch_contract sys_inv env"
  by (simp add: switch_contract_def switch_contract_axioms_def entry_contract_def sys.switch_inv_axioms
      sys_inv_save_context)

end
