(* ===== verification/Dispatch_Inv.thy ===== *)
theory Dispatch_Inv
  imports Switching
begin

section \<open>The dispatcher under the entry contract\<close>

text \<open>
  The switch boundary, the consumption of a pending request and the services that switch: each
  returns and keeps the invariant, when the entries do (\<open>entry_contract\<close>).
\<close>

subsection \<open>The transitions of a switch\<close>

lemma sys_inv_lookup:
  assumes "sys_inv s" and "i < MAX_TASKS" and "tcb_used (tcb_at i s)"
  shows "lookup_tcb (tid (tcb_at i s)) (task_table s) = Some i"
proof -
  have "tasks_ok (task_table s) (next_task_id s)"
    using sys_inv_kernel[OF assms(1)] by (simp add: kernel_inv_def wait_inv_def tasks_inv_def)
  then show ?thesis using tasks_ok_lookup assms(2,3) by (simp add: tcb_at_def)
qed

lemma sys_inv_length: "sys_inv s \<Longrightarrow> length (task_table s) = MAX_TASKS"
  by (rule kernel_invD(3)[OF sys_inv_kernel])

lemma sys_inv_mark_ready: "sys_inv s \<Longrightarrow> sys_inv (snd (task_mark_ready_from_running k s))"
  by (simp add: sys_inv_def kernel_inv_mark_ready entries_ok_marks)

lemma mark_ready_spec:
  assumes "sys_inv s" and "i < MAX_TASKS" and "tstate (tcb_at i s) = TASK_STATE_RUNNING"
  shows "task_mark_ready_from_running (tid (tcb_at i s)) s
    = (0, upd_tcb i (tcb_enter TASK_STATE_READY 0 TASK_WAIT_REASON_NONE 0) s)"
  using sys_inv_lookup[OF assms(1,2)] assms(3) tasks.lookup_SomeD(4)[of _ "task_table s" i]
  by (simp add: task_mark_ready_from_running_def tcb_used_def lookup_tcb_def split: if_splits)

lemma mark_running_spec:
  assumes "sys_inv s" and "i < MAX_TASKS" and "tstate (tcb_at i s) = TASK_STATE_READY"
  shows "task_mark_running (tid (tcb_at i s)) s
    = (0, upd_tcb i (tcb_enter TASK_STATE_RUNNING 0 TASK_WAIT_REASON_NONE 0) s)"
  using sys_inv_lookup[OF assms(1,2)] assms(3) tasks.lookup_SomeD(4)[of _ "task_table s" i]
  by (simp add: task_mark_running_def tcb_used_def lookup_tcb_def split: if_splits)

lemma sys_inv_run_next:
  assumes inv: "sys_inv s" and i: "i < MAX_TASKS" "tstate (tcb_at i s) = TASK_STATE_READY"
    and alone: "\<And>j. current_task s = Some j \<Longrightarrow> tstate (tcb_at j s) \<noteq> TASK_STATE_RUNNING"
  shows "sys_inv ((upd_tcb i (tcb_enter TASK_STATE_RUNNING 0 TASK_WAIT_REASON_NONE 0) s)\<lparr>current_task := Some i\<rparr>)"
proof -
  have k: "lookup_tcb (tid (tcb_at i s)) (task_table s) = Some i"
    using sys_inv_lookup[OF inv i(1)] i(2) by (simp add: tcb_used_def)
  have "kernel_inv (snd (dispatcher_commit_current (Some i) s))"
    using kernel_inv_commit_current[OF sys_inv_kernel[OF inv] k] i(2) alone by (simp add: tcb_at_def)
  moreover have "tstate (task_table s ! i) = TASK_STATE_READY" using i(2) by (simp add: tcb_at_def)
  ultimately show ?thesis
    using commit_current_spec[OF k] entries_ok_enter(2)[OF _ k] inv by (simp add: sys_inv_def)
qed

text \<open>The state of the tasks between the transitions of a switch and its first entry.\<close>

definition switched :: "nat \<Rightarrow> nat \<Rightarrow> 'a dispatcher_module_scheme \<Rightarrow> 'a dispatcher_module_scheme" where
  "switched f t s =
     (upd_tcb t (tcb_enter TASK_STATE_RUNNING 0 TASK_WAIT_REASON_NONE 0)
       (if tstate (tcb_at f s) = TASK_STATE_RUNNING
        then upd_tcb f (tcb_enter TASK_STATE_READY 0 TASK_WAIT_REASON_NONE 0) s else s))\<lparr>current_task := Some t\<rparr>"

lemma transitions_spec:
  assumes inv: "sys_inv s" and f: "f < MAX_TASKS" "current_task s = Some f"
    and t: "t < MAX_TASKS" "tstate (tcb_at t s) = TASK_STATE_READY" "t \<noteq> f"
  shows "\<exists>s'. dispatcher_transitions f t s = (None, s') \<and> sys_inv s' \<and> current_task s' = Some t \<and>
    tcb_at t s' = tcb_enter TASK_STATE_RUNNING 0 TASK_WAIT_REASON_NONE 0 (tcb_at t s) \<and>
    tcb_at f s' = (if tstate (tcb_at f s) = TASK_STATE_RUNNING
      then tcb_enter TASK_STATE_READY 0 TASK_WAIT_REASON_NONE 0 (tcb_at f s) else tcb_at f s) \<and>
    (\<forall>j. j \<noteq> f \<longrightarrow> j \<noteq> t \<longrightarrow> tcb_at j s' = tcb_at j s) \<and>
    core s' = core (switched f t s) \<and> dispatcher_module.more s' = dispatcher_module.more s \<and>
    task_to_task_smoke_from s' = task_to_task_smoke_from s"
proof -
  define s1 where "s1 = (if tstate (tcb_at f s) = TASK_STATE_RUNNING
    then upd_tcb f (tcb_enter TASK_STATE_READY 0 TASK_WAIT_REASON_NONE 0)
      (say (\<lambda>s. [''[dispatcher] state transition:''] @ dispatcher_log_task '' from'' (Some (tcb_at f s))
         @ ['' RUNNING->READY\<newline>'']) s) else s)"
  let ?log = "\<lambda>s. [''[dispatcher] state transition:''] @ dispatcher_log_task '' to'' (Some (tcb_at t s))
                     @ ['' READY->RUNNING\<newline>'']"
  note len = sys_inv_length[OF inv]
  have inv1: "sys_inv s1"
    using inv sys_inv_mark_ready[of "say g s" "tid (tcb_at f s)" for g] mark_ready_spec[of "say g s" f for g] f
    by (simp add: s1_def) (metis snd_conv sys_inv_say tcb_at_say)
  have at1: "tcb_at j s1 = (if j = f \<and> tstate (tcb_at f s) = TASK_STATE_RUNNING
      then tcb_enter TASK_STATE_READY 0 TASK_WAIT_REASON_NONE 0 (tcb_at f s) else tcb_at j s)" for j
    using f len by (auto simp: s1_def tcb_at_upd)
  have s1: "current_task s1 = Some f" "semaphore_table s1 = semaphore_table s" "dq_items s1 = dq_items s"
    "task_to_task_smoke_from s1 = task_to_task_smoke_from s"
    using f by (simp_all add: s1_def)
  let ?s2 = "say ?log s1"
  let ?s' = "(upd_tcb t (tcb_enter TASK_STATE_RUNNING 0 TASK_WAIT_REASON_NONE 0) ?s2)\<lparr>current_task := Some t\<rparr>"
  have ready: "tstate (tcb_at t ?s2) = TASK_STATE_READY" using t at1 by simp
  have run: "task_mark_running (tid (tcb_at t ?s2)) ?s2
      = (0, upd_tcb t (tcb_enter TASK_STATE_RUNNING 0 TASK_WAIT_REASON_NONE 0) ?s2)"
    using mark_running_spec[of ?s2 t] inv1 t(1) ready by simp
  have trans: "dispatcher_transitions f t s = (None, ?s')"
  proof (cases "tstate (tcb_at f s) = TASK_STATE_RUNNING")
    case True
    have "task_mark_ready_from_running (tid (tcb_at f s)) (say g s)
        = (0, upd_tcb f (tcb_enter TASK_STATE_READY 0 TASK_WAIT_REASON_NONE 0) (say g s))" for g
      using mark_ready_spec[of "say g s" f] inv f(1) True by simp
    with True run show ?thesis
      by (simp add: dispatcher_transitions_def s1_def dispatcher_error_of_def Let_def)
  next
    case False
    with run show ?thesis by (simp add: dispatcher_transitions_def s1_def dispatcher_error_of_def Let_def)
  qed
  have inv': "sys_inv ?s'"
    using sys_inv_run_next[of ?s2 t] inv1 t(1) ready s1(1) at1 by auto
  have at': "tcb_at j ?s' = (if j = t then tcb_enter TASK_STATE_RUNNING 0 TASK_WAIT_REASON_NONE 0 (tcb_at t s1)
      else tcb_at j s1)" for j
    using t(1) sys_inv_length[OF inv1] by (simp add: tcb_at_def task_table_upd_tcb nth_update_eq_if)
  have more: "dispatcher_module.more (say g s) = dispatcher_module.more s"
    "dispatcher_module.more (upd_tcb i h s) = dispatcher_module.more s" for g i h and s :: "'a dispatcher_module_scheme"
    by (simp_all add: say_def writes_def upd_tcb_def)
  have "core ?s' = core (switched f t s)"
    by (simp add: core_def switched_def s1_def task_table_upd_tcb)
  moreover have "dispatcher_module.more ?s' = dispatcher_module.more s"
    by (simp add: s1_def more)
  ultimately show ?thesis
    using trans inv' s1 t(3) by (intro exI[of _ ?s']) (simp add: at' at1)
qed


subsection \<open>The context switches return\<close>

lemma prepare_invalid:
  "\<not> valid_stack i s \<Longrightarrow> \<exists>g. task_context_prepare_initial_frame env (Some i) s = (TASK_CONTEXT_ERR_INVAL, say g s)"
  by (auto simp: task_context_prepare_initial_frame_def valid_stack_def)

context switch_inv
begin

lemma inv_reservation:
  "inv s \<Longrightarrow> inv (s\<lparr>task_to_task_smoke_from := a, task_to_task_smoke_to := b\<rparr>)"
  using inv_core[of "s\<lparr>task_to_task_smoke_from := a, task_to_task_smoke_to := b\<rparr>" s]
  by (simp add: core_def)

lemma inv_prepare:
  assumes "i < MAX_TASKS" and "valid_stack i s"
    and "task_context_prepare_initial_frame env (Some i) s = (r, s')" and "inv s"
  shows "inv s'"
proof -
  obtain f c where s': "s' = say f (save_context i c (s\<lparr>stack_mem := (stack_mem s)(rsp c \<mapsto> trampoline_address env)\<rparr>))"
    and c: "rsp c \<noteq> 0"
    using prepare_spec[OF _ assms(2), of env] assms(1,3) inv_length[OF assms(4)] by (auto simp: save_context_def)
  have "core (s\<lparr>stack_mem := m\<rparr>) = core s" for m by (simp add: core_def)
  from inv_core[OF this] assms(4) show ?thesis by (simp add: s' inv_context[OF _ c])
qed

end

lemma fields_reservation [simp]:
  "tcb_at i (s\<lparr>task_to_task_smoke_from := a, task_to_task_smoke_to := b\<rparr>) = tcb_at i s"
  "valid_stack i (s\<lparr>task_to_task_smoke_from := a, task_to_task_smoke_to := b\<rparr>) = valid_stack i s"
  "prepared env i (s\<lparr>task_to_task_smoke_from := a, task_to_task_smoke_to := b\<rparr>) = prepared env i s"
  by (simp_all add: tcb_at_def valid_stack_def context_validate_task_def prepared_def)

definition no_reservation :: "'a context_module_scheme \<Rightarrow> bool" where
  "no_reservation s \<longleftrightarrow> task_to_task_smoke_from s = None"

context switch_contract
begin

lemma pair_returns:
  assumes inv: "inv s" and f: "f < MAX_TASKS" "tcb_used (tcb_at f s)"
    and t: "t < MAX_TASKS" "tcb_used (tcb_at t s)" "t \<noteq> f"
  shows "\<exists>r s'. task_context_switch_to_task_pair env (Some f) (Some t) s = Some (r, s') \<and> inv s' \<and>
    (no_reservation s \<longrightarrow> no_reservation s') \<and>
    (valid_stack f s \<and> valid_stack t s \<longrightarrow> r = TASK_CONTEXT_OK)"
proof -
  note len = inv_length[OF inv]
  consider "\<not> valid_stack f s" | "valid_stack f s" "\<not> valid_stack t s" | "valid_stack f s" "valid_stack t s"
    by blast
  then show ?thesis
  proof cases
    case 1
    then obtain g where "task_context_prepare_initial_frame env (Some f) s = (TASK_CONTEXT_ERR_INVAL, say g s)"
      using prepare_invalid by blast
    with 1 inv t(3) show ?thesis by (simp add: task_context_switch_to_task_pair_def no_reservation_def)
  next
    case 2
    obtain r1 s1 where p1: "task_context_prepare_initial_frame env (Some f) s = (r1, s1)" by fastforce
    note s1 = prepare_prepares[OF _ 2(1) p1] and inv1 = inv_prepare[OF f(1) 2(1) p1 inv]
    have "\<not> valid_stack t s1" using 2 s1(12)[of t] f t len by simp
    then obtain g where "task_context_prepare_initial_frame env (Some t) s1 = (TASK_CONTEXT_ERR_INVAL, say g s1)"
      using prepare_invalid by blast
    moreover have "task_to_task_smoke_from s1 = task_to_task_smoke_from s"
      using prepare_spec[OF _ 2(1), of env] p1 f(1) len by auto
    ultimately show ?thesis
      using p1 s1(1) inv1 2 inv t f len by (simp add: task_context_switch_to_task_pair_def no_reservation_def)
  next
    case 3
    obtain r1 s1 where p1: "task_context_prepare_initial_frame env (Some f) s = (r1, s1)" by fastforce
    note s1 = prepare_prepares[OF _ 3(1) p1] and inv1 = inv_prepare[OF f(1) 3(1) p1 inv]
    have v: "valid_stack t s1" using 3 s1(12)[of t] f t len by simp
    obtain r2 s2 where p2: "task_context_prepare_initial_frame env (Some t) s1 = (r2, s2)" by fastforce
    have len1: "length (task_table s1) = MAX_TASKS" using s1(5) f len by simp
    note s2 = prepare_prepares[OF _ v p2] and inv2 = inv_prepare[OF t(1) v p2 inv1]
    let ?s3 = "s2\<lparr>task_to_task_smoke_from := Some f, task_to_task_smoke_to := Some t\<rparr>"
    have inv3: "inv ?s3" using inv2 by (simp add: inv_reservation)
    have used: "tcb_used (tcb_at f ?s3)" "tcb_used (tcb_at t ?s3)"
      using s1(8) s2(8) f t len len1 by simp_all
    have prep: "prepared env f ?s3" "prepared env t ?s3" "valid_stack f ?s3"
      using s1(2,3) s2(2,12,13) f t len len1 by simp_all
    obtain s4 where s4: "task_context_switch_to_task env (Some f) ?s3 = Some (TASK_CONTEXT_OK, s4)" "inv s4"
      using switch_to_task_returns[OF inv3 f(1) used(1) prep(3,1)] t used prep by auto
    have "\<exists>g. task_context_switch_to_task_pair env (Some f) (Some t) s
        = Some (TASK_CONTEXT_OK, (say g s4)\<lparr>task_to_task_smoke_from := None, task_to_task_smoke_to := None\<rparr>)"
      using p1 p2 s1(1) s2(1) s4(1) t f len len1 by (auto simp: task_context_switch_to_task_pair_def)
    with s4(2) show ?thesis by (auto simp: inv_reservation no_reservation_def)
  qed
qed

lemma dispatcher_enter_returns:
  assumes inv: "inv s" and f: "f < MAX_TASKS" "tcb_used (tcb_at f s)"
    and t: "t < MAX_TASKS" "tcb_used (tcb_at t s)" "t \<noteq> f" and nores: "no_reservation s"
  shows "\<exists>r s'. dispatcher_enter env f t s = Some (r, s') \<and> inv s' \<and>
    no_reservation s' \<and>
    (valid_stack t s \<and> (tstate (tcb_at f s) \<noteq> TASK_STATE_WAITING \<longrightarrow> valid_stack f s) \<longrightarrow> r = DISPATCHER_OK)"
proof (cases "tstate (tcb_at f s) = TASK_STATE_WAITING")
  case False
  from pair_returns[OF inv f t] obtain r s' where
    "task_context_switch_to_task_pair env (Some f) (Some t) s = Some (r, s')" "inv s'"
    "no_reservation s'" "valid_stack f s \<and> valid_stack t s \<longrightarrow> r = TASK_CONTEXT_OK" using nores by blast
  with False show ?thesis by (simp add: dispatcher_enter_def no_reservation_def)
next
  case True
  show ?thesis
  proof (cases "valid_stack t s")
    case False
    then obtain g where "task_context_prepare_initial_frame env (Some t) s = (TASK_CONTEXT_ERR_INVAL, say g s)"
      using prepare_invalid by blast
    with True False inv nores show ?thesis by (simp add: dispatcher_enter_def no_reservation_def)
  next
    case valid: True
    note len = inv_length[OF inv]
    obtain r1 s1 where p1: "task_context_prepare_initial_frame env (Some t) s = (r1, s1)" by fastforce
    have tl: "t < length (task_table s)" using t(1) len by simp
    note s1 = prepare_prepares[OF tl valid p1] and inv1 = inv_prepare[OF t(1) valid p1 inv]
    have res1: "task_to_task_smoke_from s1 = None"
      using prepare_spec[OF tl valid, of env] p1 nores by (auto simp: no_reservation_def)
    then obtain s2 where "task_context_switch_to_task env (Some t) s1 = Some (TASK_CONTEXT_OK, s2)" "inv s2"
      "no_reservation s2"
      using switch_to_task_returns[OF inv1 t(1) _ s1(3,2)] s1(8) t(2) res1
      by (auto simp: no_reservation_def)
    with True p1 s1(1) show ?thesis by (simp add: dispatcher_enter_def no_reservation_def)
  qed
qed

end


subsection \<open>The switch boundary\<close>

definition os_inv :: "'a dispatcher_module_scheme \<Rightarrow> bool" where
  "os_inv s \<longleftrightarrow> sys_inv s \<and> no_reservation s"

lemma os_inv_say [simp]: "os_inv (say f s) = os_inv s"
  by (simp add: os_inv_def no_reservation_def)

lemma os_inv_core:
  assumes "core s' = core s" and "task_to_task_smoke_from s' = task_to_task_smoke_from s"
  shows "os_inv s' = os_inv s"
  using sys_inv_core[OF assms(1)] assms(2) by (simp add: os_inv_def no_reservation_def)

lemma os_invD:
  assumes "os_inv s"
  shows "sys_inv s" and "kernel_inv s" and "length (task_table s) = MAX_TASKS" and "no_reservation s"
  using assms by (simp_all add: os_inv_def sys_inv_kernel sys_inv_length)

lemma os_inv_current:
  assumes "os_inv s" and "current_task s = Some c"
  shows "c < MAX_TASKS" and "tcb_used (tcb_at c s)"
    and "lookup_tcb (tid (tcb_at c s)) (task_table s) = Some c"
proof -
  have "run_ok (task_table s) (current_task s)" by (rule kernel_invD(2)[OF os_invD(2)[OF assms(1)]])
  then show c: "c < MAX_TASKS" "tcb_used (tcb_at c s)"
    using assms(2) os_invD(3)[OF assms(1)] by (simp_all add: run_ok_def tcb_at_def)
  show "lookup_tcb (tid (tcb_at c s)) (task_table s) = Some c"
    by (rule sys_inv_lookup[OF os_invD(1)[OF assms(1)] c])
qed

definition switchable :: "task_state_t \<Rightarrow> bool" where
  "switchable st \<longleftrightarrow> st = TASK_STATE_RUNNING \<or> st = TASK_STATE_READY \<or> st = TASK_STATE_WAITING"

lemma select_next_ready:
  assumes "os_inv s" and "scheduler_select_next s = Some n"
  shows "n < MAX_TASKS" and "tstate (tcb_at n s) = TASK_STATE_READY"
    and "lookup_tcb (tid (tcb_at n s)) (task_table s) = Some n"
proof -
  have "n \<in> ready_slots (task_table s)"
    using sched.select_ready[of "task_table s" n] os_invD(3)[OF assms(1)] assms(2)
    by (simp add: scheduler_select_next_table)
  then show n: "n < MAX_TASKS" "tstate (tcb_at n s) = TASK_STATE_READY"
    using os_invD(3)[OF assms(1)] by (simp_all add: ready_slots_def tcb_at_def)
  show "lookup_tcb (tid (tcb_at n s)) (task_table s) = Some n"
    using sys_inv_lookup[OF os_invD(1)[OF assms(1)] n(1)] n(2) by (simp add: tcb_used_def)
qed

text \<open>With a task to switch to, each service logs, switches and logs again.\<close>

lemma switch_candidates:
  assumes "os_inv s" and "current_task s = Some c" and "scheduler_select_next s = Some n"
  shows "task_get_mutable_by_id (tid (tcb_at c s)) s = Some c" and "task_get_mutable_by_id (tid (tcb_at n s)) s = Some n"
  using os_inv_current(3)[OF assms(1,2)] select_next_ready(3)[OF assms(1,3)]
  by (simp_all add: task_get_mutable_by_id_def)

lemma wait_switch_step:
  assumes "os_inv s" and "current_task s = Some c" and "scheduler_select_next s = Some n"
  obtains f g where "wait_switch env op nf fl sw c s =
      Option.bind (dispatcher_switch_to env (Some c) (Some n) (say g (say f s)))
        (\<lambda>(r, s). let s = say (\<lambda>s. [''['', op, ''] switch end: result='', mag_str r, ''\<newline>'']) s in
          if r \<noteq> DISPATCHER_OK then Some (E_OBJ, completed op E_OBJ fl s) else Some (E_OK, completed op E_OK sw s))"
proof -
  have "\<exists>f g. wait_switch env op nf fl sw c s =
      Option.bind (dispatcher_switch_to env (Some c) (Some n) (say g (say f s)))
        (\<lambda>(r, s). let s = say (\<lambda>s. [''['', op, ''] switch end: result='', mag_str r, ''\<newline>'']) s in
          if r \<noteq> DISPATCHER_OK then Some (E_OBJ, completed op E_OBJ fl s) else Some (E_OK, completed op E_OK sw s))"
    using assms(3) switch_candidates[OF assms] by (auto simp: wait_switch_def Let_def)
  with that show thesis by blast
qed

lemma slp_tsk_switch_step:
  assumes "os_inv s" and "current_task s = Some c" and "scheduler_select_next s = Some n"
  obtains f g where "slp_tsk_switch env c s =
      Option.bind (dispatcher_switch_to env (Some c) (Some n) (say g (say f s)))
        (\<lambda>(r, s). if r \<noteq> DISPATCHER_OK then Some (E_OBJ, completed ''slp-tsk'' E_OBJ ''sleep-switch-failed'' s)
          else Some (E_OK, completed ''slp-tsk'' E_OK ''sleep'' s))"
proof -
  have "\<exists>f g. slp_tsk_switch env c s =
      Option.bind (dispatcher_switch_to env (Some c) (Some n) (say g (say f s)))
        (\<lambda>(r, s). if r \<noteq> DISPATCHER_OK then Some (E_OBJ, completed ''slp-tsk'' E_OBJ ''sleep-switch-failed'' s)
          else Some (E_OK, completed ''slp-tsk'' E_OK ''sleep'' s))"
    using assms(3) switch_candidates[OF assms] by (auto simp: slp_tsk_switch_def Let_def)
  with that show thesis by blast
qed

lemma yield_tsk_switch_step:
  assumes "os_inv s" and "current_task s = Some c" and "scheduler_select_next s = Some n"
    and "tid (tcb_at n s) \<noteq> tid (tcb_at c s)"
  obtains f g where "yield_tsk_switch env c (Some n) s =
      Option.bind (dispatcher_switch_to env (Some c) (Some n) (say g (say f s)))
        (\<lambda>(r, s). Some (E_OK, completed ''yield'' E_OK ''switched''
          (say (\<lambda>s. [''[yield] switch end: result='', mag_str r, ''\<newline>'']) s)))"
proof -
  have "\<exists>f g. yield_tsk_switch env c (Some n) s =
      Option.bind (dispatcher_switch_to env (Some c) (Some n) (say g (say f s)))
        (\<lambda>(r, s). Some (E_OK, completed ''yield'' E_OK ''switched''
          (say (\<lambda>s. [''[yield] switch end: result='', mag_str r, ''\<newline>'']) s)))"
    using assms(4) switch_candidates[OF assms(1-3)] by (auto simp: yield_tsk_switch_def Let_def)
  with that show thesis by blast
qed

context entry_contract
begin

lemma dispatcher_switch_returns:
  assumes inv: "os_inv s" and f: "current_task s = Some f" and t: "t < MAX_TASKS"
  shows "\<exists>r s'. dispatcher_switch_to env (Some f) (Some t) s = Some (r, s') \<and> os_inv s' \<and>
    (f \<noteq> t \<and> switchable (tstate (tcb_at f s)) \<and> tstate (tcb_at t s) = TASK_STATE_READY \<and>
       valid_stack f s \<and> valid_stack t s \<longrightarrow> r = DISPATCHER_OK)"
proof (cases "f \<noteq> t \<and> switchable (tstate (tcb_at f s)) \<and> tstate (tcb_at t s) = TASK_STATE_READY")
  case False
  then have "\<exists>r g. dispatcher_switch_to env (Some f) (Some t) s = Some (r, say g s)"
    by (auto simp: dispatcher_switch_to_def switchable_def)
  with inv False show ?thesis by auto
next
  case True
  define s1 where "s1 = say (\<lambda>s'. [''[dispatcher] switch boundary begin:'']
     @ dispatcher_log_task '' from'' (ptr_tcb (Some f) s')
     @ dispatcher_log_task '' to'' (ptr_tcb (Some t) s') @ [''\<newline>'']) s"
  have s1: "sys_inv s1" "current_task s1 = Some f" "no_reservation s1" "tcb_at i s1 = tcb_at i s"
    "valid_stack i s1 = valid_stack i s" for i
    using inv f by (simp_all add: s1_def os_inv_def no_reservation_def valid_stack_def context_validate_task_def)
  note c = os_inv_current[OF inv f]
  obtain s2 where trans: "dispatcher_transitions f t s1 = (None, s2)" and s2: "sys_inv s2"
    "tcb_at t s2 = tcb_enter TASK_STATE_RUNNING 0 TASK_WAIT_REASON_NONE 0 (tcb_at t s1)"
    "tcb_at f s2 = (if tstate (tcb_at f s1) = TASK_STATE_RUNNING
      then tcb_enter TASK_STATE_READY 0 TASK_WAIT_REASON_NONE 0 (tcb_at f s1) else tcb_at f s1)"
    "task_to_task_smoke_from s2 = task_to_task_smoke_from s1"
    using transitions_spec[OF s1(1) c(1) s1(2) t] True s1(4) by metis
  then have "no_reservation s2" using s1(3) by (simp add: no_reservation_def)
  moreover have "tcb_used (tcb_at f s2)" "tcb_used (tcb_at t s2)" "valid_stack f s2 = valid_stack f s"
    "valid_stack t s2 = valid_stack t s"
    using s2 c s1 by (auto simp: tcb_used_def valid_stack_def context_validate_task_def tcb_enter_def)
  ultimately obtain r s3 where "dispatcher_enter env f t s2 = Some (r, s3)" "os_inv s3"
    "valid_stack f s \<and> valid_stack t s \<longrightarrow> r = DISPATCHER_OK"
    using dispatcher_enter_returns[OF s2(1) c(1) _ t] True by (auto simp: os_inv_def)
  with trans True show ?thesis
    by (auto simp: dispatcher_switch_to_def s1_def[symmetric] switchable_def Let_def)
qed

subsection \<open>The services that end with a switch\<close>

lemma os_inv_completed [simp]: "os_inv (completed op e a s) = os_inv s"
  by (simp add: completed_def)

lemma logged_switch_returns:
  assumes "os_inv s" and "current_task s = Some c" and "scheduler_select_next s = Some n"
  obtains r s' where "dispatcher_switch_to env (Some c) (Some n) (say g (say f s)) = Some (r, s')" and "os_inv s'"
  using dispatcher_switch_returns[of "say g (say f s)" c n] assms select_next_ready(1)[OF assms(1,3)] by auto

lemma wait_switch_returns:
  assumes inv: "os_inv s" and c: "current_task s = Some c"
  shows "\<exists>r s'. wait_switch env op nf fl sw c s = Some (r, s') \<and> os_inv s' \<and> (r = E_OK \<or> r = E_OBJ)"
proof (cases "scheduler_select_next s")
  case None
  with inv show ?thesis by (simp add: wait_switch_def)
next
  case (Some n)
  obtain f g where step: "wait_switch env op nf fl sw c s =
      Option.bind (dispatcher_switch_to env (Some c) (Some n) (say g (say f s)))
        (\<lambda>(r, s). let s = say (\<lambda>s. [''['', op, ''] switch end: result='', mag_str r, ''\<newline>'']) s in
          if r \<noteq> DISPATCHER_OK then Some (E_OBJ, completed op E_OBJ fl s) else Some (E_OK, completed op E_OK sw s))"
    by (rule wait_switch_step[OF inv c Some])
  obtain r s' where "dispatcher_switch_to env (Some c) (Some n) (say g (say f s)) = Some (r, s')" "os_inv s'"
    by (rule logged_switch_returns[OF inv c Some])
  with step show ?thesis by (simp add: Let_def)
qed

lemma slp_tsk_switch_returns:
  assumes inv: "os_inv s" and c: "current_task s = Some c"
  shows "\<exists>r s'. slp_tsk_switch env c s = Some (r, s') \<and> os_inv s' \<and> (r = E_OK \<or> r = E_OBJ)"
proof (cases "scheduler_select_next s")
  case None
  with inv show ?thesis by (simp add: slp_tsk_switch_def)
next
  case (Some n)
  obtain f g where step: "slp_tsk_switch env c s =
      Option.bind (dispatcher_switch_to env (Some c) (Some n) (say g (say f s)))
        (\<lambda>(r, s). if r \<noteq> DISPATCHER_OK then Some (E_OBJ, completed ''slp-tsk'' E_OBJ ''sleep-switch-failed'' s)
          else Some (E_OK, completed ''slp-tsk'' E_OK ''sleep'' s))"
    by (rule slp_tsk_switch_step[OF inv c Some])
  obtain r s' where "dispatcher_switch_to env (Some c) (Some n) (say g (say f s)) = Some (r, s')" "os_inv s'"
    by (rule logged_switch_returns[OF inv c Some])
  with step show ?thesis by simp
qed

lemma yield_tsk_switch_returns:
  assumes inv: "os_inv s" and c: "current_task s = Some c" and next_: "scheduler_select_next s = nx"
  shows "\<exists>s'. yield_tsk_switch env c nx s = Some (E_OK, s') \<and> os_inv s'"
proof (cases "nx = None \<or> tid (tcb_at (the nx) s) = tid (tcb_at c s)")
  case True
  with inv show ?thesis by (simp add: yield_tsk_switch_def)
next
  case False
  then obtain n where nx: "nx = Some n" "tid (tcb_at n s) \<noteq> tid (tcb_at c s)" by auto
  note sel = next_[unfolded nx(1)]
  obtain f g where step: "yield_tsk_switch env c (Some n) s =
      Option.bind (dispatcher_switch_to env (Some c) (Some n) (say g (say f s)))
        (\<lambda>(r, s). Some (E_OK, completed ''yield'' E_OK ''switched''
          (say (\<lambda>s. [''[yield] switch end: result='', mag_str r, ''\<newline>'']) s)))"
    by (rule yield_tsk_switch_step[OF inv c sel nx(2)])
  obtain r s' where "dispatcher_switch_to env (Some c) (Some n) (say g (say f s)) = Some (r, s')" "os_inv s'"
    by (rule logged_switch_returns[OF inv c sel])
  with step nx(1) show ?thesis by simp
qed

end

subsection \<open>A task begins to wait\<close>

lemma mark_sleep_spec:
  assumes "os_inv s" and "current_task s = Some c" and "tstate (tcb_at c s) = TASK_STATE_RUNNING"
  shows "\<exists>f. task_mark_waiting_on_sleep (tid (tcb_at c s)) s
    = (0, say f (upd_tcb c (tcb_enter TASK_STATE_WAITING 0 TASK_WAIT_REASON_SLEEP 0) s))"
  using os_inv_current(3)[OF assms(1,2)] tasks.lookup_SomeD(4)[OF os_inv_current(3)[OF assms(1,2)]] assms(3)
  by (auto simp: task_mark_waiting_on_sleep_def task_get_mutable_by_id_def Let_def)

lemma os_inv_mark_sleep: "os_inv s \<Longrightarrow> os_inv (snd (task_mark_waiting_on_sleep k s))"
  by (simp add: os_inv_def sys_inv_def kernel_inv_mark_sleep entries_ok_marks)
    (simp add: no_reservation_def task_mark_waiting_on_sleep_def Let_def split: option.split)

lemma os_inv_mark_ready: "os_inv s \<Longrightarrow> os_inv (snd (task_mark_ready_from_running k s))"
  by (simp add: os_inv_def sys_inv_mark_ready)
    (simp add: no_reservation_def task_mark_ready_from_running_def Let_def split: option.split)

lemma current_marks [simp]:
  "current_task (snd (task_mark_waiting_on_sleep k s)) = current_task s"
  "current_task (snd (task_mark_ready_from_running k s)) = current_task s"
  by (simp_all add: task_mark_waiting_on_sleep_def task_mark_ready_from_running_def Let_def split: option.split)

context entry_contract
begin

theorem slp_tsk_returns:
  assumes "os_inv s"
  shows "\<exists>r s'. slp_tsk env s = Some (r, s') \<and> os_inv s'"
proof (cases "current_task s")
  case None
  with assms show ?thesis by (simp add: slp_tsk_def dispatcher_get_current_def)
next
  case (Some c)
  let ?s1 = "tcb_say c (\<lambda>t. [''[slp-tsk] called: current''] @ itron_api_log_next_candidate t @ [''\<newline>'']) s"
  show ?thesis
  proof (cases "tstate (tcb_at c s) = TASK_STATE_RUNNING")
    case False
    with assms Some show ?thesis by (simp add: slp_tsk_def dispatcher_get_current_def)
  next
    case True
    obtain s2 where s2: "task_mark_waiting_on_sleep (tid (tcb_at c s)) ?s1 = (0, s2)"
      using mark_sleep_spec[of ?s1 c] assms Some True by auto
    with os_inv_mark_sleep[of ?s1 "tid (tcb_at c s)"] current_marks(1)[of "tid (tcb_at c s)" ?s1] assms Some
    have "os_inv s2" "current_task s2 = Some c" by simp_all
    from slp_tsk_switch_returns[OF this] True Some s2 show ?thesis
      by (auto simp: slp_tsk_def dispatcher_get_current_def)
  qed
qed

theorem yield_tsk_returns:
  assumes "os_inv s"
  shows "\<exists>r s'. yield_tsk env s = Some (r, s') \<and> os_inv s'"
proof (cases "current_task s")
  case None
  with assms show ?thesis by (simp add: yield_tsk_def dispatcher_get_current_def)
next
  case (Some c)
  let ?s1 = "tcb_say c (\<lambda>t. [''[yield] called: current''] @ itron_api_log_task_identity t @ [''\<newline>'']) s"
  show ?thesis
  proof (cases "tstate (tcb_at c s) = TASK_STATE_RUNNING")
    case False
    with assms Some show ?thesis by (simp add: yield_tsk_def dispatcher_get_current_def)
  next
    case True
    obtain s2 where s2: "task_mark_ready_from_running (tid (tcb_at c s)) ?s1 = (0, s2)"
      using mark_ready_spec[of ?s1 c] os_invD(1)[of ?s1] os_inv_current(1)[OF assms Some] assms True by auto
    with os_inv_mark_ready[of ?s1 "tid (tcb_at c s)"] current_marks(2)[of "tid (tcb_at c s)" ?s1] assms Some
    have "os_inv s2" "current_task s2 = Some c" by simp_all
    with yield_tsk_switch_returns[of "tcb_say c (\<lambda>t. [''[yield] state transition: current'']
        @ itron_api_log_task_id_name t @ ['' RUNNING->READY\<newline>'']) s2" c "scheduler_select_next s2"]
    obtain s' where "yield_tsk_switch env c (scheduler_select_next s2)
        (tcb_say c (\<lambda>t. [''[yield] state transition: current'']
          @ itron_api_log_task_id_name t @ ['' RUNNING->READY\<newline>'']) s2) = Some (E_OK, s')" "os_inv s'"
      by auto
    moreover have "tstate (tcb_at c ?s1) = TASK_STATE_RUNNING" using True by simp
    ultimately show ?thesis using Some s2 by (simp add: yield_tsk_def dispatcher_get_current_def)
  qed
qed

text \<open>The pending request: the boundary consumes it and the switch it asks for returns.\<close>

lemma os_inv_clear [simp]:
  "os_inv (dispatch_pending_clear_with_reason l s) = os_inv s"
  by (rule os_inv_core) (simp_all add: dispatch_pending_clear_with_reason_def Let_def split: option.split)

lemma requested_clear [simp]: "\<not> requested (dispatch_pending_state (dispatch_pending_clear_with_reason l s))"
  by (simp add: dispatch_pending_clear_with_reason_def no_pending_def Let_def say_def writes_def split: option.split)

theorem consume_returns:
  assumes "os_inv s"
  shows "\<exists>r s'. dispatch_pending_consume_at_deferred_boundary env s = Some (r, s') \<and> os_inv s' \<and>
    \<not> requested (dispatch_pending_state s')"
proof (cases "dispatch_pending_take_snapshot s")
  case None
  with assms show ?thesis
    by (auto simp: dispatch_pending_consume_at_deferred_boundary_def dispatch_pending_take_snapshot_def
        Let_def split: if_splits)
next
  case (Some snap)
  define s1 where "s1 = dispatch_pending_log_consumed snap s"
  have s1: "os_inv s1" using assms by (simp add: s1_def dispatch_pending_log_consumed_def)
  show ?thesis
  proof (cases "\<exists>f t. task_get_mutable_by_id (from_task_id snap) s1 = Some f \<and>
      task_get_mutable_by_id (to_task_id snap) s1 = Some t \<and>
      tstate (tcb_at f s1) = TASK_STATE_RUNNING \<and> tstate (tcb_at t s1) = TASK_STATE_READY")
    case False
    then have "\<exists>g l. dispatch_pending_consume_at_deferred_boundary env s
        = Some (DISPATCH_PENDING_CONSUME_INVALID, dispatch_pending_clear_with_reason l (say g s1))"
      using Some by (fastforce simp: dispatch_pending_consume_at_deferred_boundary_def s1_def[symmetric] Let_def)
    with s1 show ?thesis by auto
  next
    case True
    then obtain f t where ft: "lookup_tcb (from_task_id snap) (task_table s1) = Some f"
      "lookup_tcb (to_task_id snap) (task_table s1) = Some t"
      "tstate (tcb_at f s1) = TASK_STATE_RUNNING" "tstate (tcb_at t s1) = TASK_STATE_READY"
      by (auto simp: task_get_mutable_by_id_def)
    have "f < MAX_TASKS" "t < MAX_TASKS"
      using tasks.lookup_SomeD(1)[OF ft(1)] tasks.lookup_SomeD(1)[OF ft(2)] os_invD(3)[OF s1] by simp_all
    moreover have "current_task s1 = Some f"
      using kernel_invD(2)[OF os_invD(2)[OF s1]] ft(3) calculation(1) os_invD(3)[OF s1]
      by (auto simp: run_ok_def tcb_at_def)
    ultimately obtain r s2 where "dispatcher_switch_to env (Some f) (Some t) s1 = Some (r, s2)" "os_inv s2"
      using dispatcher_switch_returns[OF s1] by blast
    with Some ft show ?thesis
      by (simp add: dispatch_pending_consume_at_deferred_boundary_def s1_def[symmetric] Let_def
          task_get_mutable_by_id_def)
  qed
qed

end

end
