(* ===== verification/Blocking.thy ===== *)
theory Blocking
  imports Dispatch_Inv
begin

section \<open>The services that wait\<close>

text \<open>
  \<open>wai_sem\<close>, \<open>twai_sem\<close> and \<open>dly_tsk\<close>: the current task becomes WAITING, enters its queues and the
  dispatcher takes the next READY task. Between these steps the records of the wait disagree; this
  theory shows that each enqueue after the state change succeeds, so that they agree again before
  the switch, and that the services return and keep the invariant.
\<close>

subsection \<open>The dump writes to the console only\<close>

lemma fold_writes:
  assumes "\<And>x s. \<exists>ms. f x s = writes ms s"
  shows "\<exists>ms. fold f xs s = writes ms s"
proof (induction xs arbitrary: s)
  case Nil
  have "s = writes [] s" by (simp add: writes_def)
  then show ?case by auto
next
  case (Cons x xs)
  obtain ms where "f x s = writes ms s" using assms by blast
  moreover obtain ns where "fold f xs (writes ms s) = writes ns (writes ms s)" using Cons.IH by blast
  ultimately show ?case by (auto simp: writes_append)
qed

lemma dump_writes:
  fixes s :: "'a delay_module_scheme"
  shows "\<exists>f. delay_queue_dump s = say f s"
proof -
  have says: "\<exists>ms. say g (say f s) = writes ms s" for f g and s :: "'a delay_module_scheme"
    by (auto simp: say_def writes_append)
  let ?body = "\<lambda>index (s :: 'a delay_module_scheme). let e = dq_at index s;
                    s = say (\<lambda>s. [''[delay-q] entry: index='', int_str (int index),
                                  '' task id='', int_str (dq_task_id e)]) s
                in case task_get_by_id (dq_task_id e) s of
                     None \<Rightarrow> say (\<lambda>s. ['' name=(missing) remaining='', u32_str (dq_remaining e),
                                         '' reason=unknown state=UNKNOWN\<newline>'']) s
                   | Some t \<Rightarrow> tcb_say t (\<lambda>t. ['' name='', name_or ''(null)'' (tname t),
                                         '' remaining='', u32_str (dq_remaining e),
                                         '' reason='', delay_queue_wait_reason_name (wait_reason t),
                                         '' state='', delay_queue_task_state_name (tstate t),
                                         ''\<newline>'']) s"
  have body: "\<exists>ms. ?body index s = writes ms s" for index and s :: "'a delay_module_scheme"
    using says by (simp add: Let_def split: option.split)
  have loop: "\<exists>ms. fold ?body xs s' = writes ms s'" for xs and s' :: "'a delay_module_scheme"
    by (rule fold_writes[of ?body, OF body])
  let ?s = "say (\<lambda>s. [''[delay-q] dump begin: count='', int_str (int (delay_queue_count s)), ''\<newline>'']) s"
  have "delay_queue_dump s = say (\<lambda>s. [''[delay-q] dump end\<newline>'']) (fold ?body [0..<delay_queue_count s] ?s)"
    unfolding delay_queue_dump_def Let_def by simp
  moreover obtain ms where "fold ?body [0..<delay_queue_count s] ?s = writes ms ?s" using loop by blast
  ultimately have "delay_queue_dump s = say (\<lambda>s. [''[delay-q] dump end\<newline>'']) (writes ms ?s)" by simp
  then have "\<exists>ms. delay_queue_dump s = writes ms s" by (auto simp: say_def writes_append)
  then obtain ms where "delay_queue_dump s = writes ms s" by blast
  then have "delay_queue_dump s = say (\<lambda>_. ms) s" by (simp add: say_def)
  then show ?thesis by blast
qed

subsection \<open>The invariant after the enqueue\<close>

lemma reservation_frames [simp]:
  "task_to_task_smoke_from (upd_sem j h s) = task_to_task_smoke_from s"
  "task_to_task_smoke_from (dq_append k d s) = task_to_task_smoke_from s"
  by (simp_all add: upd_sem_def dq_append_def set_dq_def)

text \<open>The operations of the tables leave the layers above the dispatcher alone.\<close>

lemma layer_frames [simp]:
  "dispatcher_module.more (say f s) = dispatcher_module.more s"
  "dispatcher_module.more (upd_tcb i g s) = dispatcher_module.more s"
  "dispatcher_module.more (upd_sem j h s) = dispatcher_module.more s"
  "dispatcher_module.more (dq_append k d s) = dispatcher_module.more s"
  by (simp_all add: say_def writes_def upd_tcb_def upd_sem_def dq_append_def set_dq_def)

lemma pending_layer:
  fixes s s' :: "'a pending_module_scheme"
  shows "dispatcher_module.more s' = dispatcher_module.more s \<Longrightarrow> dispatch_pending_state s' = dispatch_pending_state s"
  by (cases s; cases s'; simp)

lemma os_inv_wait:
  assumes inv: "os_inv s" and c: "current_task s = Some c"
    and tt: "task_table s' = (task_table s)[c := tcb_enter TASK_STATE_WAITING m r d (task_table s ! c)]"
    and s': "wait_inv s'" "current_task s' = current_task s" "task_to_task_smoke_from s' = task_to_task_smoke_from s"
  shows "os_inv s'"
proof -
  have "kernel_inv s'"
    using kernel_inv_task_change[OF os_invD(2)[OF inv] tt s'(2) _ _ s'(1)] by simp
  moreover have "entries_ok (task_table s')"
    unfolding tt using os_invD(1)[OF inv] os_inv_current[OF inv c] os_invD(3)[OF inv]
    by (intro entries_ok_update) (simp_all add: sys_inv_def entries_ok_nth tcb_enter_def tcb_at_def)
  ultimately show ?thesis
    using s'(3) os_invD(4)[OF inv] by (simp add: os_inv_def sys_inv_def no_reservation_def)
qed

text \<open>Waiting for a semaphore without a count.\<close>

lemma wait_sem_begins:
  assumes inv: "os_inv s" and c: "current_task s = Some c" "tstate (tcb_at c s) = TASK_STATE_RUNNING"
    and m: "find_semaphore_by_id m s = Some j" "sem_count (sem_at j s) = 0"
  shows "\<exists>s1 s2. task_mark_waiting_on_sem (tid (tcb_at c s)) m s = (0, s1) \<and> tid (tcb_at c s1) = tid (tcb_at c s) \<and>
    sem_enqueue_waiter m (tid (tcb_at c s)) s1 = (SEM_OK, s2) \<and> os_inv s2 \<and>
    task_table s2 = (task_table s)[c := tcb_enter TASK_STATE_WAITING m TASK_WAIT_REASON_SEMAPHORE 0 (task_table s ! c)] \<and>
    semaphore_table s2 = (semaphore_table s)[j := ring_put (tid (tcb_at c s)) (semaphore_table s ! j)] \<and>
    dq_items s2 = dq_items s \<and> current_task s2 = current_task s \<and>
    dispatcher_module.more s2 = dispatcher_module.more s"
proof -
  let ?k = "tid (tcb_at c s)" and ?enter = "tcb_enter TASK_STATE_WAITING m TASK_WAIT_REASON_SEMAPHORE 0"
  note cu = os_inv_current[OF inv c(1)] and w = kernel_invD(1)[OF os_invD(2)[OF inv]]
  note m0 = find_semaphore_SomeD[OF m(1)] and k0 = tasks.lookup_SomeD(4)[OF cu(3)]
  have st: "tstate (task_table s ! c) \<noteq> TASK_STATE_WAITING" using c(2) by (simp add: tcb_at_def)
  note none = not_waiting_no_wait[OF w cu(3) st]
  have room: "wait_count (sem_at j s) < MAX_TASKS"
    using wait_queue_has_room[OF w m(1) cu(3)] none(3)[of m] queue_of_find[OF m(1)] by simp
  obtain f where f: "task_mark_waiting_on_sem ?k m s = (0, say f (upd_tcb c ?enter s))"
    using cu(3) c(2) k0 m0(4) by (auto simp: task_mark_waiting_on_sem_def task_get_mutable_by_id_def Let_def)
  define s1 where "s1 = say f (upd_tcb c ?enter s)"
  have tt1: "task_table s1 = (task_table s)[c := ?enter (task_table s ! c)]"
    by (simp add: s1_def task_table_upd_tcb)
  have look1: "lookup_tcb ?k (task_table s1) = Some c"
    unfolding tt1 using cu tasks.lookup_SomeD(1)[OF cu(3)]
    by (subst tasks.lookup_update_same) (simp_all add: tcb_at_def tcb_used_def)
  have at1: "tcb_at c s1 = ?enter (tcb_at c s)"
    using tasks.lookup_SomeD(1)[OF cu(3)] by (simp add: s1_def tcb_at_upd)
  have j1: "find_semaphore_by_id m s1 = Some j" "sem_at j s1 = sem_at j s"
    using m(1) by (simp_all add: s1_def)
  obtain g where g: "sem_enqueue_waiter m ?k s1 = (SEM_OK, say g (upd_sem j (ring_put ?k) s1))"
    using look1 at1 j1 room k0
    by (auto simp: sem_enqueue_waiter_def task_get_by_id_def tcb_enter_def Let_def)
  define s2 where "s2 = say g (upd_sem j (ring_put ?k) s1)"
  have s2: "task_table s2 = (task_table s)[c := ?enter (task_table s ! c)]"
    "semaphore_table s2 = (semaphore_table s)[j := ring_put ?k (semaphore_table s ! j)]"
    "next_task_id s2 = next_task_id s" "next_sem_id s2 = next_sem_id s" "dq_ok s2 = dq_ok s"
    "dq_items s2 = dq_items s" "current_task s2 = current_task s"
    "task_to_task_smoke_from s2 = task_to_task_smoke_from s"
    "dispatcher_module.more s2 = dispatcher_module.more s"
    by (simp_all add: s2_def s1_def semaphore_table_upd_sem task_table_upd_tcb)
  have "wait_inv s2"
    using s2 wait_invD(3)[OF w] by (intro wait_inv_wait_sem[OF w cu(3) st m(1,2) s2(1)]) simp_all
  then have "os_inv s2" using os_inv_wait[OF inv c(1) s2(1)] s2 by simp
  moreover have "tid (tcb_at c s1) = ?k" using at1 by simp
  ultimately show ?thesis
    using f[folded s1_def] g[folded s2_def] s2 by (intro exI[of _ s1] exI[of _ s2]) simp
qed


text \<open>Entering the delay queue, in a state where the task already waits.\<close>

lemma delay_enqueue_spec:
  assumes "lookup_tcb k (task_table s) = Some i" and "tstate (tcb_at i s) = TASK_STATE_WAITING"
    and "timed_reason (wait_reason (tcb_at i s))" and "d \<noteq> 0"
    and "k \<notin> fst ` set (dq_items s)" and "delay_queue_count s < MAX_TASKS"
  shows "\<exists>g. delay_queue_enqueue k d s = (DELAY_QUEUE_OK, say g (dq_append k d s))"
  using assms tasks.lookup_SomeD(4)[OF assms(1)] find_index_None[of k s]
  by (auto simp: delay_queue_enqueue_def task_get_by_id_def delay_queue_can_enqueue_def timed_reason_def
      dq_append_def Let_def)

lemma wait_delay_begins:
  assumes inv: "os_inv s" and c: "current_task s = Some c" "tstate (tcb_at c s) = TASK_STATE_RUNNING"
    and d: "d \<noteq> 0"
  shows "\<exists>s1. task_mark_waiting_on_delay (tid (tcb_at c s)) d s = (0, s1) \<and> tid (tcb_at c s1) = tid (tcb_at c s) \<and>
    (\<forall>h. \<exists>s2. delay_queue_enqueue (tid (tcb_at c s)) d (say h s1) = (DELAY_QUEUE_OK, s2) \<and> os_inv s2 \<and>
      task_table s2 = (task_table s)[c := tcb_enter TASK_STATE_WAITING 0 TASK_WAIT_REASON_DELAY d (task_table s ! c)] \<and>
      semaphore_table s2 = semaphore_table s \<and> dq_items s2 = dq_items s @ [(tid (tcb_at c s), d)] \<and>
      current_task s2 = current_task s \<and> dispatcher_module.more s2 = dispatcher_module.more s)"
proof -
  let ?k = "tid (tcb_at c s)" and ?enter = "tcb_enter TASK_STATE_WAITING 0 TASK_WAIT_REASON_DELAY d"
  note cu = os_inv_current[OF inv c(1)] and w = kernel_invD(1)[OF os_invD(2)[OF inv]]
  have st: "tstate (task_table s ! c) \<noteq> TASK_STATE_WAITING" using c(2) by (simp add: tcb_at_def)
  note none = not_waiting_no_wait[OF w cu(3) st] and k0 = tasks.lookup_SomeD(4)[OF cu(3)]
  have room: "delay_queue_count s < MAX_TASKS" by (rule delay_queue_has_room[OF w cu(3) none(4)])
  obtain f where f: "task_mark_waiting_on_delay ?k d s = (0, say f (upd_tcb c ?enter s))"
    using cu(3) c(2) k0 d by (auto simp: task_mark_waiting_on_delay_def task_get_mutable_by_id_def Let_def)
  define s0 where "s0 = say f (upd_tcb c ?enter s)"
  have tt0: "task_table s0 = (task_table s)[c := ?enter (task_table s ! c)]"
    by (simp add: s0_def task_table_upd_tcb)
  have look0: "lookup_tcb ?k (task_table s0) = Some c"
    unfolding tt0 using cu tasks.lookup_SomeD(1)[OF cu(3)]
    by (subst tasks.lookup_update_same) (simp_all add: tcb_at_def tcb_used_def)
  have at0: "tcb_at c s0 = ?enter (tcb_at c s)"
    using tasks.lookup_SomeD(1)[OF cu(3)] by (simp add: s0_def tcb_at_upd)
  have enq: "\<exists>s2. delay_queue_enqueue ?k d (say h s0) = (DELAY_QUEUE_OK, s2) \<and> os_inv s2 \<and>
      task_table s2 = (task_table s)[c := ?enter (task_table s ! c)] \<and>
      semaphore_table s2 = semaphore_table s \<and> dq_items s2 = dq_items s @ [(?k, d)] \<and>
      current_task s2 = current_task s \<and> dispatcher_module.more s2 = dispatcher_module.more s" for h
  proof -
    define s1 where "s1 = say h s0"
    have q1: "dq_items s1 = dq_items s" "dq_ok s1 = dq_ok s" "delay_queue_count s1 = delay_queue_count s"
      by (simp_all add: s1_def s0_def)
    obtain g where g: "delay_queue_enqueue ?k d s1 = (DELAY_QUEUE_OK, say g (dq_append ?k d s1))"
      using delay_enqueue_spec[of ?k s1 c d] look0 at0 q1 none(4) room d
      by (auto simp: tcb_enter_def timed_reason_def s1_def)
    define s2 where "s2 = say g (dq_append ?k d s1)"
    have s2: "task_table s2 = (task_table s)[c := ?enter (task_table s ! c)]"
      "next_task_id s2 = next_task_id s" "next_sem_id s2 = next_sem_id s" "semaphore_table s2 = semaphore_table s"
      "dq_ok s2" "dq_items s2 = dq_items s @ [(?k, d)]" "current_task s2 = current_task s"
      "task_to_task_smoke_from s2 = task_to_task_smoke_from s"
      "dispatcher_module.more s2 = dispatcher_module.more s"
      using tt0 q1 dq_ok_append[of s1 ?k d] dq_items_append[of s1 ?k d] wait_invD(3)[OF w] room none(4)
      by (simp_all add: s2_def) (simp_all add: s1_def s0_def task_table_upd_tcb)
    have "wait_inv s2" by (rule wait_inv_wait_delay[OF w cu(3) st d s2(1-6)])
    then have "os_inv s2" using os_inv_wait[OF inv c(1) s2(1)] s2 by simp
    with g s2 show ?thesis by (simp add: s1_def[symmetric] s2_def[symmetric])
  qed
  moreover have "tid (tcb_at c s0) = ?k" using at0 by simp
  ultimately show ?thesis using f[folded s0_def] by (intro exI[of _ s0]) simp
qed

text \<open>Waiting for a semaphore with a time limit: both queues take the task.\<close>

lemma wait_timeout_begins:
  assumes inv: "os_inv s" and c: "current_task s = Some c" "tstate (tcb_at c s) = TASK_STATE_RUNNING"
    and m: "find_semaphore_by_id m s = Some j" "sem_count (sem_at j s) = 0" and d: "d \<noteq> 0"
  shows "\<exists>s1 s2 s3. task_mark_waiting_on_sem_timeout (tid (tcb_at c s)) m d s = (0, s1) \<and>
    tid (tcb_at c s1) = tid (tcb_at c s) \<and>
    sem_enqueue_waiter m (tid (tcb_at c s)) s1 = (SEM_OK, s2) \<and> tid (tcb_at c s2) = tid (tcb_at c s) \<and>
    delay_queue_enqueue (tid (tcb_at c s)) d s2 = (DELAY_QUEUE_OK, s3) \<and> os_inv s3 \<and>
    task_table s3 = (task_table s)[c := tcb_enter TASK_STATE_WAITING m TASK_WAIT_REASON_SEMAPHORE_TIMEOUT d (task_table s ! c)] \<and>
    semaphore_table s3 = (semaphore_table s)[j := ring_put (tid (tcb_at c s)) (semaphore_table s ! j)] \<and>
    dq_items s3 = dq_items s @ [(tid (tcb_at c s), d)] \<and> current_task s3 = current_task s \<and>
    dispatcher_module.more s3 = dispatcher_module.more s"
proof -
  let ?k = "tid (tcb_at c s)" and ?enter = "tcb_enter TASK_STATE_WAITING m TASK_WAIT_REASON_SEMAPHORE_TIMEOUT d"
  note cu = os_inv_current[OF inv c(1)] and w = kernel_invD(1)[OF os_invD(2)[OF inv]]
  note m0 = find_semaphore_SomeD[OF m(1)] and k0 = tasks.lookup_SomeD(4)[OF cu(3)]
  have st: "tstate (task_table s ! c) \<noteq> TASK_STATE_WAITING" using c(2) by (simp add: tcb_at_def)
  note none = not_waiting_no_wait[OF w cu(3) st]
  have room: "wait_count (sem_at j s) < MAX_TASKS"
    using wait_queue_has_room[OF w m(1) cu(3)] none(3)[of m] queue_of_find[OF m(1)] by simp
  have dq_room: "delay_queue_count s < MAX_TASKS" by (rule delay_queue_has_room[OF w cu(3) none(4)])
  obtain f where f: "task_mark_waiting_on_sem_timeout ?k m d s = (0, say f (upd_tcb c ?enter s))"
    using cu(3) c(2) k0 m0(4) d
    by (auto simp: task_mark_waiting_on_sem_timeout_def task_get_mutable_by_id_def Let_def)
  define s1 where "s1 = say f (upd_tcb c ?enter s)"
  have tt1: "task_table s1 = (task_table s)[c := ?enter (task_table s ! c)]"
    by (simp add: s1_def task_table_upd_tcb)
  have look1: "lookup_tcb ?k (task_table s1) = Some c"
    unfolding tt1 using cu tasks.lookup_SomeD(1)[OF cu(3)]
    by (subst tasks.lookup_update_same) (simp_all add: tcb_at_def tcb_used_def)
  have at1: "tcb_at c s1 = ?enter (tcb_at c s)"
    using tasks.lookup_SomeD(1)[OF cu(3)] by (simp add: s1_def tcb_at_upd)
  have j1: "find_semaphore_by_id m s1 = Some j" "sem_at j s1 = sem_at j s"
    using m(1) by (simp_all add: s1_def)
  obtain g where g: "sem_enqueue_waiter m ?k s1 = (SEM_OK, say g (upd_sem j (ring_put ?k) s1))"
    using look1 at1 j1 room k0
    by (auto simp: sem_enqueue_waiter_def task_get_by_id_def tcb_enter_def Let_def)
  define s2 where "s2 = say g (upd_sem j (ring_put ?k) s1)"
  have tt2: "task_table s2 = task_table s1" and at2: "tcb_at c s2 = tcb_at c s1"
    and q2: "dq_items s2 = dq_items s" "dq_ok s2 = dq_ok s" "delay_queue_count s2 = delay_queue_count s"
    by (simp_all add: s2_def tcb_at_def) (simp_all add: s1_def)
  obtain h where h: "delay_queue_enqueue ?k d s2 = (DELAY_QUEUE_OK, say h (dq_append ?k d s2))"
    using delay_enqueue_spec[of ?k s2 c d] look1 at1 at2 tt2 q2 none(4) dq_room d
    by (auto simp: tcb_enter_def timed_reason_def)
  define s3 where "s3 = say h (dq_append ?k d s2)"
  have s3: "task_table s3 = (task_table s)[c := ?enter (task_table s ! c)]"
    "next_task_id s3 = next_task_id s" "next_sem_id s3 = next_sem_id s"
    "semaphore_table s3 = (semaphore_table s)[j := ring_put ?k (semaphore_table s ! j)]"
    "dq_ok s3" "dq_items s3 = dq_items s @ [(?k, d)]" "current_task s3 = current_task s"
    "task_to_task_smoke_from s3 = task_to_task_smoke_from s"
    "dispatcher_module.more s3 = dispatcher_module.more s"
    using tt1 tt2 q2 dq_ok_append[of s2 ?k d] dq_items_append[of s2 ?k d] wait_invD(3)[OF w] dq_room none(4)
    by (simp_all add: s3_def) (simp_all add: s2_def s1_def semaphore_table_upd_sem)
  have "wait_inv s3"
    by (rule wait_inv_wait_sem[OF w cu(3) st m s3(1-5)]) (use s3(6) d in simp)
  then have "os_inv s3" using os_inv_wait[OF inv c(1) s3(1)] s3 by simp
  moreover have "tid (tcb_at c s1) = ?k" "tid (tcb_at c s2) = ?k" using at1 at2 by simp_all
  ultimately show ?thesis
    using f[folded s1_def] g[folded s2_def] h[folded s3_def] s3
    by (intro exI[of _ s1] exI[of _ s2] exI[of _ s3]) simp
qed

subsection \<open>The services up to the switch\<close>

text \<open>
  A service that has to wait ends in \<open>wait_switch\<close>, in a state where the task waits: its TCB and
  the queues have changed, and nothing else.
\<close>

lemma dly_tsk_begins:
  fixes s :: "'a pending_module_scheme"
  assumes inv: "os_inv s" and c: "current_task s = Some c" "tstate (tcb_at c s) = TASK_STATE_RUNNING"
    and d: "d \<noteq> 0"
  shows "\<exists>s'. dly_tsk env d s = wait_switch env ''dly-tsk'' ''delay-switch-failed'' ''delay-switch-failed''
      ''delay-queued-switch'' c s' \<and> os_inv s' \<and>
    task_table s' = (task_table s)[c := tcb_enter TASK_STATE_WAITING 0 TASK_WAIT_REASON_DELAY d (task_table s ! c)] \<and>
    semaphore_table s' = semaphore_table s \<and> dq_items s' = dq_items s @ [(tid (tcb_at c s), d)] \<and>
    current_task s' = Some c \<and> dispatcher_module.more s' = dispatcher_module.more s"
proof -
  let ?k = "tid (tcb_at c s)"
  define s0 where "s0 = tcb_say c (\<lambda>t. [''[dly-tsk] called: delay_ticks='', u32_str d, '' current'']
      @ itron_api_log_task_identity t @ [''\<newline>'']) s"
  have s0: "os_inv s0" "current_task s0 = Some c" "tcb_at c s0 = tcb_at c s" "task_table s0 = task_table s"
    "semaphore_table s0 = semaphore_table s" "dq_items s0 = dq_items s"
    "dispatcher_module.more s0 = dispatcher_module.more s"
    using inv c(1) by (simp_all add: s0_def)
  note w = kernel_invD(1)[OF os_invD(2)[OF s0(1)]] and cu = os_inv_current[OF s0(1,2)]
  have "tstate (task_table s0 ! c) \<noteq> TASK_STATE_WAITING" using c(2) s0(4) by (simp add: tcb_at_def)
  note none = not_waiting_no_wait(4)[OF w cu(3) this]
  have "delay_queue_count s0 < MAX_TASKS" by (rule delay_queue_has_room[OF w cu(3) none])
  then have can: "delay_queue_can_enqueue ?k s0 = DELAY_QUEUE_OK"
    using none tasks.lookup_SomeD(4)[OF cu(3)] find_index_None[of ?k s0] s0(3)
    by (simp add: delay_queue_can_enqueue_def)
  have "tstate (tcb_at c s0) = TASK_STATE_RUNNING" using c(2) s0(3) by simp
  then obtain s1 where s1: "task_mark_waiting_on_delay ?k d s0 = (0, s1)" "tid (tcb_at c s1) = ?k"
    and enq: "\<And>h. \<exists>s2. delay_queue_enqueue ?k d (say h s1) = (DELAY_QUEUE_OK, s2) \<and> os_inv s2 \<and>
      task_table s2 = (task_table s)[c := tcb_enter TASK_STATE_WAITING 0 TASK_WAIT_REASON_DELAY d (task_table s ! c)] \<and>
      semaphore_table s2 = semaphore_table s \<and> dq_items s2 = dq_items s @ [(?k, d)] \<and> current_task s2 = Some c \<and>
      dispatcher_module.more s2 = dispatcher_module.more s"
    using wait_delay_begins[OF s0(1,2) _ d] unfolding s0(2-7) by metis
  define log where "log = (\<lambda>s :: 'a pending_module_scheme. (\<lambda>t. [''[dly-tsk] state transition: current'']
      @ itron_api_log_task_id_name t @ ['' RUNNING->WAITING reason=delay\<newline>'']) (tcb_at c s))"
  obtain s2 where s2: "delay_queue_enqueue ?k d (say log s1) = (DELAY_QUEUE_OK, s2)" "os_inv s2"
    "task_table s2 = (task_table s)[c := tcb_enter TASK_STATE_WAITING 0 TASK_WAIT_REASON_DELAY d (task_table s ! c)]"
    "semaphore_table s2 = semaphore_table s" "dq_items s2 = dq_items s @ [(?k, d)]" "current_task s2 = Some c"
    "dispatcher_module.more s2 = dispatcher_module.more s"
    using enq[of log] by blast
  obtain f where dump: "delay_queue_dump s2 = say f s2" using dump_writes by blast
  have "dly_tsk_wait env d c s0 = wait_switch env ''dly-tsk'' ''delay-switch-failed'' ''delay-switch-failed''
      ''delay-queued-switch'' c (delay_queue_dump s2)"
    using s1 s2(1)[unfolded log_def] s0(3) by (simp add: dly_tsk_wait_def Let_def)
  moreover have "dly_tsk env d s = dly_tsk_wait env d c s0"
    unfolding dly_tsk_def dispatcher_get_current_def c(1) option.case Let_def s0_def[symmetric]
    using c(2) d can s0(3) by simp
  ultimately show ?thesis using s2 dump by (intro exI[of _ "say f s2"]) simp
qed

lemma take_required:
  assumes "find_semaphore_by_id m s = Some j" and "sem_count (sem_at j s) = 0"
  shows "sem_take_if_available m s = ((SEM_WAIT_REQUIRED, Some 0, Some 0), s)"
  using assms by (simp add: sem_take_if_available_def)

lemma wai_sem_begins:
  fixes s :: "'a pending_module_scheme"
  assumes inv: "os_inv s" and c: "current_task s = Some c" "tstate (tcb_at c s) = TASK_STATE_RUNNING"
    and m: "find_semaphore_by_id m s = Some j" "sem_count (sem_at j s) = 0"
  shows "\<exists>s'. wai_sem env m s = wait_switch env ''wai-sem'' ''switch-task-not-found'' ''wait-switch-failed''
      ''wait-switch'' c s' \<and> os_inv s' \<and>
    task_table s' = (task_table s)[c := tcb_enter TASK_STATE_WAITING m TASK_WAIT_REASON_SEMAPHORE 0 (task_table s ! c)] \<and>
    semaphore_table s' = (semaphore_table s)[j := ring_put (tid (tcb_at c s)) (semaphore_table s ! j)] \<and>
    dq_items s' = dq_items s \<and> current_task s' = Some c \<and>
    dispatcher_module.more s' = dispatcher_module.more s"
proof -
  let ?k = "tid (tcb_at c s)"
  define s0 where "s0 = tcb_say c (\<lambda>t. [''[wai-sem] called: sem_id='', mag_str m, '' current'']
      @ itron_api_log_task_identity t @ [''\<newline>'']) s"
  define s1 where "s1 = say (\<lambda>s. [''[wai-sem] wait required: sem_id='', mag_str m,
      '' count='', mag_str 0, ''\<newline>'']) s0"
  have s0: "find_semaphore_by_id m s0 = Some j" "sem_count (sem_at j s0) = 0" "sem_get_by_id m s0 = Some j"
    "tstate (tcb_at c s0) = TASK_STATE_RUNNING"
    using m c(2) by (simp_all add: s0_def sem_get_by_id_def)
  have s1: "os_inv s1" "current_task s1 = Some c" "tcb_at c s1 = tcb_at c s" "task_table s1 = task_table s"
    "semaphore_table s1 = semaphore_table s" "dq_items s1 = dq_items s"
    "find_semaphore_by_id m s1 = Some j" "sem_count (sem_at j s1) = 0"
    "dispatcher_module.more s1 = dispatcher_module.more s"
    using inv c(1) m by (simp_all add: s1_def s0_def)
  have "tstate (tcb_at c s1) = TASK_STATE_RUNNING" using c(2) s1(3) by simp
  then obtain s2 s3 where s2: "task_mark_waiting_on_sem ?k m s1 = (0, s2)" "tid (tcb_at c s2) = ?k"
    and s3: "sem_enqueue_waiter m ?k s2 = (SEM_OK, s3)" "os_inv s3"
      "task_table s3 = (task_table s)[c := tcb_enter TASK_STATE_WAITING m TASK_WAIT_REASON_SEMAPHORE 0 (task_table s ! c)]"
      "semaphore_table s3 = (semaphore_table s)[j := ring_put ?k (semaphore_table s ! j)]"
      "dq_items s3 = dq_items s" "current_task s3 = Some c" "dispatcher_module.more s3 = dispatcher_module.more s"
    using wait_sem_begins[OF s1(1,2) _ s1(7,8)] unfolding s1(2-6,9) by metis
  have "\<exists>f. wai_sem_block env m 0 c s0 = wait_switch env ''wai-sem'' ''switch-task-not-found''
      ''wait-switch-failed'' ''wait-switch'' c (say f s3)"
    using s2 s3(1) s1(3) unfolding wai_sem_block_def Let_def s1_def[symmetric] by auto
  moreover have "wai_sem env m s = wai_sem_block env m 0 c s0"
    unfolding wai_sem_def dispatcher_get_current_def c(1) option.case Let_def s0_def[symmetric]
    using s0 take_required[OF s0(1,2)] by simp
  ultimately obtain f where "wai_sem env m s = wait_switch env ''wai-sem'' ''switch-task-not-found''
      ''wait-switch-failed'' ''wait-switch'' c (say f s3)" by auto
  with s3 show ?thesis by (intro exI[of _ "say f s3"]) simp
qed

lemma twai_sem_begins:
  fixes s :: "'a pending_module_scheme"
  assumes inv: "os_inv s" and c: "current_task s = Some c" "tstate (tcb_at c s) = TASK_STATE_RUNNING"
    and m: "find_semaphore_by_id m s = Some j" "sem_count (sem_at j s) = 0" and d: "d \<noteq> 0"
  shows "\<exists>s'. twai_sem env m d s = wait_switch env ''twai-sem'' ''timeout-wait-switch-failed''
      ''timeout-wait-switch-failed'' ''timeout-wait-queued-switch'' c s' \<and> os_inv s' \<and>
    task_table s' = (task_table s)[c := tcb_enter TASK_STATE_WAITING m TASK_WAIT_REASON_SEMAPHORE_TIMEOUT d (task_table s ! c)] \<and>
    semaphore_table s' = (semaphore_table s)[j := ring_put (tid (tcb_at c s)) (semaphore_table s ! j)] \<and>
    dq_items s' = dq_items s @ [(tid (tcb_at c s), d)] \<and> current_task s' = Some c \<and>
    dispatcher_module.more s' = dispatcher_module.more s"
proof -
  let ?k = "tid (tcb_at c s)"
  define s0 where "s0 = tcb_say c (\<lambda>t. [''[twai-sem] called: sem id='', mag_str m,
      '' timeout_ticks='', u32_str d, '' current''] @ itron_api_log_task_identity t @ [''\<newline>'']) s"
  define s1 where "s1 = say (\<lambda>s. [''[twai-sem] wait begin: sem id='', mag_str m, '' current'']
      @ itron_api_log_task_id_name (tcb_at c s) @ ['' timeout_ticks='', u32_str d, ''\<newline>'']) s0"
  have s0: "find_semaphore_by_id m s0 = Some j" "sem_count (sem_at j s0) = 0" "sem_get_by_id m s0 = Some j"
    "tstate (tcb_at c s0) = TASK_STATE_RUNNING" "tcb_at c s0 = tcb_at c s" "os_inv s0" "current_task s0 = Some c"
    using m c inv by (simp_all add: s0_def sem_get_by_id_def)
  have s1: "os_inv s1" "current_task s1 = Some c" "tcb_at c s1 = tcb_at c s" "task_table s1 = task_table s"
    "semaphore_table s1 = semaphore_table s" "dq_items s1 = dq_items s"
    "find_semaphore_by_id m s1 = Some j" "sem_count (sem_at j s1) = 0"
    "dispatcher_module.more s1 = dispatcher_module.more s"
    using inv c(1) m by (simp_all add: s1_def s0_def)
  note w = kernel_invD(1)[OF os_invD(2)[OF s0(6)]] and cu = os_inv_current[OF s0(6,7)]
  have "tstate (task_table s0 ! c) \<noteq> TASK_STATE_WAITING" using s0(4) by (simp add: tcb_at_def)
  note none = not_waiting_no_wait(3,4)[OF w cu(3) this]
  have k0: "0 < ?k" using tasks.lookup_SomeD(4)[OF cu(3)] s0(5) by simp
  have room: "wait_count (sem_at j s0) < MAX_TASKS"
    using wait_queue_has_room[OF w s0(1) cu(3)] none(1)[of m] queue_of_find[OF s0(1)] by simp
  have can_sem: "sem_can_enqueue_waiter m ?k s0 = SEM_OK"
    using room k0 s0(1) by (simp add: sem_can_enqueue_waiter_def)
  have "delay_queue_count s0 < MAX_TASKS" by (rule delay_queue_has_room[OF w cu(3) none(2)])
  then have can_dq: "delay_queue_can_enqueue ?k s0 = DELAY_QUEUE_OK"
    using none k0 find_index_None[of ?k s0] s0(5) by (simp add: delay_queue_can_enqueue_def)
  have "tstate (tcb_at c s1) = TASK_STATE_RUNNING" using c(2) s1(3) by simp
  then obtain s2 s3 s4 where s2: "task_mark_waiting_on_sem_timeout ?k m d s1 = (0, s2)" "tid (tcb_at c s2) = ?k"
    and s3: "sem_enqueue_waiter m ?k s2 = (SEM_OK, s3)" "tid (tcb_at c s3) = ?k"
    and s4: "delay_queue_enqueue ?k d s3 = (DELAY_QUEUE_OK, s4)" "os_inv s4"
      "task_table s4 = (task_table s)[c := tcb_enter TASK_STATE_WAITING m TASK_WAIT_REASON_SEMAPHORE_TIMEOUT d (task_table s ! c)]"
      "semaphore_table s4 = (semaphore_table s)[j := ring_put ?k (semaphore_table s ! j)]"
      "dq_items s4 = dq_items s @ [(?k, d)]" "current_task s4 = Some c"
      "dispatcher_module.more s4 = dispatcher_module.more s"
    using wait_timeout_begins[OF s1(1,2) _ s1(7,8) d] unfolding s1(2-6,9) by metis
  have "\<exists>f. twai_sem_wait env m d c s0 = wait_switch env ''twai-sem'' ''timeout-wait-switch-failed''
      ''timeout-wait-switch-failed'' ''timeout-wait-queued-switch'' c (delay_queue_dump (say f s4))"
    using s2 s3 s4(1) s1(3) unfolding twai_sem_wait_def Let_def s1_def[symmetric] by auto
  moreover have "twai_sem_block env m d c s0 = twai_sem_wait env m d c s0"
    using can_sem can_dq s0(5) by (simp add: twai_sem_block_def)
  moreover have "twai_sem env m d s = twai_sem_block env m d c s0"
    unfolding twai_sem_def dispatcher_get_current_def c(1) option.case Let_def s0_def[symmetric]
    using s0 take_required[OF s0(1,2)] d by simp
  ultimately obtain f where f: "twai_sem env m d s = wait_switch env ''twai-sem'' ''timeout-wait-switch-failed''
      ''timeout-wait-switch-failed'' ''timeout-wait-queued-switch'' c (delay_queue_dump (say f s4))" by auto
  obtain g where "delay_queue_dump (say f s4) = say g (say f s4)" using dump_writes by blast
  with f s4 show ?thesis by (intro exI[of _ "say g (say f s4)"]) simp
qed

subsection \<open>Every service returns\<close>

lemma os_inv_frame:
  assumes "os_inv s" and "kernel_inv s'" and "task_table s' = task_table s"
    and "task_to_task_smoke_from s' = task_to_task_smoke_from s"
  shows "os_inv s'"
  using assms by (simp add: os_inv_def sys_inv_def no_reservation_def)

lemma os_inv_take:
  assumes "os_inv s"
  shows "os_inv (snd (sem_take_if_available m s))"
  using kernel_inv_take[OF os_invD(2)[OF assms], of m]
  by (rule os_inv_frame[OF assms]) (simp_all add: sem_take_if_available_def Let_def split: option.split)

lemma take_cases:
  assumes "os_inv s" and "find_semaphore_by_id m s = Some j"
  obtains b a s' where "sem_take_if_available m s = ((SEM_OK, b, a), s')" and "os_inv s'"
    | "sem_count (sem_at j s) = 0"
proof -
  have "0 \<le> sem_count (sem_at j s)"
    using kernel_inv_sem_ok[OF os_invD(2)[OF assms(1)] assms(2)] by (simp add: sem_ok_def)
  then consider "0 < sem_count (sem_at j s)" | "sem_count (sem_at j s) = 0" by linarith
  then show thesis
  proof cases
    case 1
    with assms(2) that(1) os_inv_take[OF assms(1), of m] show thesis
      by (simp add: sem_take_if_available_def Let_def)
  next
    case 2
    with that(2) show thesis by blast
  qed
qed

context entry_contract
begin

theorem dly_tsk_returns:
  assumes "os_inv s"
  shows "\<exists>r s'. dly_tsk env d s = Some (r, s') \<and> os_inv s'"
proof (cases "\<exists>c. current_task s = Some c \<and> tstate (tcb_at c s) = TASK_STATE_RUNNING \<and> d \<noteq> 0")
  case True
  then obtain c where c: "current_task s = Some c" "tstate (tcb_at c s) = TASK_STATE_RUNNING" "d \<noteq> 0" by blast
  from dly_tsk_begins[OF assms c] wait_switch_returns show ?thesis by metis
next
  case False
  with assms show ?thesis by (auto simp: dly_tsk_def dispatcher_get_current_def Let_def split: option.split)
qed

theorem wai_sem_returns:
  assumes "os_inv s"
  shows "\<exists>r s'. wai_sem env m s = Some (r, s') \<and> os_inv s'"
proof (cases "\<exists>c j. current_task s = Some c \<and> tstate (tcb_at c s) = TASK_STATE_RUNNING \<and>
    find_semaphore_by_id m s = Some j")
  case True
  then obtain c j where c: "current_task s = Some c" "tstate (tcb_at c s) = TASK_STATE_RUNNING"
    and j: "find_semaphore_by_id m s = Some j" by blast
  let ?s0 = "tcb_say c (\<lambda>t. [''[wai-sem] called: sem_id='', mag_str m, '' current'']
      @ itron_api_log_task_identity t @ [''\<newline>'']) s"
  have s0: "os_inv ?s0" "find_semaphore_by_id m ?s0 = Some j" using assms j by simp_all
  from take_cases[OF s0] show ?thesis
  proof cases
    case 1
    with c j show ?thesis
      by (simp add: wai_sem_def dispatcher_get_current_def sem_get_by_id_def)
  next
    case 2
    then have "sem_count (sem_at j s) = 0" by simp
    from wai_sem_begins[OF assms c j this] wait_switch_returns show ?thesis by metis
  qed
next
  case False
  with assms show ?thesis
    by (auto simp: wai_sem_def dispatcher_get_current_def Let_def sem_get_by_id_def split: option.split)
qed

theorem twai_sem_returns:
  assumes "os_inv s"
  shows "\<exists>r s'. twai_sem env m d s = Some (r, s') \<and> os_inv s'"
proof (cases "\<exists>c j. current_task s = Some c \<and> tstate (tcb_at c s) = TASK_STATE_RUNNING \<and>
    find_semaphore_by_id m s = Some j \<and> d \<noteq> 0")
  case True
  then obtain c j where c: "current_task s = Some c" "tstate (tcb_at c s) = TASK_STATE_RUNNING"
    and j: "find_semaphore_by_id m s = Some j" and d: "d \<noteq> 0" by blast
  let ?s0 = "tcb_say c (\<lambda>t. [''[twai-sem] called: sem id='', mag_str m,
      '' timeout_ticks='', u32_str d, '' current''] @ itron_api_log_task_identity t @ [''\<newline>'']) s"
  have s0: "os_inv ?s0" "find_semaphore_by_id m ?s0 = Some j" using assms j by simp_all
  from take_cases[OF s0] show ?thesis
  proof cases
    case 1
    with c j d show ?thesis
      by (simp add: twai_sem_def dispatcher_get_current_def sem_get_by_id_def)
  next
    case 2
    then have "sem_count (sem_at j s) = 0" by simp
    from twai_sem_begins[OF assms c j this d] wait_switch_returns show ?thesis by metis
  qed
next
  case False
  with assms show ?thesis
    by (auto simp: twai_sem_def dispatcher_get_current_def Let_def sem_get_by_id_def split: option.split)
qed

end

end
