(* ===== verification/Pic.thy ===== *)
theory Pic
  imports Preemption
begin

section \<open>The 8259A interrupt controllers (\<open>arch/x86_64/pic.c\<close>)\<close>

text \<open>
  The two mask registers the driver keeps, and the port writes it makes, oldest first. The
  I/O wait is a write to port 0x80, as in the source.
\<close>

unbundle bit_operations_syntax

type_synonym u8 = "8 word"
type_synonym u16 = "16 word"

abbreviation (input) ARCH_PIC_MASTER_COMMAND :: u16 where "ARCH_PIC_MASTER_COMMAND \<equiv> 0x20"
abbreviation (input) ARCH_PIC_MASTER_DATA :: u16 where "ARCH_PIC_MASTER_DATA \<equiv> 0x21"
abbreviation (input) ARCH_PIC_SLAVE_COMMAND :: u16 where "ARCH_PIC_SLAVE_COMMAND \<equiv> 0xA0"
abbreviation (input) ARCH_PIC_SLAVE_DATA :: u16 where "ARCH_PIC_SLAVE_DATA \<equiv> 0xA1"
abbreviation (input) ARCH_PIC_IO_WAIT_PORT :: u16 where "ARCH_PIC_IO_WAIT_PORT \<equiv> 0x80"
abbreviation (input) ARCH_PIC_ALL_MASKED :: u8 where "ARCH_PIC_ALL_MASKED \<equiv> 0xFF"
abbreviation (input) ARCH_PIC_EOI :: u8 where "ARCH_PIC_EOI \<equiv> 0x20"

record pic_module = pending_module +
  port_writes :: "(u16 \<times> u8) list"
  pic_master_mask :: u8
  pic_slave_mask :: u8

definition arch_pic_outb :: "u16 \<Rightarrow> u8 \<Rightarrow> 'a pic_module_scheme \<Rightarrow> 'a pic_module_scheme" where
  "arch_pic_outb port value s = s\<lparr>port_writes := port_writes s @ [(port, value)]\<rparr>"

definition arch_pic_io_wait :: "'a pic_module_scheme \<Rightarrow> 'a pic_module_scheme" where
  "arch_pic_io_wait s = arch_pic_outb ARCH_PIC_IO_WAIT_PORT 0 s"

definition arch_pic_write_masks :: "'a pic_module_scheme \<Rightarrow> 'a pic_module_scheme" where
  "arch_pic_write_masks s =
     (let s = arch_pic_outb ARCH_PIC_MASTER_DATA (pic_master_mask s) s
      in arch_pic_outb ARCH_PIC_SLAVE_DATA (pic_slave_mask s) s)"

definition arch_pic_irq_is_valid :: "u32 \<Rightarrow> bool" where
  "arch_pic_irq_is_valid irq \<longleftrightarrow> irq < 16"

definition arch_pic_init :: "'a pic_module_scheme \<Rightarrow> int \<times> 'a pic_module_scheme" where
  "arch_pic_init s =
     (let s = say (\<lambda>s. [''[pic] init begin\<newline>'']) s;
          s = s\<lparr>pic_master_mask := ARCH_PIC_ALL_MASKED, pic_slave_mask := ARCH_PIC_ALL_MASKED\<rparr>;
          s = arch_pic_write_masks s;
          s = arch_pic_io_wait (arch_pic_outb ARCH_PIC_MASTER_COMMAND (0x10 OR 0x01) s);
          s = arch_pic_io_wait (arch_pic_outb ARCH_PIC_SLAVE_COMMAND (0x10 OR 0x01) s);
          s = arch_pic_io_wait (arch_pic_outb ARCH_PIC_MASTER_DATA 32 s);
          s = arch_pic_io_wait (arch_pic_outb ARCH_PIC_SLAVE_DATA 40 s);
          s = arch_pic_io_wait (arch_pic_outb ARCH_PIC_MASTER_DATA 0x04 s);
          s = arch_pic_io_wait (arch_pic_outb ARCH_PIC_SLAVE_DATA 0x02 s);
          s = arch_pic_io_wait (arch_pic_outb ARCH_PIC_MASTER_DATA 0x01 s);
          s = arch_pic_io_wait (arch_pic_outb ARCH_PIC_SLAVE_DATA 0x01 s);
          s = arch_pic_write_masks s;
          s = say (\<lambda>s. [''[pic] init done: master_base=32 slave_base=40 irqs=masked\<newline>'']) s
      in (0, s))"

text \<open>\<open>(arch_pic_u8_t)(1U << n)\<close> for \<open>n < 8\<close>.\<close>

definition irq_bit :: "u32 \<Rightarrow> u8" where
  "irq_bit n = ucast (push_bit (unat n) (1 :: u32))"

definition arch_pic_mask_irq :: "u32 \<Rightarrow> 'a pic_module_scheme \<Rightarrow> 'a pic_module_scheme" where
  "arch_pic_mask_irq irq s =
     (if \<not> arch_pic_irq_is_valid irq then s
      else let s = (if irq < 8
                    then s\<lparr>pic_master_mask := pic_master_mask s OR irq_bit irq\<rparr>
                    else s\<lparr>pic_slave_mask := pic_slave_mask s OR irq_bit (irq - 8)\<rparr>)
           in arch_pic_write_masks s)"

definition arch_pic_unmask_irq :: "u32 \<Rightarrow> 'a pic_module_scheme \<Rightarrow> 'a pic_module_scheme" where
  "arch_pic_unmask_irq irq s =
     (if \<not> arch_pic_irq_is_valid irq then s
      else let s = (if irq < 8
                    then s\<lparr>pic_master_mask := pic_master_mask s AND NOT (irq_bit irq)\<rparr>
                    else s\<lparr>pic_slave_mask := pic_slave_mask s AND NOT (irq_bit (irq - 8))\<rparr>)
           in arch_pic_write_masks s)"

definition arch_pic_send_eoi :: "u32 \<Rightarrow> 'a pic_module_scheme \<Rightarrow> 'a pic_module_scheme" where
  "arch_pic_send_eoi irq s =
     (if \<not> arch_pic_irq_is_valid irq then s
      else let s = (if irq \<ge> 8 then arch_pic_outb ARCH_PIC_SLAVE_COMMAND ARCH_PIC_EOI s else s)
           in arch_pic_outb ARCH_PIC_MASTER_COMMAND ARCH_PIC_EOI s)"

end
