(* ===== verification/Interrupt.thy ===== *)
theory Interrupt
  imports Pic
begin

section \<open>IDT, exceptions and the timer interrupt (\<open>arch/x86_64/interrupt.c\<close>)\<close>

text \<open>
  The interrupt descriptor table and its gates, the exception log, and the handler of the timer
  interrupt. The addresses of the assembly stubs and of the table are parameters
  (\<open>interrupt_env\<close>); \<open>lidt\<close> and \<open>sti\<close> are assignments to \<open>idtr\<close> and \<open>interrupt_flag\<close>.
\<close>

abbreviation (input) ARCH_INTERRUPT_OK :: int where "ARCH_INTERRUPT_OK \<equiv> 0"
abbreviation (input) ARCH_INTERRUPT_ERR_INVAL :: int where "ARCH_INTERRUPT_ERR_INVAL \<equiv> -1"
abbreviation (input) ARCH_IDT_ENTRY_COUNT :: nat where "ARCH_IDT_ENTRY_COUNT \<equiv> 256"
abbreviation (input) ARCH_TIMER_IRQ_VECTOR :: nat where "ARCH_TIMER_IRQ_VECTOR \<equiv> 32"
abbreviation (input) ARCH_TIMER_IRQ_LINE :: u32 where "ARCH_TIMER_IRQ_LINE \<equiv> 0"

record arch_idt_entry_t =
  offset_low :: u16
  selector :: u16
  ist :: u8
  type_attr :: u8
  offset_mid :: u16
  offset_high :: u32
  reserved :: u32

record arch_idtr_t =
  idtr_limit :: u16
  idtr_base :: u64

record arch_exception_frame_t =
  vector :: u64
  error_code :: u64
  frame_rip :: u64
  frame_cs :: u64
  frame_rflags :: u64

record interrupt_module = pic_module +
  arch_idt :: "arch_idt_entry_t list"
  arch_interrupt_initialized :: bool
  idtr :: "arch_idtr_t option"
  interrupt_flag :: bool

record interrupt_env =
  stub_divide_error :: u64
  stub_breakpoint :: u64
  stub_invalid_opcode :: u64
  stub_general_protection :: u64
  stub_page_fault :: u64
  stub_timer_irq :: u64
  idt_address :: u64

subsection \<open>Texts\<close>

text \<open>
  \<open>arch_write_hex64\<close>: the loop over the nibbles 15 to 0 prints the last one always, so it needs
  no special case for zero.
\<close>

fun arch_hex_nibbles :: "u64 \<Rightarrow> bool \<Rightarrow> nat \<Rightarrow> string" where
  "arch_hex_nibbles value started 0 = []"
| "arch_hex_nibbles value started (Suc nibble) =
     (let digit = unat (drop_bit (4 * nibble) value AND 15)
      in if digit \<noteq> 0 \<or> started \<or> nibble = 0 then hex_digit digit # arch_hex_nibbles value True nibble
         else arch_hex_nibbles value started nibble)"

definition arch_write_hex64 :: "u64 \<Rightarrow> string" where
  "arch_write_hex64 value = ''0x'' @ arch_hex_nibbles value False 16"

definition arch_exception_name :: "u64 \<Rightarrow> string" where
  "arch_exception_name v =
     (if v = 0 then ''divide-error''
      else if v = 3 then ''breakpoint''
      else if v = 6 then ''invalid-opcode''
      else if v = 13 then ''general-protection''
      else if v = 14 then ''page-fault''
      else ''unknown'')"

subsection \<open>The IDT\<close>

definition zero_idt_entry :: arch_idt_entry_t where
  "zero_idt_entry = \<lparr>offset_low = 0, selector = 0, ist = 0, type_attr = 0, offset_mid = 0,
     offset_high = 0, reserved = 0\<rparr>"

definition arch_idt_clear :: "'a interrupt_module_scheme \<Rightarrow> 'a interrupt_module_scheme" where
  "arch_idt_clear s = s\<lparr>arch_idt := map (\<lambda>e. zero_idt_entry) (arch_idt s)\<rparr>"

definition gate_of :: "u64 \<Rightarrow> arch_idt_entry_t" where
  "gate_of address =
     \<lparr>offset_low = ucast (address AND 0xFFFF), selector = 0x08, ist = 0, type_attr = 0x8E,
      offset_mid = ucast (drop_bit 16 address AND 0xFFFF),
      offset_high = ucast (drop_bit 32 address AND 0xFFFFFFFF), reserved = 0\<rparr>"

definition arch_idt_set_gate ::
  "nat \<Rightarrow> u64 \<Rightarrow> 'a interrupt_module_scheme \<Rightarrow> int \<times> 'a interrupt_module_scheme" where
  "arch_idt_set_gate vec handler s =
     (if vec \<ge> ARCH_IDT_ENTRY_COUNT \<or> handler = 0 then (ARCH_INTERRUPT_ERR_INVAL, s)
      else (ARCH_INTERRUPT_OK, s\<lparr>arch_idt := (arch_idt s)[vec := gate_of handler]\<rparr>))"

text \<open>The calls in order, up to the first that fails.\<close>

fun set_gates :: "(nat \<times> u64) list \<Rightarrow> 'a interrupt_module_scheme \<Rightarrow> int \<times> 'a interrupt_module_scheme" where
  "set_gates [] s = (ARCH_INTERRUPT_OK, s)"
| "set_gates ((v, h) # gs) s =
     (let (result, s) = arch_idt_set_gate v h s
      in if result \<noteq> ARCH_INTERRUPT_OK then (ARCH_INTERRUPT_ERR_INVAL, s) else set_gates gs s)"

definition arch_idt_install_exception_gates ::
  "interrupt_env \<Rightarrow> 'a interrupt_module_scheme \<Rightarrow> int \<times> 'a interrupt_module_scheme" where
  "arch_idt_install_exception_gates ie s =
     set_gates [(0, stub_divide_error ie), (3, stub_breakpoint ie), (6, stub_invalid_opcode ie),
                (13, stub_general_protection ie), (14, stub_page_fault ie)] s"

definition arch_idt_install_timer_irq_gate ::
  "interrupt_env \<Rightarrow> 'a interrupt_module_scheme \<Rightarrow> int \<times> 'a interrupt_module_scheme" where
  "arch_idt_install_timer_irq_gate ie s = arch_idt_set_gate ARCH_TIMER_IRQ_VECTOR (stub_timer_irq ie) s"

definition arch_lidt :: "arch_idtr_t \<Rightarrow> 'a interrupt_module_scheme \<Rightarrow> 'a interrupt_module_scheme" where
  "arch_lidt r s = s\<lparr>idtr := Some r\<rparr>"

definition arch_interrupt_init ::
  "interrupt_env \<Rightarrow> 'a interrupt_module_scheme \<Rightarrow> int \<times> 'a interrupt_module_scheme" where
  "arch_interrupt_init ie s =
     (let s = say (\<lambda>s. [''[interrupt] init begin\<newline>'']) s;
          s = arch_idt_clear s;
          (result, s) = arch_idt_install_exception_gates ie s
      in if result \<noteq> ARCH_INTERRUPT_OK
         then (ARCH_INTERRUPT_ERR_INVAL, say (\<lambda>s. [''[interrupt] init failed: gate install\<newline>'']) s)
         else let (result, s) = arch_idt_install_timer_irq_gate ie s
         in if result \<noteq> ARCH_INTERRUPT_OK
         then (ARCH_INTERRUPT_ERR_INVAL, say (\<lambda>s. [''[interrupt] init failed: timer irq gate install\<newline>'']) s)
         else let s = arch_lidt \<lparr>idtr_limit = of_nat (16 * ARCH_IDT_ENTRY_COUNT - 1),
                                 idtr_base = idt_address ie\<rparr> s;
                  s = s\<lparr>arch_interrupt_initialized := True\<rparr>;
                  s = say (\<lambda>s. [''[interrupt] idt initialized\<newline>'', ''[interrupt] idt loaded\<newline>'']) s
              in (ARCH_INTERRUPT_OK, s))"

subsection \<open>Exceptions\<close>

text \<open>The handler never returns: the result is the state in which the CPU halts.\<close>

definition arch_exception_handle ::
  "arch_exception_frame_t option \<Rightarrow> 'a console_scheme \<Rightarrow> 'a console_scheme" where
  "arch_exception_handle frame s =
     (let s = say (\<lambda>s. [''[interrupt] exception: vector='']
                @ (case frame of
                     None \<Rightarrow> [''unknown name=unknown\<newline>'']
                   | Some f \<Rightarrow> [ulong_str (vector f), '' name='', arch_exception_name (vector f),
                        '' error='', arch_write_hex64 (error_code f),
                        '' rip='', arch_write_hex64 (frame_rip f),
                        '' cs='', arch_write_hex64 (frame_cs f),
                        '' rflags='', arch_write_hex64 (frame_rflags f), ''\<newline>''])) s
      in say (\<lambda>s. [''[interrupt] exception handler halting\<newline>'']) s)"

subsection \<open>The timer interrupt\<close>

definition arch_timer_irq_exit_observe_boundary ::
  "'a pending_module_scheme kernel_env \<Rightarrow> 'a pending_module_scheme \<Rightarrow> 'a pending_module_scheme option" where
  "arch_timer_irq_exit_observe_boundary env s =
     (let s = say (\<lambda>s. [''[timer-irq] exit boundary: dispatch-pending='']) s
      in if dispatch_pending_is_requested s
         then do {
           let s = say (\<lambda>s. [''requested action=deferred-dispatch\<newline>'']) s;
           (result, s) \<leftarrow> dispatch_pending_consume_at_deferred_boundary env s;
           Some s
         }
         else do {
           let s = say (\<lambda>s. [''none action=no-dispatch\<newline>'']) s;
           (result, s) \<leftarrow> dispatch_pending_consume_at_deferred_boundary env s;
           Some s
         })"

text \<open>
  The handler sends the EOI last, after a deferred dispatch: \<open>None\<close> means that a dispatched task
  did not come back, and then no EOI has been sent.
\<close>

definition arch_timer_irq_handle ::
  "'a pic_module_scheme kernel_env \<Rightarrow> 'a pic_module_scheme \<Rightarrow> 'a pic_module_scheme option" where
  "arch_timer_irq_handle env s =
     do {
       let s = say (\<lambda>s. [''[timer-irq] entry reached: vector=32 irq=0\<newline>'']) s;
       let s = timer_tick s;
       let (dispatch_not_requested_reason, s) = preemption_evaluate_from_irq s;
       let s = dispatch_pending_log_state_from_irq dispatch_not_requested_reason s;
       s \<leftarrow> arch_timer_irq_exit_observe_boundary env s;
       let s = arch_pic_send_eoi ARCH_TIMER_IRQ_LINE s;
       Some (say (\<lambda>s. [''[timer-irq] eoi sent: irq=0\<newline>'']) s)
     }"

text \<open>
  \<open>arch_interrupt_trigger_validation_exception\<close> prints a line and executes \<open>int3\<close>: \<open>None\<close> stands for
  the exception, whose handler halts, so that no state comes back.
\<close>

definition arch_interrupt_trigger_validation_exception ::
  "'a interrupt_module_scheme \<Rightarrow> 'a interrupt_module_scheme option" where
  "arch_interrupt_trigger_validation_exception s =
     (if \<not> arch_interrupt_initialized s
      then Some (say (\<lambda>s. [''[interrupt] validation skipped: not initialized\<newline>'']) s)
      else let s = say (\<lambda>s. [''[interrupt] validation trigger: int3\<newline>'']) s in None)"

definition arch_interrupt_enable_timer_entry_validation ::
  "'a interrupt_module_scheme \<Rightarrow> 'a interrupt_module_scheme" where
  "arch_interrupt_enable_timer_entry_validation s =
     (if \<not> arch_interrupt_initialized s
      then say (\<lambda>s. [''[timer-irq] validation skipped: interrupt not initialized\<newline>'']) s
      else let s = say (\<lambda>s. [''[timer-irq] validation enable: unmask irq0 and sti\<newline>'']) s;
               s = arch_pic_unmask_irq ARCH_TIMER_IRQ_LINE s
           in s\<lparr>interrupt_flag := True\<rparr>)"

end
