(* ===== verification/System.thy ===== *)
theory System
  imports Blocking Interrupt
begin

section \<open>The kernel as a transition system\<close>

text \<open>
  The calls a task or the hardware can make, each a step of the whole kernel state, and the
  states reachable through them. \<open>os_inv\<close> is kept by every call; under the contract of the
  entries every call returns.
\<close>

subsection \<open>The services that do not switch keep the invariant\<close>

text \<open>The reservation of a switch is written by the switch code only.\<close>

lemma reservation_pending [simp]:
  "task_to_task_smoke_from (s\<lparr>dispatch_pending_state := p\<rparr>) = task_to_task_smoke_from s"
  "task_to_task_smoke_from (pending_request src r c n s) = task_to_task_smoke_from s"
  "task_to_task_smoke_from (dispatch_pending_clear_with_reason l s) = task_to_task_smoke_from s"
  "task_to_task_smoke_from (dispatch_pending_clear_for_test_or_later_boundary s) = task_to_task_smoke_from s"
  "task_to_task_smoke_from (dispatch_pending_clear_irq_for_evaluation s) = task_to_task_smoke_from s"
  "task_to_task_smoke_from (dispatch_request_from_irq cu ca s) = task_to_task_smoke_from s"
  "task_to_task_smoke_from (dispatch_request_from_task_start cu ca s) = task_to_task_smoke_from s"
  "task_to_task_smoke_from (dispatch_request_from_task_wakeup cu ca s) = task_to_task_smoke_from s"
  "task_to_task_smoke_from (dispatch_pending_log_state_from_irq nr s) = task_to_task_smoke_from s"
  by (simp_all add: pending_request_def dispatch_pending_clear_with_reason_def
      dispatch_pending_clear_for_test_or_later_boundary_def dispatch_pending_clear_irq_for_evaluation_def
      dispatch_request_from_irq_def dispatch_request_from_task_start_def dispatch_request_from_task_wakeup_def
      dispatch_pending_log_state_from_irq_def Let_def split: option.split)

lemma reservation_delay_queue:
  fixes s s' :: "'a context_module_scheme"
  assumes "delay_module.more s' = delay_module.more s"
  shows "task_to_task_smoke_from s' = task_to_task_smoke_from s"
  using assms by (cases s; cases s'; simp)

lemma reservation_completed [simp]: "task_to_task_smoke_from (completed op e a s) = task_to_task_smoke_from s"
  by (simp add: completed_def)

lemma reservation_ready [simp]:
  "task_to_task_smoke_from (snd (sta_tsk_ready cur k s)) = task_to_task_smoke_from s"
  "task_to_task_smoke_from (snd (wup_tsk_ready cur k s)) = task_to_task_smoke_from s"
  "task_to_task_smoke_from (snd (sig_sem_ready cur k w r s)) = task_to_task_smoke_from s"
  by (auto simp: sta_tsk_ready_def wup_tsk_ready_def sig_sem_ready_def Let_def split: option.split)

lemma reservation_marks [simp]:
  "task_to_task_smoke_from (snd (task_start_dormant k s)) = task_to_task_smoke_from s"
  "task_to_task_smoke_from (snd (task_wake_waiting_on_sleep_by_id k s)) = task_to_task_smoke_from s"
  "task_to_task_smoke_from (snd (task_wake_waiting_on_sem_by_id k m s)) = task_to_task_smoke_from s"
  "task_to_task_smoke_from (snd (task_wake_waiting_on_sem_timeout_by_id k m s)) = task_to_task_smoke_from s"
  "task_to_task_smoke_from (snd (task_create_dormant k name ent prio base sz s)) = task_to_task_smoke_from s"
  "task_to_task_smoke_from (snd (task_register name ent prio base sz s)) = task_to_task_smoke_from s"
  by (auto simp: task_start_dormant_def task_wake_waiting_on_sleep_by_id_def task_wake_waiting_on_sem_by_id_def
      task_wake_waiting_on_sem_timeout_by_id_def task_create_dormant_def task_register_def allocate_task_id_def
      Let_def split: option.split)

lemma reservation_queues [simp]:
  "task_to_task_smoke_from (snd (sem_dequeue_waiter m s)) = task_to_task_smoke_from s"
  "task_to_task_smoke_from (snd (sem_increment_count m s)) = task_to_task_smoke_from s"
  "task_to_task_smoke_from (snd (sem_take_if_available m s)) = task_to_task_smoke_from s"
  "task_to_task_smoke_from (snd (sem_create name init mx s)) = task_to_task_smoke_from s"
  "task_to_task_smoke_from (delay_queue_remove_at i s) = task_to_task_smoke_from s"
  "task_to_task_smoke_from (snd (delay_queue_remove_sem_timeout_waiter k s)) = task_to_task_smoke_from s"
proof -
  show remove: "task_to_task_smoke_from (delay_queue_remove_at i s) = task_to_task_smoke_from s"
    for i and s :: "'a context_module_scheme"
    by (rule reservation_delay_queue) simp
  show "task_to_task_smoke_from (snd (sem_dequeue_waiter m s)) = task_to_task_smoke_from s"
    "task_to_task_smoke_from (snd (sem_increment_count m s)) = task_to_task_smoke_from s"
    "task_to_task_smoke_from (snd (sem_take_if_available m s)) = task_to_task_smoke_from s"
    "task_to_task_smoke_from (snd (sem_create name init mx s)) = task_to_task_smoke_from s"
    by (auto simp: sem_dequeue_waiter_def sem_increment_count_def sem_take_if_available_def sem_create_def
        allocate_sem_id_def Let_def split: option.split)
  show "task_to_task_smoke_from (snd (delay_queue_remove_sem_timeout_waiter k s)) = task_to_task_smoke_from s"
    by (auto simp: delay_queue_remove_sem_timeout_waiter_def remove Let_def split: option.split)
qed

lemma reservation_sig_sem [simp]: "task_to_task_smoke_from (snd (sig_sem m s)) = task_to_task_smoke_from s"
proof -
  have "task_to_task_smoke_from (snd (sig_sem_wake cur m k s)) = task_to_task_smoke_from s" for cur k and s :: "'a pending_module_scheme"
    by (simp add: sig_sem_wake_def Let_def case_prod_beta split: option.split)
  then show ?thesis by (simp add: sig_sem_def Let_def case_prod_beta split: option.split)
qed

lemma os_inv_intro:
  assumes "kernel_inv s'" and "entries_ok (task_table s')" and "no_reservation s"
    and "task_to_task_smoke_from s' = task_to_task_smoke_from s"
  shows "os_inv s'"
  using assms by (simp add: os_inv_def sys_inv_def no_reservation_def)

lemma os_inv_entries: "os_inv s \<Longrightarrow> entries_ok (task_table s)"
  by (simp add: os_inv_def sys_inv_def)

lemma entries_ok_configured:
  "entries_ok tt \<Longrightarrow> ent \<noteq> 0 \<Longrightarrow> entries_ok (tt[i := task_configure_slot k name ent prio base sz st t])"
  by (rule entries_ok_update) (simp_all add: task_configure_slot_def task_initialize_context_def)

lemma entries_ok_created:
  assumes "entries_ok (task_table s)"
  shows "entries_ok (task_table (snd (task_create_dormant k name ent prio base sz s)))"
    and "entries_ok (task_table (snd (task_register name ent prio base sz s)))"
  using assms
  by (auto simp: task_create_dormant_def task_register_def allocate_task_id_def task_table_upd_tcb Let_def
      task_table_upd_tcb intro!: entries_ok_configured split: option.split)

lemma os_inv_task_register:
  assumes "os_inv s"
  shows "os_inv (snd (task_register name ent prio base sz s))"
  using assms by (intro os_inv_intro[of _ s])
    (simp_all add: kernel_inv_task_register os_invD entries_ok_created os_inv_entries)

lemma os_inv_cre_tsk:
  fixes s :: "'a pending_module_scheme"
  assumes "os_inv s" and "k < INT_MAX"
  shows "os_inv (snd (cre_tsk k pk s))"
proof -
  have "os_inv (snd (task_create_dormant k name ent prio base sz s'))" if "os_inv s'" for name ent prio base sz and s' :: "'a pending_module_scheme"
    using that assms(2) by (intro os_inv_intro[of _ s'])
      (simp_all add: kernel_inv_task_create_dormant os_invD entries_ok_created os_inv_entries)
  then show ?thesis using assms(1) by (auto simp: cre_tsk_def Let_def completed_def case_prod_beta split: option.split)
qed

lemma os_inv_sta_tsk:
  fixes s :: "'a pending_module_scheme"
  assumes "os_inv s"
  shows "os_inv (snd (sta_tsk k s))"
proof -
  have "core (snd (sta_tsk_ready cur k s')) = core s'" for cur and s' :: "'a pending_module_scheme"
    by (auto simp: sta_tsk_ready_def Let_def split: option.split)
  then have ready: "os_inv (snd (sta_tsk_ready cur k s')) = os_inv s'" for cur and s' :: "'a pending_module_scheme"
    by (rule os_inv_core) simp
  have "os_inv (snd (task_start_dormant k s'))" if "os_inv s'" for s' :: "'a pending_module_scheme"
    using that by (intro os_inv_intro[of _ s'])
      (simp_all add: kernel_inv_start_dormant os_invD entries_ok_marks os_inv_entries)
  then show ?thesis
    using assms by (auto simp: sta_tsk_def Let_def completed_def case_prod_beta ready split: option.split)
qed

lemma os_inv_wup_tsk:
  fixes s :: "'a pending_module_scheme"
  assumes "os_inv s"
  shows "os_inv (snd (wup_tsk k s))"
proof -
  have "core (snd (wup_tsk_ready cur k s')) = core s'" for cur and s' :: "'a pending_module_scheme"
    by (auto simp: wup_tsk_ready_def Let_def split: option.split)
  then have ready: "os_inv (snd (wup_tsk_ready cur k s')) = os_inv s'" for cur and s' :: "'a pending_module_scheme"
    by (rule os_inv_core) simp
  have "entries_ok (task_table (snd (task_wake_waiting_on_sleep_by_id k s')))" if "os_inv s'" for s' :: "'a pending_module_scheme"
    using os_inv_entries[OF that]
    by (simp add: task_wake_waiting_on_sleep_by_id_def task_get_mutable_by_id_def entries_ok_enter Let_def
        split: option.split)
  then have "os_inv (snd (task_wake_waiting_on_sleep_by_id k s'))" if "os_inv s'" for s' :: "'a pending_module_scheme"
    using that by (intro os_inv_intro[of _ s']) (simp_all add: kernel_inv_wake_sleep os_invD)
  then show ?thesis
    using assms by (auto simp: wup_tsk_def Let_def completed_def case_prod_beta ready split: option.split)
qed

lemma os_inv_pol_sem: "os_inv s \<Longrightarrow> os_inv (snd (pol_sem m s))"
  by (auto simp: pol_sem_def Let_def completed_def case_prod_beta os_inv_take split: option.split)

lemma os_inv_sem_create:
  assumes "os_inv s" and "mx \<le> INT_MAX"
  shows "os_inv (snd (sem_create name init mx s))"
proof -
  have "task_table (snd (sem_create name init mx s)) = task_table s"
    by (simp add: sem_create_def allocate_sem_id_def Let_def split: option.split)
  with assms show ?thesis
    by (intro os_inv_frame[OF assms(1)]) (simp_all add: kernel_inv_sem_create os_invD)
qed

lemma os_inv_sig_sem:
  assumes "os_inv s"
  shows "os_inv (snd (sig_sem m s))"
proof -
  note inv = os_invD(2)[OF assms] and ent = os_inv_entries[OF assms]
  have "entries_ok (task_table (snd (sig_sem m s)))"
  proof (cases "sem_view m (semaphore_table s)")
    case None
    then show ?thesis using core_eqD(1)[OF sig_sem_unknown(2)[OF None]] ent by simp
  next
    case (Some v)
    then obtain c mx q where v: "sem_view m (semaphore_table s) = Some (c, mx, q)" by (cases v) auto
    show ?thesis
    proof (cases q)
      case Nil
      obtain r s' where "sig_sem m s = (r, s')" "task_table s' = task_table s"
        using sig_sem_counts[OF inv v[unfolded Nil]] by blast
      with ent show ?thesis by simp
    next
      case (Cons k ks)
      obtain r s' i where s': "sig_sem m s = (r, s')" "task_table s' = (task_table s)[i := woken (task_table s ! i)]"
        and i: "lookup_tcb k (task_table s) = Some i"
        using sig_sem_wakes[OF inv v[unfolded Cons]] by blast
      have "entry (woken (task_table s ! i)) \<noteq> 0"
        using tasks.lookup_SomeD[OF i] entries_ok_nth[OF ent] by (simp add: woken_def tcb_enter_def)
      with s' ent show ?thesis by (simp add: entries_ok_update)
    qed
  qed
  with assms show ?thesis by (intro os_inv_intro[of _ s]) (simp_all add: kernel_inv_sig_sem os_invD)
qed

lemma os_inv_commit_current:
  assumes inv: "os_inv s" and i: "lookup_tcb k (task_table s) = Some i"
    and alone: "\<And>j. current_task s = Some j \<Longrightarrow> tstate (tcb_at j s) \<noteq> TASK_STATE_RUNNING"
  shows "os_inv (snd (dispatcher_commit_current (Some i) s))"
proof (cases "tstate (tcb_at i s) = TASK_STATE_READY")
  case False
  with inv show ?thesis by (simp add: dispatcher_commit_current_def)
next
  case True
  then have ready: "tstate (task_table s ! i) = TASK_STATE_READY" by (simp add: tcb_at_def)
  have "kernel_inv (snd (dispatcher_commit_current (Some i) s))"
    using alone by (intro kernel_inv_commit_current[OF os_invD(2)[OF inv] i ready]) (simp add: tcb_at_def)
  then show ?thesis
    using os_inv_entries[OF inv] os_invD(4)[OF inv]
    by (intro os_inv_intro[of _ s]) (simp_all add: commit_current_spec[OF i ready] entries_ok_enter(2)[OF _ i])
qed

subsection \<open>The timer interrupt\<close>

lemma os_inv_timer_tick:
  fixes s :: "'a pending_module_scheme"
  assumes "os_inv s"
  shows "os_inv (timer_tick s)"
proof -
  let ?s = "say (\<lambda>s. [''[timer] tick: count='', ulong_str (system_ticks s), ''\<newline>''])
    (s\<lparr>system_ticks := system_ticks s + 1\<rparr>)"
  have "task_to_task_smoke_from (timer_tick s) = task_to_task_smoke_from ?s"
    using reservation_delay_queue[OF more_tick[of ?s]] by (simp add: timer_tick_def)
  then have res: "task_to_task_smoke_from (timer_tick s) = task_to_task_smoke_from s" by simp
  have "wait_data_ok t" if "t \<in> set (task_table s)" for t
    using kernel_invD(1)[OF os_invD(2)[OF assms]] that by (simp add: wait_inv_def tasks_inv_def tasks_ok_def)
  moreover have "entry (tick_tcb t) = entry t" for t by (simp add: tick_tcb_def tcb_enter_def)
  ultimately have "entries_ok (map tick_tcb (task_table s))"
    using os_inv_entries[OF assms] by (simp add: entries_ok_def tick_tcb_state(1))
  with res timer_tick_refines(1,3)[OF os_invD(2)[OF assms]] os_invD(4)[OF assms] show ?thesis
    by (intro os_inv_intro[of _ s]) simp_all
qed

lemma os_inv_preemption [simp]: "os_inv (snd (preemption_evaluate_from_irq s)) = os_inv s"
proof -
  have log: "task_to_task_smoke_from (preemption_irq_log_task p t s) = task_to_task_smoke_from s"
    for p t and s :: "'a pending_module_scheme"
    by (simp add: preemption_irq_log_task_def split: option.split)
  have decision: "task_to_task_smoke_from (preemption_irq_log_decision d s) = task_to_task_smoke_from s"
    for d and s :: "'a pending_module_scheme"
    by (simp add: preemption_irq_log_decision_def log)
  show ?thesis
    by (rule os_inv_core[OF core_preemption]) (simp add: preemption_evaluate_from_irq_def Let_def log decision)
qed

lemma os_inv_log_state [simp]: "os_inv (dispatch_pending_log_state_from_irq nr s) = os_inv s"
  by (rule os_inv_core) simp_all

lemma os_inv_eoi [simp]: "os_inv (arch_pic_send_eoi irq s) = os_inv s"
  by (rule os_inv_core) (simp_all add: arch_pic_send_eoi_def arch_pic_outb_def core_def)

text \<open>The state in which the exit of the timer interrupt looks for a request.\<close>

definition irq_evaluated :: "'a pending_module_scheme \<Rightarrow> 'a pending_module_scheme" where
  "irq_evaluated s =
     (let (nr, s) = preemption_evaluate_from_irq
            (timer_tick (say (\<lambda>s. [''[timer-irq] entry reached: vector=32 irq=0\<newline>'']) s))
      in dispatch_pending_log_state_from_irq nr s)"

lemma os_inv_irq_evaluated: "os_inv s \<Longrightarrow> os_inv (irq_evaluated s)"
  by (simp add: irq_evaluated_def case_prod_beta os_inv_timer_tick)

lemma timer_irq_steps:
  obtains f g where "arch_timer_irq_handle env s
    = map_option (\<lambda>(r, s'). say (\<lambda>s. [''[timer-irq] eoi sent: irq=0\<newline>'']) (arch_pic_send_eoi ARCH_TIMER_IRQ_LINE s'))
        (dispatch_pending_consume_at_deferred_boundary env (say f (say g (irq_evaluated s))))"
proof -
  let ?s = "say (\<lambda>s. [''[timer-irq] exit boundary: dispatch-pending='']) (irq_evaluated s)"
  have "\<exists>f. arch_timer_irq_exit_observe_boundary env (irq_evaluated s)
      = map_option snd (dispatch_pending_consume_at_deferred_boundary env (say f ?s))"
    by (auto simp: arch_timer_irq_exit_observe_boundary_def map_conv_bind_option comp_def split_def Let_def)
  then obtain f where "arch_timer_irq_exit_observe_boundary env (irq_evaluated s)
      = map_option snd (dispatch_pending_consume_at_deferred_boundary env (say f ?s))" by blast
  then have "arch_timer_irq_handle env s
    = map_option (\<lambda>(r, s'). say (\<lambda>s. [''[timer-irq] eoi sent: irq=0\<newline>'']) (arch_pic_send_eoi ARCH_TIMER_IRQ_LINE s'))
        (dispatch_pending_consume_at_deferred_boundary env (say f ?s))"
    by (simp add: arch_timer_irq_handle_def irq_evaluated_def map_conv_bind_option comp_def split_def Let_def)
  with that show thesis by blast
qed

lemma timer_irq_returns:
  fixes s :: "'a pic_module_scheme"
  assumes env: "entry_contract env" and inv: "os_inv s"
  shows "\<exists>s'. arch_timer_irq_handle env s = Some s' \<and> os_inv s' \<and> \<not> requested (dispatch_pending_state s') \<and>
    (\<exists>ws. port_writes s' = ws @ [(ARCH_PIC_MASTER_COMMAND, ARCH_PIC_EOI)])"
proof -
  obtain f g where steps: "arch_timer_irq_handle env s
    = map_option (\<lambda>(r, s'). say (\<lambda>s. [''[timer-irq] eoi sent: irq=0\<newline>'']) (arch_pic_send_eoi ARCH_TIMER_IRQ_LINE s'))
        (dispatch_pending_consume_at_deferred_boundary env (say f (say g (irq_evaluated s))))"
    by (rule timer_irq_steps)
  obtain r s4 where s4: "dispatch_pending_consume_at_deferred_boundary env (say f (say g (irq_evaluated s))) = Some (r, s4)"
    "os_inv s4" "\<not> requested (dispatch_pending_state s4)"
    using entry_contract.consume_returns[OF env, of "say f (say g (irq_evaluated s))"] os_inv_irq_evaluated[OF inv] by auto
  have "dispatch_pending_state (say h (arch_pic_send_eoi ARCH_TIMER_IRQ_LINE s4)) = dispatch_pending_state s4"
    "port_writes (say h (arch_pic_send_eoi ARCH_TIMER_IRQ_LINE s4))
      = port_writes s4 @ [(ARCH_PIC_MASTER_COMMAND, ARCH_PIC_EOI)]" for h
    by (simp_all add: arch_pic_send_eoi_def arch_pic_irq_is_valid_def arch_pic_outb_def say_def writes_def)
  with steps s4 show ?thesis by simp
qed

subsection \<open>Calls\<close>

datatype kernel_call =
    Register_task c_string u64 int u64 u64
  | Create_sem c_string int int
  | Commit_current int
  | Cre_tsk int "itron_task_create_param_t option"
  | Sta_tsk int
  | Slp_tsk
  | Wup_tsk int
  | Yield_tsk
  | Wai_sem int
  | Pol_sem int
  | Twai_sem int u32
  | Sig_sem int
  | Dly_tsk u32
  | Consume_pending
  | Timer_irq

fun run_call ::
  "'a pic_module_scheme kernel_env \<Rightarrow> kernel_call \<Rightarrow> 'a pic_module_scheme \<Rightarrow> (int \<times> 'a pic_module_scheme) option" where
  "run_call env (Register_task name ent prio base sz) s = Some (task_register name ent prio base sz s)"
| "run_call env (Create_sem name init mx) s = Some (sem_create name init mx s)"
| "run_call env (Commit_current k) s = Some (dispatcher_commit_current (task_get_by_id k s) s)"
| "run_call env (Cre_tsk k pk) s = Some (cre_tsk k pk s)"
| "run_call env (Sta_tsk k) s = Some (sta_tsk k s)"
| "run_call env Slp_tsk s = slp_tsk env s"
| "run_call env (Wup_tsk k) s = Some (wup_tsk k s)"
| "run_call env Yield_tsk s = yield_tsk env s"
| "run_call env (Wai_sem m) s = wai_sem env m s"
| "run_call env (Pol_sem m) s = Some (pol_sem m s)"
| "run_call env (Twai_sem m d) s = twai_sem env m d s"
| "run_call env (Sig_sem m) s = Some (sig_sem m s)"
| "run_call env (Dly_tsk d) s = dly_tsk env d s"
| "run_call env Consume_pending s = dispatch_pending_consume_at_deferred_boundary env s"
| "run_call env Timer_irq s = map_option (\<lambda>s'. (0, s')) (arch_timer_irq_handle env s)"

text \<open>
  What the invariant needs of the calls, and the code does not check: a task id below the largest \<open>int\<close>, a
  semaphore limit that is an \<open>int\<close> (as every C value is), and that the current task is not RUNNING when a
  task is committed directly. These are hypotheses of the properties that rest on \<open>call_allowed\<close>.
\<close>

fun call_allowed :: "kernel_call \<Rightarrow> 'a pic_module_scheme \<Rightarrow> bool" where
  "call_allowed (Cre_tsk k pk) s \<longleftrightarrow> k < INT_MAX"
| "call_allowed (Create_sem name init mx) s \<longleftrightarrow> mx \<le> INT_MAX"
| "call_allowed (Commit_current k) s \<longleftrightarrow>
     (case current_task s of None \<Rightarrow> True | Some c \<Rightarrow> tstate (tcb_at c s) \<noteq> TASK_STATE_RUNNING)"
| "call_allowed _ s \<longleftrightarrow> True"

theorem run_call_returns:
  fixes s :: "'a pic_module_scheme"
  assumes env: "entry_contract env" and inv: "os_inv s" and allowed: "call_allowed call s"
  shows "\<exists>r s'. run_call env call s = Some (r, s') \<and> os_inv s'"
proof (cases call)
  case (Commit_current k)
  show ?thesis
  proof (cases "task_get_by_id k s")
    case None
    with inv Commit_current show ?thesis by (simp add: dispatcher_commit_current_def)
  next
    case (Some i)
    then have i: "lookup_tcb k (task_table s) = Some i" by (simp add: task_get_by_id_def)
    have "tstate (tcb_at j s) \<noteq> TASK_STATE_RUNNING" if "current_task s = Some j" for j
      using allowed Commit_current that by simp
    from os_inv_commit_current[OF inv i this] Some Commit_current show ?thesis
      by (cases "dispatcher_commit_current (Some i) s") simp
  qed
next
  case Timer_irq
  then show ?thesis using timer_irq_returns[OF env inv] by auto
next
  case (Register_task name ent prio base sz)
  then show ?thesis using os_inv_task_register[OF inv, of name ent prio base sz]
    by (cases "task_register name ent prio base sz s") simp
next
  case (Create_sem name init mx)
  then show ?thesis using os_inv_sem_create[OF inv, of mx name init] allowed
    by (cases "sem_create name init mx s") simp
next
  case (Cre_tsk k pk)
  then show ?thesis using os_inv_cre_tsk[OF inv, of k pk] allowed by (cases "cre_tsk k pk s") simp
next
  case (Sta_tsk k)
  then show ?thesis using os_inv_sta_tsk[OF inv, of k] by (cases "sta_tsk k s") simp
next
  case (Wup_tsk k)
  then show ?thesis using os_inv_wup_tsk[OF inv, of k] by (cases "wup_tsk k s") simp
next
  case (Pol_sem m)
  then show ?thesis using os_inv_pol_sem[OF inv, of m] by (cases "pol_sem m s") simp
next
  case (Sig_sem m)
  then show ?thesis using os_inv_sig_sem[OF inv, of m] by (cases "sig_sem m s") simp
next
  case Slp_tsk
  then show ?thesis using entry_contract.slp_tsk_returns[OF env inv] by simp
next
  case Yield_tsk
  then show ?thesis using entry_contract.yield_tsk_returns[OF env inv] by simp
next
  case (Wai_sem m)
  then show ?thesis using entry_contract.wai_sem_returns[OF env inv] by simp
next
  case (Twai_sem m d)
  then show ?thesis using entry_contract.twai_sem_returns[OF env inv] by simp
next
  case (Dly_tsk d)
  then show ?thesis using entry_contract.dly_tsk_returns[OF env inv] by simp
next
  case Consume_pending
  then show ?thesis using entry_contract.consume_returns[OF env inv] by auto
qed

subsection \<open>Steps and reachable states\<close>

inductive kstep ::
  "'a pic_module_scheme kernel_env \<Rightarrow> kernel_call \<Rightarrow> 'a pic_module_scheme \<Rightarrow> 'a pic_module_scheme \<Rightarrow> bool"
  for env where
  kstep_call: "call_allowed call s \<Longrightarrow> run_call env call s = Some (r, s') \<Longrightarrow> kstep env call s s'"

inductive_cases kstepE: "kstep env call s s'"

inductive kreach ::
  "'a pic_module_scheme kernel_env \<Rightarrow> 'a pic_module_scheme \<Rightarrow> 'a pic_module_scheme \<Rightarrow> bool"
  for env s0 where
  kreach_start: "kreach env s0 s0"
| kreach_step: "kreach env s0 s \<Longrightarrow> kstep env call s s' \<Longrightarrow> kreach env s0 s'"

lemma kstep_os_inv:
  assumes "entry_contract env" and "os_inv s" and "kstep env call s s'"
  shows "os_inv s'"
proof -
  obtain r where "call_allowed call s" "run_call env call s = Some (r, s')"
    using assms(3) by (elim kstepE)
  with run_call_returns[OF assms(1,2), of call] show ?thesis by auto
qed

theorem kreach_os_inv:
  assumes "entry_contract env" and "os_inv s0" and "kreach env s0 s"
  shows "os_inv s"
  using assms(3) by induction (simp_all add: assms(2) kstep_os_inv[OF assms(1)])

text \<open>A run of several calls, in order, with their results.\<close>

fun run_calls ::
  "'a pic_module_scheme kernel_env \<Rightarrow> kernel_call list \<Rightarrow> 'a pic_module_scheme \<Rightarrow>
   (int list \<times> 'a pic_module_scheme) option" where
  "run_calls env [] s = Some ([], s)"
| "run_calls env (c # cs) s =
     Option.bind (run_call env c s) (\<lambda>(r, s'). map_option (apfst ((#) r)) (run_calls env cs s'))"

fun calls_allowed ::
  "'a pic_module_scheme kernel_env \<Rightarrow> kernel_call list \<Rightarrow> 'a pic_module_scheme \<Rightarrow> bool" where
  "calls_allowed env [] s \<longleftrightarrow> True"
| "calls_allowed env (c # cs) s \<longleftrightarrow> call_allowed c s \<and>
     (case run_call env c s of None \<Rightarrow> False | Some (r, s') \<Rightarrow> calls_allowed env cs s')"

lemma run_calls_returns:
  fixes s :: "'a pic_module_scheme"
  assumes env: "entry_contract env"
  shows "os_inv s \<Longrightarrow> calls_allowed env cs s \<Longrightarrow> \<exists>rs s'. run_calls env cs s = Some (rs, s') \<and> os_inv s'"
proof (induction cs arbitrary: s)
  case (Cons c cs)
  then obtain r s1 where "run_call env c s = Some (r, s1)" "os_inv s1" "calls_allowed env cs s1"
    using run_call_returns[OF env Cons.prems(1), of c] by auto
  with Cons.IH[of s1] show ?case by auto
qed simp

lemma run_calls_reach:
  "calls_allowed env cs s \<Longrightarrow> run_calls env cs s = Some (rs, s') \<Longrightarrow> kreach env s0 s \<Longrightarrow> kreach env s0 s'"
proof (induction cs arbitrary: s rs)
  case (Cons c cs)
  from Cons.prems obtain r s1 rs1 where "call_allowed c s" "run_call env c s = Some (r, s1)"
    "calls_allowed env cs s1" "run_calls env cs s1 = Some (rs1, s')"
    by (auto split: option.splits bind_splits)
  with Cons.IH kreach_step[OF Cons.prems(3) kstep_call] show ?case by blast
qed simp

end
