(* ===== verification/Boot_Log.thy ===== *)
theory Boot_Log
  imports Interrupt
begin

section \<open>The logs of the boot code (\<open>kernel/kernel.c\<close>)\<close>

text \<open>
  The helpers of \<open>kernel.c\<close> that print a task, a decision or a result. Its number formatters are
  those of \<open>Console\<close> (\<open>kernel_write_uint\<close>, \<open>kernel_write_int\<close>). A task pointer is an index into the
  task table, \<open>None\<close> for NULL, and is read in the state in which the line is printed.
\<close>

definition kernel_log_task_register_result ::
  "c_string \<Rightarrow> int \<Rightarrow> 'a console_scheme \<Rightarrow> 'a console_scheme" where
  "kernel_log_task_register_result name result s =
     say (\<lambda>s. [''[kernel] task_register '', name_text name, '' returned '', int_str result, ''\<newline>'']) s"

fun kernel_task_state_to_string :: "task_state_t \<Rightarrow> string" where
  "kernel_task_state_to_string TASK_STATE_UNUSED = ''UNUSED''"
| "kernel_task_state_to_string TASK_STATE_DORMANT = ''DORMANT''"
| "kernel_task_state_to_string TASK_STATE_READY = ''READY''"
| "kernel_task_state_to_string TASK_STATE_RUNNING = ''RUNNING''"
| "kernel_task_state_to_string TASK_STATE_WAITING = ''WAITING''"

text \<open>The part \<open>id= name= prio= state=\<close> that most lines share.\<close>

definition kernel_task_fields :: "tcb_t \<Rightarrow> string list" where
  "kernel_task_fields t =
     [int_str (tid t), '' name='', name_or ''(null)'' (tname t),
      '' prio='', int_str (priority t), '' state='', kernel_task_state_to_string (tstate t)]"

definition kernel_log_scheduler_selection ::
  "c_string \<Rightarrow> nat option \<Rightarrow> 'a task_module_scheme \<Rightarrow> 'a task_module_scheme" where
  "kernel_log_scheduler_selection label task s =
     (case task of
        None \<Rightarrow> say (\<lambda>s. [''[scheduler] '', name_or ''(no-label)'' label, '' selected: none\<newline>'']) s
      | Some i \<Rightarrow> tcb_say i (\<lambda>t. [''[scheduler] '', name_or ''(no-label)'' label, '' selected: id='']
                    @ kernel_task_fields t @ [''\<newline>'']) s)"

definition kernel_preempt_reason_to_string :: "scheduler_preempt_decision_t \<Rightarrow> string" where
  "kernel_preempt_reason_to_string decision =
     (if decision_reason decision = SCHEDULER_PREEMPT_NEEDED then ''higher-priority-ready''
      else if decision_reason decision = SCHEDULER_PREEMPT_INVALID_CURRENT then ''invalid-current''
      else if decision_reason decision = SCHEDULER_PREEMPT_SAME_PRIORITY
      then ''same-priority-not-timeslice-target''
      else if decision_current decision = None then ''no-current''
      else if decision_candidate decision = None then ''no-ready''
      else ''no-higher-priority-ready'')"

definition kernel_log_preempt_task :: "string \<Rightarrow> nat option \<Rightarrow> 'a task_module_scheme \<Rightarrow> string list" where
  "kernel_log_preempt_task label task s =
     (case task of
        None \<Rightarrow> [label, ''=none'']
      | Some i \<Rightarrow> [label, '' id=''] @ kernel_task_fields (tcb_at i s))"

definition kernel_log_preemption_decision ::
  "c_string \<Rightarrow> scheduler_preempt_decision_t \<Rightarrow> 'a task_module_scheme \<Rightarrow> 'a task_module_scheme" where
  "kernel_log_preemption_decision label decision s =
     say (\<lambda>s. [''[preempt] '', name_or ''(no-label)'' label, '' result='',
               (if decision_reason decision = SCHEDULER_PREEMPT_NEEDED then ''switch-target'' else ''no-switch''),
               '' reason='', kernel_preempt_reason_to_string decision]
            @ kernel_log_preempt_task '' current'' (decision_current decision) s
            @ kernel_log_preempt_task '' candidate'' (decision_candidate decision) s @ [''\<newline>'']) s"

definition kernel_log_dispatcher_commit_result ::
  "int \<Rightarrow> 'a dispatcher_module_scheme \<Rightarrow> 'a dispatcher_module_scheme" where
  "kernel_log_dispatcher_commit_result result s =
     (if result \<noteq> DISPATCHER_OK
      then say (\<lambda>s. [''[dispatcher] commit failed: err='', int_str result, ''\<newline>'']) s
      else case dispatcher_get_current s of
        None \<Rightarrow> say (\<lambda>s. [''[dispatcher] committed current: none\<newline>'']) s
      | Some c \<Rightarrow> tcb_say c (\<lambda>t. [''[dispatcher] committed current: id=''] @ kernel_task_fields t @ [''\<newline>'']) s)"

definition kernel_log_entry_call :: "nat \<Rightarrow> 'a task_module_scheme \<Rightarrow> 'a task_module_scheme" where
  "kernel_log_entry_call c s =
     tcb_say c (\<lambda>t. [''[entry] calling current: id=''] @ kernel_task_fields t @ [''\<newline>'']) s"

definition kernel_log_entry_return :: "nat \<Rightarrow> 'a task_module_scheme \<Rightarrow> 'a task_module_scheme" where
  "kernel_log_entry_return c s =
     tcb_say c (\<lambda>t. [''[entry] returned current: id=''] @ kernel_task_fields t @ [''\<newline>'']) s"

definition kernel_log_cooperative_iteration :: "nat \<Rightarrow> 'a console_scheme \<Rightarrow> 'a console_scheme" where
  "kernel_log_cooperative_iteration iteration s =
     say (\<lambda>s. [''[cooperative] iteration='', ulong_str (of_nat iteration), '' begin\<newline>'']) s"

definition kernel_log_cooperative_return :: "nat \<Rightarrow> 'a task_module_scheme \<Rightarrow> 'a task_module_scheme" where
  "kernel_log_cooperative_return c s =
     tcb_say c (\<lambda>t. [''[cooperative] returned current: id=''] @ kernel_task_fields t @ [''\<newline>'']) s"

definition kernel_log_ready_recandidacy ::
  "nat option \<Rightarrow> int \<Rightarrow> 'a task_module_scheme \<Rightarrow> 'a task_module_scheme" where
  "kernel_log_ready_recandidacy current result s =
     (let s = (if result \<noteq> 0
               then say (\<lambda>s. [''[cooperative] ready again failed: err='', int_str result]) s
               else say (\<lambda>s. [''[cooperative] ready again: result=ok'']) s)
      in case current of
           None \<Rightarrow> say (\<lambda>s. ['' current=none\<newline>'']) s
         | Some c \<Rightarrow> tcb_say c (\<lambda>t. ['' id='', int_str (tid t), '' name='', name_or ''(null)'' (tname t),
              '' state='', kernel_task_state_to_string (tstate t), ''\<newline>'']) s)"

definition kernel_log_cooperative_stop :: "c_string \<Rightarrow> 'a console_scheme \<Rightarrow> 'a console_scheme" where
  "kernel_log_cooperative_stop reason s =
     say (\<lambda>s. [''[cooperative] stop: reason='', name_or ''unknown'' reason, ''\<newline>'']) s"

definition kernel_log_entry_skip ::
  "c_string \<Rightarrow> nat option \<Rightarrow> 'a task_module_scheme \<Rightarrow> 'a task_module_scheme" where
  "kernel_log_entry_skip reason current s =
     (let s = say (\<lambda>s. [''[entry] skipped: reason='', name_or ''unknown'' reason]) s
      in case current of
           None \<Rightarrow> say (\<lambda>s. ['' current=none\<newline>'']) s
         | Some c \<Rightarrow> tcb_say c (\<lambda>t. ['' id=''] @ kernel_task_fields t @ [''\<newline>'']) s)"

end
