(* ===== verification/Sem_Legacy.thy ===== *)
theory Sem_Legacy
  imports Dispatcher
begin

section \<open>The disabled first \<open>sig_sem\<close> (\<open>kernel/semaphore.c\<close>)\<close>

text \<open>
  \<open>sem_legacy_sig_sem_disabled\<close> and its helper, the only functions of \<open>semaphore.c\<close> that switch
  tasks themselves: unlike \<open>sig_sem\<close> of the task API, the woken task is entered at once.
\<close>

definition sig_sem_log_task_id_name :: "string \<Rightarrow> tcb_t option \<Rightarrow> string list" where
  "sig_sem_log_task_id_name label task =
     (case task of
        None \<Rightarrow> [label, '' none'']
      | Some t \<Rightarrow> [label, '' id='', int_str (tid t), '' name='', name_or ''(null)'' (tname t)])"

text \<open>Result: the return code, and whether a switch was made (\<open>*switched\<close>).\<close>

definition sig_sem_switch_if_woken_has_higher_priority ::
  "'a dispatcher_module_scheme kernel_env \<Rightarrow> int \<Rightarrow> 'a dispatcher_module_scheme \<Rightarrow>
   ((int \<times> bool) \<times> 'a dispatcher_module_scheme) option" where
  "sig_sem_switch_if_woken_has_higher_priority env woken_task_id s =
     (let current = dispatcher_get_current s;
          woken = task_get_by_id woken_task_id s;
          prio_part = (\<lambda>p s. case p of None \<Rightarrow> [] | Some i \<Rightarrow> ['' prio='', int_str (priority (tcb_at i s))]);
          s = say (\<lambda>s. [''[sig-sem] preempt check:'']
                @ sig_sem_log_task_id_name '' current'' (ptr_tcb current s) @ prio_part current s
                @ sig_sem_log_task_id_name '' woken'' (ptr_tcb woken s) @ prio_part woken s @ [''\<newline>'']) s
      in case (current, woken) of
           (Some c, Some w) \<Rightarrow>
             if tstate (tcb_at c s) \<noteq> TASK_STATE_RUNNING \<or> tstate (tcb_at w s) \<noteq> TASK_STATE_READY
             then Some ((SEM_OK, False),
                    say (\<lambda>s. [''[sig-sem] preempt not required: reason=invalid-current-or-woken-state\<newline>'']) s)
             else if priority (tcb_at w s) \<ge> priority (tcb_at c s)
             then Some ((SEM_OK, False),
                    say (\<lambda>s. [''[sig-sem] preempt not required: reason=same-or-lower-priority\<newline>'']) s)
             else let s = say (\<lambda>s. [''[sig-sem] preempt required: reason=wakeup-higher-priority\<newline>'']) s
             in (case (task_get_mutable_by_id (tid (tcb_at c s)) s,
                      task_get_mutable_by_id (tid (tcb_at w s)) s) of
                  (Some cm, Some wm) \<Rightarrow>
                    do {
                      let s = say (\<lambda>s. [''[sig-sem] switch begin:'']
                                @ sig_sem_log_task_id_name '' from'' (ptr_tcb current s)
                                @ sig_sem_log_task_id_name '' to'' (ptr_tcb woken s) @ [''\<newline>'']) s;
                      (switch_result, s) \<leftarrow> dispatcher_switch_to env (Some cm) (Some wm) s;
                      let s = say (\<lambda>s. [''[sig-sem] switch end: result='', int_str switch_result, ''\<newline>'']) s;
                      if switch_result \<noteq> DISPATCHER_OK then Some ((SEM_ERR_TASK, False), s)
                      else Some ((SEM_OK, True), s)
                    }
                | _ \<Rightarrow> Some ((SEM_ERR_TASK, False),
                         say (\<lambda>s. [''[sig-sem] switch failed: reason=task-not-found\<newline>'']) s))
         | _ \<Rightarrow> Some ((SEM_OK, False),
                  say (\<lambda>s. [''[sig-sem] preempt not required: reason=invalid-current-or-woken-state\<newline>'']) s))"

text \<open>The part for a dequeued waiter.\<close>

definition sem_legacy_wake ::
  "'a dispatcher_module_scheme kernel_env \<Rightarrow> int \<Rightarrow> int \<Rightarrow> 'a dispatcher_module_scheme \<Rightarrow>
   (int \<times> 'a dispatcher_module_scheme) option" where
  "sem_legacy_wake env sem_id woken_task_id s =
     (case task_get_by_id woken_task_id s of
        None \<Rightarrow> Some (SEM_ERR_TASK,
                  say (\<lambda>s. [''[sig-sem] wakeup failed: reason=task-not-found task id='',
                            int_str woken_task_id, ''\<newline>'']) s)
      | Some w \<Rightarrow>
          let woken_name = name_or ''(null)'' (tname (tcb_at w s));
              s = tcb_say w (\<lambda>t. [''[sig-sem] waiting task dequeued: id='', int_str woken_task_id,
                    '' name='', woken_name,
                    '' state='', (if tstate t = TASK_STATE_WAITING then ''WAITING'' else ''NOT-WAITING''),
                    '' wait_sem_id='', int_str (wait_sem_id t), ''\<newline>'']) s;
              (wake_result, s) = task_wake_waiting_on_sem_by_id woken_task_id sem_id s
          in if wake_result \<noteq> 0
             then Some (SEM_ERR_TASK,
                    say (\<lambda>s. [''[sig-sem] wakeup failed: err='', int_str wake_result, ''\<newline>'']) s)
             else do {
               let s = say (\<lambda>s. [''[sig-sem] wakeup: sem_id='', int_str sem_id,
                         '' task id='', int_str woken_task_id, '' name='', woken_name,
                         '' WAITING->READY\<newline>'']) s;
               ((preempt_result, switched), s) \<leftarrow>
                 sig_sem_switch_if_woken_has_higher_priority env woken_task_id s;
               if preempt_result \<noteq> SEM_OK
               then Some (preempt_result,
                      say (\<lambda>s. [''[sig-sem] completed: result='', int_str preempt_result,
                                '' action=wakeup-switch-failed\<newline>'']) s)
               else Some (SEM_OK,
                      say (\<lambda>s. [if switched then ''[sig-sem] completed: result=0 action=wakeup-switch\<newline>''
                                else ''[sig-sem] completed: result=0 action=wakeup-no-switch\<newline>'']) s)
             })"

definition sem_legacy_sig_sem_disabled ::
  "'a dispatcher_module_scheme kernel_env \<Rightarrow> int \<Rightarrow> 'a dispatcher_module_scheme \<Rightarrow>
   (int \<times> 'a dispatcher_module_scheme) option" where
  "sem_legacy_sig_sem_disabled env sem_id s =
     (let s = say (\<lambda>s. [''[sig-sem] called: sem_id='', int_str sem_id, ''\<newline>'']) s
      in case find_semaphore_by_id sem_id s of
           None \<Rightarrow> Some (SEM_ERR_INVAL,
                     say (\<lambda>s. [''[sig-sem] rejected: reason=invalid-semaphore sem_id='',
                               int_str sem_id, ''\<newline>'']) s)
         | Some i \<Rightarrow>
             let count_before = sem_count (sem_at i s);
                 ((dequeue_result, woken), s) = sem_dequeue_waiter sem_id s
             in if dequeue_result = SEM_OK
                then sem_legacy_wake env sem_id (case woken of None \<Rightarrow> 0 | Some k \<Rightarrow> k) s
                else if dequeue_result \<noteq> SEM_WAIT_QUEUE_EMPTY
                then Some (SEM_ERR_TASK,
                       say (\<lambda>s. [''[sig-sem] rejected: reason=wait-queue-error err='',
                                 int_str dequeue_result, ''\<newline>'']) s)
                else let s = say (\<lambda>s. [''[sig-sem] no waiting task: sem_id='', int_str sem_id, ''\<newline>'']) s
                in if sem_count (sem_at i s) \<ge> sem_max_count (sem_at i s)
                then Some (SEM_ERR_OVERFLOW,
                       say (\<lambda>s. let sem = sem_at i s in
                         [''[sig-sem] rejected: reason=count-overflow sem_id='', int_str (sem_ident sem),
                          '' count='', int_str count_before,
                          '' max_count='', int_str (sem_max_count sem),
                          '' wait_queue_count='', int_str (int (wait_count sem)), ''\<newline>'']) s)
                else let s = upd_sem i (\<lambda>sem. sem\<lparr>sem_count := sem_count sem + 1\<rparr>) s;
                         s = say (\<lambda>s. let sem = sem_at i s in
                           [''[sig-sem] count incremented: sem_id='', int_str (sem_ident sem),
                            '' count '', int_str count_before, ''->'', int_str (sem_count sem), ''\<newline>'',
                            ''[sig-sem] completed: result=0 action=count-up\<newline>'']) s
                in Some (SEM_OK, s))"

end
