(* ===== verification/Boot_Smoke.thy ===== *)
theory Boot_Smoke
  imports Boot_Log Sem_Legacy Itron_API
begin

section \<open>The boot smokes and task entries of \<open>kernel/kernel.c\<close>\<close>

text \<open>
  The task entries that \<open>kernel.c\<close> registers, and the sequences it runs at boot to exercise each
  component. The addresses of the entries and of the static stacks are chosen by the linker:
  they are the parameter \<open>kernel_image\<close>. A smoke that may switch returns \<open>None\<close> when control is lost.
\<close>

subsection \<open>Task entries\<close>

datatype kernel_entry =
    Task_a | Task_b | Task_c | Task_yield_from | Task_yield_to | Task_wai_sem_from | Task_wai_sem_to
  | Task_dly_from | Task_dly_to | Task_twai_from | Task_twai_to | Task_tick_delay | Task_tick_twai
  | Task_tick_current | Task_api_current | Task_api_created | Task_api_high | Task_sleep_current
  | Task_sleep_next | Task_sleep_waker | Task_sleep_sem_wait | Task_sleep_delay_wait | Task_sleep_twai_wait

text \<open>What each entry prints; every entry does nothing else.\<close>

fun kernel_entry_text :: "kernel_entry \<Rightarrow> string" where
  "kernel_entry_text Task_a = ''[task_a] executed\<newline>''"
| "kernel_entry_text Task_b = ''[task_b] executed\<newline>''"
| "kernel_entry_text Task_c = ''[task_c] executed\<newline>''"
| "kernel_entry_text Task_yield_from = ''[task_yield_from] executed\<newline>''"
| "kernel_entry_text Task_yield_to = ''[task_yield_to] executed\<newline>''"
| "kernel_entry_text Task_wai_sem_from = ''[task_wai_sem_from] executed\<newline>''"
| "kernel_entry_text Task_wai_sem_to = ''[task_wai_sem_to] executed\<newline>''"
| "kernel_entry_text Task_dly_from = ''[task_dly_from] executed\<newline>''"
| "kernel_entry_text Task_dly_to = ''[task_dly_to] executed\<newline>''"
| "kernel_entry_text Task_twai_from = ''[task_twai_from] executed\<newline>''"
| "kernel_entry_text Task_twai_to = ''[task_twai_to] executed\<newline>''"
| "kernel_entry_text Task_tick_delay = ''[task_tick_delay] executed\<newline>''"
| "kernel_entry_text Task_tick_twai = ''[task_tick_twai] executed\<newline>''"
| "kernel_entry_text Task_tick_current = ''[task_tick_current] executed\<newline>''"
| "kernel_entry_text Task_api_current = ''[task_api_current] executed\<newline>''"
| "kernel_entry_text Task_api_created = ''[task_api_created] executed\<newline>''"
| "kernel_entry_text Task_api_high = ''[task_api_high] executed\<newline>''"
| "kernel_entry_text Task_sleep_current = ''[task_sleep_current] executed\<newline>''"
| "kernel_entry_text Task_sleep_next = ''[task_sleep_next] executed\<newline>''"
| "kernel_entry_text Task_sleep_waker = ''[task_sleep_waker] executed\<newline>''"
| "kernel_entry_text Task_sleep_sem_wait = ''[task_sleep_sem_wait] executed\<newline>''"
| "kernel_entry_text Task_sleep_delay_wait = ''[task_sleep_delay_wait] executed\<newline>''"
| "kernel_entry_text Task_sleep_twai_wait = ''[task_sleep_twai_wait] executed\<newline>''"

definition kernel_entry_run :: "kernel_entry \<Rightarrow> 'a console_scheme \<Rightarrow> 'a console_scheme" where
  "kernel_entry_run e s = say (\<lambda>s. [kernel_entry_text e]) s"

text \<open>Where the linker has put the entries and their stacks.\<close>

record kernel_image =
  entry_address :: "kernel_entry \<Rightarrow> u64"
  stack_address :: "kernel_entry \<Rightarrow> u64"

abbreviation (input) TASK_STACK_SIZE :: u64 where "TASK_STACK_SIZE \<equiv> 1024"

text \<open>\<open>task_register\<close> for one of the tasks, and the log of its result.\<close>

definition kernel_register ::
  "kernel_image \<Rightarrow> kernel_entry \<Rightarrow> string \<Rightarrow> int \<Rightarrow> 'a task_module_scheme \<Rightarrow> int \<times> 'a task_module_scheme" where
  "kernel_register img e name prio s =
     (let (ident, s) = task_register (Some name) (entry_address img e) prio (stack_address img e)
                         TASK_STACK_SIZE s
      in (ident, kernel_log_task_register_result (Some name) ident s))"

text \<open>\<open>dispatcher_commit_current(task_get_by_id(id))\<close>.\<close>

definition kernel_commit :: "int \<Rightarrow> 'a dispatcher_module_scheme \<Rightarrow> int \<times> 'a dispatcher_module_scheme" where
  "kernel_commit k s = dispatcher_commit_current (task_get_by_id k s) s"

subsection \<open>Timer and preemption\<close>

definition kernel_run_timer_smoke :: "'a timer_module_scheme \<Rightarrow> 'a timer_module_scheme" where
  "kernel_run_timer_smoke s =
     (let s = say (\<lambda>s. [''[timer-smoke] begin\<newline>'']) s;
          s = timer_init s;
          s = timer_tick s;
          s = timer_tick s;
          s = timer_tick s;
          ticks = timer_get_ticks s
      in say (\<lambda>s. [''[timer-smoke] current tick='', ulong_str ticks, ''\<newline>'', ''[timer-smoke] end\<newline>'']) s)"

definition kernel_run_preemption_decision_smoke ::
  "string \<Rightarrow> 'a dispatcher_module_scheme \<Rightarrow> 'a dispatcher_module_scheme" where
  "kernel_run_preemption_decision_smoke label s =
     (let s = timer_tick s;
          current = dispatcher_get_current s;
          decision = scheduler_select_preemption_candidate current s
      in kernel_log_preemption_decision (Some label) decision s)"

text \<open>Commit a task, decide, and make the task READY again.\<close>

definition kernel_preemption_case ::
  "int \<Rightarrow> string \<Rightarrow> 'a dispatcher_module_scheme \<Rightarrow> 'a dispatcher_module_scheme" where
  "kernel_preemption_case k label s =
     (let (result, s) = kernel_commit k s;
          s = kernel_log_dispatcher_commit_result result s
      in if result = DISPATCHER_OK
         then let s = kernel_run_preemption_decision_smoke label s;
                  (result, s) = task_mark_ready_from_running k s
              in say (\<lambda>s. [''[preempt-smoke] restore current result='', int_str result,
                           '' task_id='', int_str k, ''\<newline>'']) s
         else s)"

definition kernel_run_preemption_smoke ::
  "int \<Rightarrow> int \<Rightarrow> 'a dispatcher_module_scheme \<Rightarrow> 'a dispatcher_module_scheme" where
  "kernel_run_preemption_smoke low_task_id high_task_id s =
     (let s = say (\<lambda>s. [''[preempt-smoke] begin\<newline>'']) s;
          s = kernel_run_preemption_decision_smoke ''no-current'' s;
          s = kernel_preemption_case low_task_id ''higher-ready'' s;
          s = kernel_preemption_case high_task_id ''no-higher-ready'' s
      in say (\<lambda>s. [''[preempt-smoke] end\<newline>'']) s)"

subsection \<open>Yield and context switch\<close>

definition kernel_run_yield_running_smoke ::
  "'a pending_module_scheme kernel_env \<Rightarrow> nat option \<Rightarrow> 'a pending_module_scheme \<Rightarrow>
   (int \<times> 'a pending_module_scheme) option" where
  "kernel_run_yield_running_smoke env selected s =
     (let s = say (\<lambda>s. [''[yield-smoke] begin\<newline>'']) s
      in if selected = None
         then Some (DISPATCHER_ERR_INVAL, say (\<lambda>s. [''[yield-smoke] stop: reason=no-selected-task\<newline>'']) s)
         else let (commit_result, s) = dispatcher_commit_current selected s;
                  s = kernel_log_dispatcher_commit_result commit_result s
         in if commit_result \<noteq> DISPATCHER_OK
         then Some (commit_result, say (\<lambda>s. [''[yield-smoke] stop: reason=commit-failed\<newline>'']) s)
         else do {
           (yield_result, s) \<leftarrow> yield_tsk env s;
           (if yield_result \<noteq> 0
            then Some (yield_result, say (\<lambda>s. [''[yield-smoke] stop: reason=yield-failed err='',
                        int_str yield_result, ''\<newline>'']) s)
            else Some (0, say (\<lambda>s. [''[yield-smoke] end\<newline>'']) s))
         })"

definition kernel_run_minimal_context_switch_smoke ::
  "'a dispatcher_module_scheme kernel_env \<Rightarrow> nat \<Rightarrow> nat option \<Rightarrow> 'a dispatcher_module_scheme \<Rightarrow>
   (int \<times> 'a dispatcher_module_scheme) option" where
  "kernel_run_minimal_context_switch_smoke env selected next_selected s =
     (let s = say (\<lambda>s. [''[context-smoke] begin\<newline>'']) s;
          (commit_result, s) = dispatcher_commit_current (Some selected) s;
          s = kernel_log_dispatcher_commit_result commit_result s
      in if commit_result \<noteq> DISPATCHER_OK
         then Some (commit_result, say (\<lambda>s. [''[context-smoke] stop: reason=commit-failed\<newline>'']) s)
         else case task_get_mutable_by_id (tid (tcb_at selected s)) s of
           None \<Rightarrow> Some (TASK_CONTEXT_ERR_INVAL, say (\<lambda>s. [''[context-smoke] stop: reason=current-not-found\<newline>'']) s)
         | Some cm \<Rightarrow>
             if next_selected = None \<or> tid (tcb_at (the next_selected) s) = tid (tcb_at selected s)
             then Some (TASK_CONTEXT_ERR_INVAL, say (\<lambda>s. [''[context-smoke] stop: reason=next-not-found\<newline>'']) s)
             else case task_get_mutable_by_id (tid (tcb_at (the next_selected) s)) s of
               None \<Rightarrow> Some (TASK_CONTEXT_ERR_INVAL, say (\<lambda>s. [''[context-smoke] stop: reason=next-not-found\<newline>'']) s)
             | Some nm \<Rightarrow>
                 do {
                   (switch_result, s) \<leftarrow> dispatcher_switch_to env (Some cm) (Some nm) s;
                   (if switch_result \<noteq> TASK_CONTEXT_OK
                    then Some (switch_result, say (\<lambda>s. [''[context-smoke] stop: reason=switch-failed\<newline>'']) s)
                    else Some (0, say (\<lambda>s. [''[context-smoke] end\<newline>'']) s))
                 })"

subsection \<open>The cooperative loop\<close>

text \<open>
  One iteration; the Boolean says whether the loop goes on. \<open>iteration\<close> is 1, 2, 3
  (\<open>KERNEL_COOPERATIVE_ENTRY_LIMIT\<close>).
\<close>

definition kernel_cooperative_iteration ::
  "'a dispatcher_module_scheme kernel_env \<Rightarrow> nat \<Rightarrow> 'a dispatcher_module_scheme \<Rightarrow>
   (bool \<times> 'a dispatcher_module_scheme) option" where
  "kernel_cooperative_iteration env iteration s =
     (let s = kernel_log_cooperative_iteration iteration s;
          selected = scheduler_select_next s;
          s = kernel_log_scheduler_selection (Some ''cooperative'') selected s
      in if selected = None then Some (False, kernel_log_cooperative_stop (Some ''no-ready'') s)
         else let (commit_result, s) = dispatcher_commit_current selected s;
                  s = kernel_log_dispatcher_commit_result commit_result s
         in if commit_result \<noteq> DISPATCHER_OK
         then Some (False, kernel_log_cooperative_stop (Some ''commit-failed'') s)
         else case dispatcher_get_current s of
           None \<Rightarrow> Some (False, kernel_log_cooperative_stop (Some ''current-null'')
                     (kernel_log_entry_skip (Some ''current-null'') None s))
         | Some current \<Rightarrow>
             if tstate (tcb_at current s) \<noteq> TASK_STATE_RUNNING
             then Some (False, kernel_log_cooperative_stop (Some ''current-not-running'')
                    (kernel_log_entry_skip (Some ''current-not-running'') (Some current) s))
             else if entry (tcb_at current s) = 0
             then Some (False, kernel_log_cooperative_stop (Some ''entry-null'')
                    (kernel_log_entry_skip (Some ''entry-null'') (Some current) s))
             else do {
               let s = kernel_log_entry_call current s;
               s \<leftarrow> entry_body env (entry (tcb_at current s)) s;
               let s = kernel_log_entry_return current s;
               let s = kernel_log_cooperative_return current s;
               let (ready_result, s) = task_mark_ready_from_running (tid (tcb_at current s)) s;
               let s = kernel_log_ready_recandidacy (Some current) ready_result s;
               (if ready_result \<noteq> 0
                then Some (False, kernel_log_cooperative_stop (Some ''ready-recandidate-failed'') s)
                else Some (True, s))
             })"

text \<open>\<open>n\<close> iterations are left.\<close>

fun kernel_cooperative_loop ::
  "'a dispatcher_module_scheme kernel_env \<Rightarrow> nat \<Rightarrow> nat \<Rightarrow> 'a dispatcher_module_scheme \<Rightarrow>
   'a dispatcher_module_scheme option" where
  "kernel_cooperative_loop env 0 iteration s = Some (kernel_log_cooperative_stop (Some ''limit-reached'') s)"
| "kernel_cooperative_loop env (Suc n) iteration s =
     do {
       (continue, s) \<leftarrow> kernel_cooperative_iteration env iteration s;
       (if continue then kernel_cooperative_loop env n (iteration + 1) s else Some s)
     }"

definition kernel_run_cooperative_entries ::
  "'a dispatcher_module_scheme kernel_env \<Rightarrow> 'a dispatcher_module_scheme \<Rightarrow>
   'a dispatcher_module_scheme option" where
  "kernel_run_cooperative_entries env s = kernel_cooperative_loop env 3 1 s"

subsection \<open>Semaphores\<close>

text \<open>The two signals of the signaller, and the dumps.\<close>

definition kernel_semaphore_signals :: "int \<Rightarrow> 'a pending_module_scheme \<Rightarrow> 'a pending_module_scheme" where
  "kernel_semaphore_signals sem_a_id s =
     (let s = snd (sig_sem sem_a_id s);
          s = snd (sig_sem sem_a_id s);
          s = task_dump s;
          s = sem_dump s
      in say (\<lambda>s. [''[sem-smoke] end\<newline>'']) s)"

definition kernel_run_semaphore_smoke ::
  "kernel_image \<Rightarrow> 'a pending_module_scheme kernel_env \<Rightarrow> int \<Rightarrow> 'a pending_module_scheme \<Rightarrow>
   'a pending_module_scheme option" where
  "kernel_run_semaphore_smoke img env current_task_id s =
     (let s = say (\<lambda>s. [''[sem-smoke] begin\<newline>'']) s;
          s = snd (sem_init s);
          (sem_a_id, s) = sem_create (Some ''sem_a'') 1 1 s;
          (sem_pol_id, s) = sem_create (Some ''sem_pol'') 1 1 s
      in if sem_a_id < 0 \<or> sem_pol_id < 0
         then Some (say (\<lambda>s. [''[sem-smoke] stop: reason=create-failed\<newline>'']) s)
         else let (commit_result, s) = kernel_commit current_task_id s
         in if commit_result \<noteq> DISPATCHER_OK
         then Some (say (\<lambda>s. [''[sem-smoke] stop: reason=current-commit-failed\<newline>'']) s)
         else do {
           let s = snd (pol_sem sem_pol_id s);
           let s = snd (pol_sem sem_pol_id s);
           let s = snd (pol_sem (-1) s);
           (r, s) \<leftarrow> wai_sem env (-1) s;
           (r, s) \<leftarrow> wai_sem env sem_a_id s;
           (r, s) \<leftarrow> wai_sem env sem_a_id s;
           let (signaler_task_id, s) = kernel_register img Task_wai_sem_to ''task_wai_sem_to'' 5 s;
           (if signaler_task_id \<le> 0
            then Some (say (\<lambda>s. [''[sem-smoke] stop: reason=signaler-current-commit-failed\<newline>'']) s)
            else let (commit_result, s) = kernel_commit signaler_task_id s
            in if commit_result \<noteq> DISPATCHER_OK
            then Some (say (\<lambda>s. [''[sem-smoke] stop: reason=signaler-current-commit-failed\<newline>'']) s)
            else Some (kernel_semaphore_signals sem_a_id s))
         })"

definition kernel_run_delay_smoke ::
  "'a pending_module_scheme kernel_env \<Rightarrow> int \<Rightarrow> 'a pending_module_scheme \<Rightarrow>
   'a pending_module_scheme option" where
  "kernel_run_delay_smoke env current_task_id s =
     (let s = say (\<lambda>s. [''[dly-smoke] begin\<newline>'']) s;
          (commit_result, s) = kernel_commit current_task_id s
      in if commit_result \<noteq> DISPATCHER_OK
         then Some (say (\<lambda>s. [''[dly-smoke] stop: reason=current-commit-failed\<newline>'']) s)
         else do {
           (r, s) \<leftarrow> dly_tsk env 0 s;
           (r, s) \<leftarrow> dly_tsk env 10 s;
           let s = task_dump s;
           Some (say (\<lambda>s. [''[dly-smoke] end\<newline>'']) s)
         })"

definition kernel_run_twai_sem_smoke ::
  "'a pending_module_scheme kernel_env \<Rightarrow> int \<Rightarrow> 'a pending_module_scheme \<Rightarrow>
   'a pending_module_scheme option" where
  "kernel_run_twai_sem_smoke env current_task_id s =
     (let s = say (\<lambda>s. [''[twai-smoke] begin\<newline>'']) s;
          s = snd (sem_init s);
          (sem_twai_id, s) = sem_create (Some ''sem_twai'') 1 1 s
      in if sem_twai_id < 0
         then Some (say (\<lambda>s. [''[twai-smoke] stop: reason=create-failed\<newline>'']) s)
         else let (commit_result, s) = kernel_commit current_task_id s
         in if commit_result \<noteq> DISPATCHER_OK
         then Some (say (\<lambda>s. [''[twai-smoke] stop: reason=current-commit-failed\<newline>'']) s)
         else do {
           (r, s) \<leftarrow> twai_sem env sem_twai_id 0 s;
           (r, s) \<leftarrow> twai_sem env sem_twai_id 10 s;
           (r, s) \<leftarrow> twai_sem env sem_twai_id 10 s;
           let s = snd (sig_sem sem_twai_id s);
           let s = task_dump s;
           let s = sem_dump s;
           Some (say (\<lambda>s. [''[twai-smoke] end\<newline>'']) s)
         })"

subsection \<open>Ticks\<close>

text \<open>
  \<open>||\<close> evaluates left to right and stops at the first failure; the state of a failed call is kept.
\<close>

definition or_else ::
  "int \<times> 's \<Rightarrow> ('s \<Rightarrow> int \<times> 's) \<Rightarrow> int \<times> 's" where
  "or_else p f = (if fst p \<noteq> 0 then p else f (snd p))"

definition kernel_tick_delay_setup ::
  "int \<Rightarrow> 'a delay_module_scheme \<Rightarrow> int \<times> 'a delay_module_scheme" where
  "kernel_tick_delay_setup k s =
     or_else (task_mark_waiting_on_delay k 1 s) (\<lambda>s. delay_queue_enqueue k 1 s)"

definition kernel_tick_twai_setup ::
  "int \<Rightarrow> int \<Rightarrow> 'a delay_module_scheme \<Rightarrow> int \<times> 'a delay_module_scheme" where
  "kernel_tick_twai_setup k m s =
     or_else (or_else (task_mark_waiting_on_sem_timeout k m 1 s) (\<lambda>s. sem_enqueue_waiter m k s))
       (\<lambda>s. delay_queue_enqueue k 1 s)"

definition kernel_tick_and_dump :: "'a pending_module_scheme \<Rightarrow> 'a pending_module_scheme" where
  "kernel_tick_and_dump s =
     (let s = timer_tick s;
          (not_requested_reason, s) = preemption_evaluate_from_irq s;
          s = dispatch_pending_log_state_from_irq not_requested_reason s;
          s = delay_queue_dump s;
          s = task_dump s;
          s = sem_dump s
      in say (\<lambda>s. [''[tick-ready-smoke] end\<newline>'']) s)"

definition kernel_run_tick_ready_wakeup_smoke ::
  "int \<Rightarrow> int \<Rightarrow> int \<Rightarrow> 'a pending_module_scheme \<Rightarrow> 'a pending_module_scheme" where
  "kernel_run_tick_ready_wakeup_smoke delay_task_id twai_task_id current_task_id s =
     (let stop = (\<lambda>reason s. say (\<lambda>s. [''[tick-ready-smoke] stop: reason='', reason, ''\<newline>'']) s);
          s = say (\<lambda>s. [''[tick-ready-smoke] begin\<newline>'']) s;
          (sem_tick_id, s) = sem_create (Some ''sem_tick_timeout'') 0 1 s
      in if sem_tick_id < 0 then stop ''create-failed'' s
         else let (result, s) = kernel_commit delay_task_id s
         in if result \<noteq> DISPATCHER_OK then stop ''delay-current-commit-failed'' s
         else let (result, s) = kernel_tick_delay_setup delay_task_id s
         in if result \<noteq> 0 then stop ''delay-queue-setup-failed'' s
         else let (result, s) = kernel_commit twai_task_id s
         in if result \<noteq> DISPATCHER_OK then stop ''twai-current-commit-failed'' s
         else let (result, s) = kernel_tick_twai_setup twai_task_id sem_tick_id s
         in if result \<noteq> 0 then stop ''twai-queue-setup-failed'' s
         else let (result, s) = kernel_commit current_task_id s
         in if result \<noteq> DISPATCHER_OK then stop ''low-current-commit-failed'' s
         else kernel_tick_and_dump s)"

subsection \<open>Creation and start\<close>

definition kernel_create_param ::
  "kernel_image \<Rightarrow> kernel_entry \<Rightarrow> string \<Rightarrow> int \<Rightarrow> itron_task_create_param_t" where
  "kernel_create_param img e name prio =
     \<lparr>ctsk_entry = entry_address img e, ctsk_priority = prio, ctsk_stack_base = stack_address img e,
      ctsk_stack_size = TASK_STACK_SIZE, ctsk_name = Some name\<rparr>"

definition kernel_run_create_start_task_api_smoke ::
  "kernel_image \<Rightarrow> 'a pending_module_scheme kernel_env \<Rightarrow> 'a pending_module_scheme \<Rightarrow>
   'a pending_module_scheme option" where
  "kernel_run_create_start_task_api_smoke img env s =
     (let s = say (\<lambda>s. [''[create-start-smoke] begin\<newline>'']) s;
          s = dispatch_pending_clear_for_test_or_later_boundary s;
          (current_task_id, s) = kernel_register img Task_api_current ''task_api_current'' 5 s;
          (commit_result, s) = (if current_task_id \<le> 0 then (DISPATCHER_ERR_INVAL, s)
                                else kernel_commit current_task_id s)
      in if commit_result \<noteq> DISPATCHER_OK
         then Some (say (\<lambda>s. [''[create-start-smoke] stop: reason=current-commit-failed\<newline>'']) s)
         else do {
           let s = snd (cre_tsk 22 None s);
           let s = snd (cre_tsk 20 (Some (kernel_create_param img Task_api_created ''task_api_created'' 6)) s);
           let s = kernel_log_scheduler_selection (Some ''after_cre_tsk_dormant'') (scheduler_select_next s) s;
           let s = task_dump s;
           let s = snd (sta_tsk 999 s);
           let s = snd (sta_tsk 20 s);
           let s = kernel_log_scheduler_selection (Some ''after_sta_tsk_ready'') (scheduler_select_next s) s;
           let s = snd (sta_tsk 20 s);
           let s = snd (cre_tsk 21 (Some (kernel_create_param img Task_api_high ''task_high'' 1)) s);
           let s = snd (sta_tsk 21 s);
           let s = dispatch_pending_log_state_from_irq None s;
           (r, s) \<leftarrow> dispatch_pending_consume_at_deferred_boundary env s;
           let s = task_dump s;
           Some (say (\<lambda>s. [''[create-start-smoke] end\<newline>'']) s)
         })"

subsection \<open>Sleep and wakeup\<close>

text \<open>
  A task is registered, committed and put into a wait other than sleep by \<open>mark\<close>; then \<open>wup_tsk\<close>
  has to refuse it.
\<close>

definition kernel_sleep_refusal ::
  "kernel_image \<Rightarrow> kernel_entry \<Rightarrow> string \<Rightarrow>
   (int \<Rightarrow> 'a pending_module_scheme \<Rightarrow> int \<times> 'a pending_module_scheme) \<Rightarrow>
   'a pending_module_scheme \<Rightarrow> 'a pending_module_scheme" where
  "kernel_sleep_refusal img e name mark s =
     (let (ident, s) = kernel_register img e name 8 s
      in if ident > 0
         then let (result, s) = or_else (kernel_commit ident s) (mark ident)
              in if result = 0 then snd (wup_tsk ident s) else s
         else s)"

definition kernel_sleep_wakeups ::
  "kernel_image \<Rightarrow> int \<Rightarrow> 'a pending_module_scheme \<Rightarrow> 'a pending_module_scheme" where
  "kernel_sleep_wakeups img sleep_current_id s =
     (let s = snd (wup_tsk 999 s);
          s = snd (wup_tsk sleep_current_id s);
          s = dispatch_pending_log_state_from_irq None s;
          s = snd (wup_tsk sleep_current_id s);
          s = kernel_sleep_refusal img Task_sleep_sem_wait ''task_sleep_sem_wait''
                (\<lambda>k s. task_mark_waiting_on_sem k 99 s) s;
          s = kernel_sleep_refusal img Task_sleep_delay_wait ''task_sleep_delay_wait''
                (\<lambda>k s. task_mark_waiting_on_delay k 5 s) s;
          s = kernel_sleep_refusal img Task_sleep_twai_wait ''task_sleep_twai_wait''
                (\<lambda>k s. task_mark_waiting_on_sem_timeout k 100 5 s) s;
          s = task_dump s
      in say (\<lambda>s. [''[sleep-wakeup-smoke] end\<newline>'']) s)"

definition kernel_run_sleep_wakeup_task_api_smoke ::
  "kernel_image \<Rightarrow> 'a pending_module_scheme kernel_env \<Rightarrow> 'a pending_module_scheme \<Rightarrow>
   'a pending_module_scheme option" where
  "kernel_run_sleep_wakeup_task_api_smoke img env s =
     (let s = say (\<lambda>s. [''[sleep-wakeup-smoke] begin\<newline>'']) s;
          s = dispatch_pending_clear_for_test_or_later_boundary s;
          (sleep_current_id, s) = kernel_register img Task_sleep_current ''task_sleep_current'' (-2) s;
          (sleep_next_id, s) = kernel_register img Task_sleep_next ''task_sleep_next'' (-1) s;
          (commit_result, s) = (if sleep_current_id \<le> 0 \<or> sleep_next_id \<le> 0 then (DISPATCHER_ERR_INVAL, s)
                                else kernel_commit sleep_current_id s)
      in if commit_result \<noteq> DISPATCHER_OK
         then Some (say (\<lambda>s. [''[sleep-wakeup-smoke] stop: reason=current-commit-failed\<newline>'']) s)
         else do {
           (r, s) \<leftarrow> slp_tsk env s;
           let s = task_dump s;
           let (sleep_waker_id, s) = kernel_register img Task_sleep_waker ''task_sleep_waker'' 10 s;
           let (commit_result, s) = (if sleep_waker_id \<le> 0 then (DISPATCHER_ERR_INVAL, s)
                                     else kernel_commit sleep_waker_id s);
           (if commit_result \<noteq> DISPATCHER_OK
            then Some (say (\<lambda>s. [''[sleep-wakeup-smoke] stop: reason=waker-commit-failed\<newline>'']) s)
            else Some (kernel_sleep_wakeups img sleep_current_id s))
         })"

end
