(* ===== verification/Serial.thy ===== *)
theory Serial
  imports Console "HOL-Library.Monad_Syntax"
begin

section \<open>The serial line (\<open>arch/x86_64/serial.c\<close>, \<open>hal_console.c\<close>)\<close>

text \<open>
  The COM1 driver under \<open>hal_console_putc\<close> and \<open>hal_console_write\<close>. The device is the sequence of
  values that the line status register returns, one per read; the driver polls it before every
  character, and does not return when the transmitter never gets ready. The last part shows that
  the text of the model's console is what the driver sends, with CR LF for every newline.
\<close>

unbundle bit_operations_syntax

record serial_port =
  out_ports :: "(16 word \<times> 8 word) list"
  status_reads :: nat

abbreviation (input) COM1_PORT :: "16 word" where "COM1_PORT \<equiv> 0x3F8"

definition outb :: "16 word \<Rightarrow> 8 word \<Rightarrow> serial_port \<Rightarrow> serial_port" where
  "outb port value p = p\<lparr>out_ports := out_ports p @ [(port, value)]\<rparr>"

definition serial_init :: "serial_port \<Rightarrow> serial_port" where
  "serial_init p =
     (let p = outb (COM1_PORT + 1) 0x00 p;
          p = outb (COM1_PORT + 3) 0x80 p;
          p = outb (COM1_PORT + 0) 0x03 p;
          p = outb (COM1_PORT + 1) 0x00 p;
          p = outb (COM1_PORT + 3) 0x03 p;
          p = outb (COM1_PORT + 2) 0xC7 p
      in outb (COM1_PORT + 4) 0x0B p)"

text \<open>\<open>lsr n\<close> is what the \<open>n\<close>-th read of the line status register returns.\<close>

definition serial_can_transmit :: "(nat \<Rightarrow> 8 word) \<Rightarrow> serial_port \<Rightarrow> bool \<times> serial_port" where
  "serial_can_transmit lsr p =
     (lsr (status_reads p) AND 0x20 \<noteq> 0, p\<lparr>status_reads := status_reads p + 1\<rparr>)"

partial_function (option) serial_wait :: "(nat \<Rightarrow> 8 word) \<Rightarrow> serial_port \<Rightarrow> serial_port option" where
  "serial_wait lsr p =
     (case serial_can_transmit lsr p of
        (ready, p) \<Rightarrow> if ready then Some p else serial_wait lsr p)"

definition serial_write_raw_char :: "(nat \<Rightarrow> 8 word) \<Rightarrow> char \<Rightarrow> serial_port \<Rightarrow> serial_port option" where
  "serial_write_raw_char lsr c p =
     do { p \<leftarrow> serial_wait lsr p; Some (outb COM1_PORT (of_char c) p) }"

definition serial_putc :: "(nat \<Rightarrow> 8 word) \<Rightarrow> char \<Rightarrow> serial_port \<Rightarrow> serial_port option" where
  "serial_putc lsr c p =
     do {
       p \<leftarrow> (if c = CHR 0x0A then serial_write_raw_char lsr (CHR 0x0D) p else Some p);
       serial_write_raw_char lsr c p
     }"

text \<open>A C string is the characters before its terminating NUL.\<close>

fun serial_write_chars :: "(nat \<Rightarrow> 8 word) \<Rightarrow> string \<Rightarrow> serial_port \<Rightarrow> serial_port option" where
  "serial_write_chars lsr [] p = Some p"
| "serial_write_chars lsr (c # cs) p = do { p \<leftarrow> serial_putc lsr c p; serial_write_chars lsr cs p }"

definition serial_write :: "(nat \<Rightarrow> 8 word) \<Rightarrow> c_string \<Rightarrow> serial_port \<Rightarrow> serial_port option" where
  "serial_write lsr message p =
     (case message of None \<Rightarrow> Some p | Some m \<Rightarrow> serial_write_chars lsr m p)"

subsection \<open>Every character is sent once the transmitter gets ready\<close>

definition transmitter_ready :: "8 word \<Rightarrow> bool" where
  "transmitter_ready v \<longleftrightarrow> v AND 0x20 \<noteq> 0"

text \<open>A device that is ready again and again.\<close>

definition live_device :: "(nat \<Rightarrow> 8 word) \<Rightarrow> bool" where
  "live_device lsr \<longleftrightarrow> (\<forall>n. \<exists>m \<ge> n. transmitter_ready (lsr m))"

lemma serial_wait_ready:
  "transmitter_ready (lsr (status_reads p + k)) \<Longrightarrow>
   \<exists>p'. serial_wait lsr p = Some p' \<and> out_ports p' = out_ports p"
proof (induction k arbitrary: p)
  case 0
  then show ?case
    by (subst serial_wait.simps) (simp add: serial_can_transmit_def transmitter_ready_def)
next
  case (Suc k)
  let ?p = "p\<lparr>status_reads := status_reads p + 1\<rparr>"
  have "transmitter_ready (lsr (status_reads ?p + k))" using Suc.prems by simp
  from Suc.IH[OF this] obtain p' where "serial_wait lsr ?p = Some p'" "out_ports p' = out_ports ?p"
    by blast
  then show ?case
    by (subst serial_wait.simps) (simp add: serial_can_transmit_def)
qed

lemma serial_wait_live:
  assumes "live_device lsr"
  obtains p' where "serial_wait lsr p = Some p'" and "out_ports p' = out_ports p"
proof -
  from assms obtain m where "status_reads p \<le> m" and "transmitter_ready (lsr m)"
    unfolding live_device_def by blast
  with serial_wait_ready[of lsr p "m - status_reads p"] that show thesis by auto
qed

text \<open>What the line carries for a character of the console.\<close>

definition crlf :: "char \<Rightarrow> string" where
  "crlf c = (if c = CHR 0x0A then [CHR 0x0D, c] else [c])"

definition com1_bytes :: "string \<Rightarrow> (16 word \<times> 8 word) list" where
  "com1_bytes m = map (\<lambda>c. (COM1_PORT, of_char c)) (concat (map crlf m))"

lemma serial_write_raw_char_live:
  assumes "live_device lsr"
  obtains p' where "serial_write_raw_char lsr c p = Some p'"
    and "out_ports p' = out_ports p @ [(COM1_PORT, of_char c)]"
proof -
  obtain q where "serial_wait lsr p = Some q" and "out_ports q = out_ports p"
    using serial_wait_live[OF assms] by blast
  with that show thesis by (simp add: serial_write_raw_char_def outb_def)
qed

lemma serial_putc_live:
  assumes "live_device lsr"
  obtains p' where "serial_putc lsr c p = Some p'"
    and "out_ports p' = out_ports p @ com1_bytes [c]"
proof (cases "c = CHR 0x0A")
  case True
  obtain q where q: "serial_write_raw_char lsr (CHR 0x0D) p = Some q"
    "out_ports q = out_ports p @ [(COM1_PORT, of_char (CHR 0x0D))]"
    using serial_write_raw_char_live[OF assms] by blast
  obtain r where "serial_write_raw_char lsr c q = Some r"
    "out_ports r = out_ports q @ [(COM1_PORT, of_char c)]"
    using serial_write_raw_char_live[OF assms] by blast
  with q True that show thesis by (simp add: serial_putc_def com1_bytes_def crlf_def)
next
  case False
  obtain r where "serial_write_raw_char lsr c p = Some r"
    "out_ports r = out_ports p @ [(COM1_PORT, of_char c)]"
    using serial_write_raw_char_live[OF assms] by blast
  with False that show thesis by (simp add: serial_putc_def com1_bytes_def crlf_def)
qed

lemma com1_bytes_Cons: "com1_bytes (c # m) = com1_bytes [c] @ com1_bytes m"
  by (simp add: com1_bytes_def)

lemma serial_write_chars_live:
  "live_device lsr \<Longrightarrow>
   \<exists>p'. serial_write_chars lsr m p = Some p' \<and> out_ports p' = out_ports p @ com1_bytes m"
proof (induction m arbitrary: p)
  case Nil
  show ?case by (simp add: com1_bytes_def)
next
  case (Cons c m)
  obtain q where q: "serial_putc lsr c p = Some q" "out_ports q = out_ports p @ com1_bytes [c]"
    using serial_putc_live[OF Cons.prems] by blast
  obtain r where "serial_write_chars lsr m q = Some r" "out_ports r = out_ports q @ com1_bytes m"
    using Cons.IH[OF Cons.prems] by blast
  with q show ?case by (simp add: com1_bytes_Cons[of c m])
qed

lemma serial_write_live:
  "live_device lsr \<Longrightarrow>
   \<exists>p'. serial_write lsr message p = Some p' \<and> out_ports p' = out_ports p @ com1_bytes (name_text message)"
  using serial_write_chars_live[of lsr] by (cases message) (auto simp: serial_write_def name_text_def com1_bytes_def)

subsection \<open>The console on the line\<close>

text \<open>
  In the kernel state the console is the text that has been printed. What it has to do with the line: a
  run that ends in the state \<open>s\<close> comes back on the machine exactly when the driver comes back from
  sending \<open>con s\<close>, since the text is sent character by character as it is printed and the line does
  not act on the rest of the kernel. \<open>on_line lsr p x\<close> is the outcome \<open>x\<close> of a run with its line, from a
  state with an empty console; \<open>on_line_write\<close> says that every write of the console then is a write of
  the driver.
\<close>

definition on_line ::
  "(nat \<Rightarrow> 8 word) \<Rightarrow> serial_port \<Rightarrow> 'a console_scheme option \<Rightarrow> ('a console_scheme \<times> serial_port) option" where
  "on_line lsr p x = do { s \<leftarrow> x; p \<leftarrow> serial_write_chars lsr (con s) p; Some (s, p) }"

lemma serial_write_chars_append:
  "serial_write_chars lsr (m @ n) p = do { p \<leftarrow> serial_write_chars lsr m p; serial_write_chars lsr n p }"
  by (induction m arbitrary: p) (simp_all cong: Option.bind_cong)

lemma on_line_write:
  "on_line lsr p (Some (hal_console_write message s)) =
     do {
       (s, p) \<leftarrow> on_line lsr p (Some s);
       p \<leftarrow> serial_write lsr message p;
       Some (hal_console_write message s, p)
     }"
  by (cases message) (simp_all add: on_line_def hal_console_write_def fold_putc serial_write_def
      serial_write_chars_append bind_assoc)

lemma on_line_live:
  assumes "live_device lsr"
  obtains p' where "on_line lsr p (Some s) = Some (s, p')" and "out_ports p' = out_ports p @ com1_bytes (con s)"
  using serial_write_chars_live[OF assms, of "con s" p] by (auto simp: on_line_def)

end
