(* ===== verification/Boot.thy ===== *)
theory Boot
  imports Boot_Smoke Serial
begin

section \<open>The HAL and \<open>kernel_main\<close>\<close>

text \<open>
  The adapters of \<open>arch/x86_64/hal_interrupt.c\<close>, \<open>hal_console_init\<close>, and the boot sequence. \<open>kernel_main\<close>
  never returns: \<open>Some s\<close> is the state in which it halts for good, \<open>None\<close> that control is lost in a
  switch or to the validation exception. The two compile-time switches are the record
  \<open>kernel_build\<close>; with \<open>ARCH_TIMER_IRQ_ENTRY_VALIDATE\<close> the result is the state of the idle loop in
  which the timer interrupt arrives.
\<close>

record machine = interrupt_module +
  com1 :: serial_port

record kernel_build =
  ARCH_INTERRUPT_VALIDATE_EXCEPTION :: bool
  ARCH_TIMER_IRQ_ENTRY_VALIDATE :: bool

definition hal_console_init :: "'a machine_scheme \<Rightarrow> 'a machine_scheme" where
  "hal_console_init s = s\<lparr>com1 := serial_init (com1 s)\<rparr>"

definition hal_interrupt_init ::
  "interrupt_env \<Rightarrow> 'a interrupt_module_scheme \<Rightarrow> int \<times> 'a interrupt_module_scheme" where
  "hal_interrupt_init ie s = arch_interrupt_init ie s"

definition hal_interrupt_controller_init :: "'a pic_module_scheme \<Rightarrow> int \<times> 'a pic_module_scheme" where
  "hal_interrupt_controller_init s = arch_pic_init s"

definition hal_interrupt_trigger_validation_exception ::
  "'a interrupt_module_scheme \<Rightarrow> 'a interrupt_module_scheme option" where
  "hal_interrupt_trigger_validation_exception s = arch_interrupt_trigger_validation_exception s"

definition hal_interrupt_enable_timer_entry_validation ::
  "'a interrupt_module_scheme \<Rightarrow> 'a interrupt_module_scheme" where
  "hal_interrupt_enable_timer_entry_validation s = arch_interrupt_enable_timer_entry_validation s"

subsection \<open>The validation build of the timer interrupt\<close>

definition kernel_main_irq_validation ::
  "'a interrupt_module_scheme kernel_env \<Rightarrow> int \<Rightarrow> int \<Rightarrow> 'a interrupt_module_scheme \<Rightarrow>
   'a interrupt_module_scheme option" where
  "kernel_main_irq_validation env task_a_id task_b_id s =
     (let (result, s) = kernel_commit task_b_id s;
          s = kernel_log_dispatcher_commit_result result s;
          (not_requested_reason, s) = preemption_evaluate_from_irq s;
          s = dispatch_pending_log_state_from_irq not_requested_reason s;
          s = say (\<lambda>s. [''[timer-irq] exit boundary: dispatch-pending=none action=no-dispatch\<newline>'']) s
      in do {
        (r, s) \<leftarrow> dispatch_pending_consume_at_deferred_boundary env s;
        let s = snd (task_mark_ready_from_running task_b_id s);
        let (result, s) = kernel_commit task_a_id s;
        let s = kernel_log_dispatcher_commit_result result s;
        Some (hal_interrupt_enable_timer_entry_validation s)
      })"

subsection \<open>The smokes in order\<close>

text \<open>After the registration of tasks a, b and c: preemption, context switch, yield, cooperative loop.\<close>

definition kernel_main_context_smoke ::
  "'a dispatcher_module_scheme kernel_env \<Rightarrow> int \<Rightarrow> int \<Rightarrow> 'a dispatcher_module_scheme \<Rightarrow>
   'a dispatcher_module_scheme option" where
  "kernel_main_context_smoke env task_b_id task_c_id s =
     (let selected_task = scheduler_select_next s;
          s = kernel_log_scheduler_selection (Some ''after_register'') selected_task s;
          context_next_task = task_get_by_id task_c_id s;
          context_next_task =
            (case (selected_task, context_next_task) of
               (Some selected, Some next) \<Rightarrow>
                 if tid (tcb_at next s) = tid (tcb_at selected s) then task_get_by_id task_b_id s
                 else context_next_task
             | _ \<Rightarrow> context_next_task)
      in case (selected_task, context_next_task) of
           (Some selected, Some next) \<Rightarrow>
             do { (r, s) \<leftarrow> kernel_run_minimal_context_switch_smoke env selected (Some next) s; Some s }
         | _ \<Rightarrow> Some s)"

definition kernel_main_switches ::
  "kernel_image \<Rightarrow> 'a pending_module_scheme kernel_env \<Rightarrow> int \<Rightarrow> int \<Rightarrow> int \<Rightarrow>
   'a pending_module_scheme \<Rightarrow> 'a pending_module_scheme option" where
  "kernel_main_switches img env task_a_id task_b_id task_c_id s =
     do {
       let s = kernel_run_preemption_smoke task_a_id task_b_id s;
       s \<leftarrow> kernel_main_context_smoke env task_b_id task_c_id s;
       (r, s) \<leftarrow> yield_tsk env s;
       let (task_yield_from_id, s) = kernel_register img Task_yield_from ''task_yield_from'' 5 s;
       let (task_yield_to_id, s) = kernel_register img Task_yield_to ''task_yield_to'' 1 s;
       (r, s) \<leftarrow> (if task_yield_from_id > 0 \<and> task_yield_to_id > 0
                  then kernel_run_yield_running_smoke env (task_get_by_id task_yield_from_id s) s
                  else Some (0, s));
       (r, s) \<leftarrow> (if task_a_id > 0
                  then kernel_run_yield_running_smoke env (task_get_by_id task_a_id s) s
                  else Some (0, s));
       kernel_run_cooperative_entries env s
     }"

definition kernel_main_services ::
  "kernel_image \<Rightarrow> 'a pending_module_scheme kernel_env \<Rightarrow> 'a pending_module_scheme \<Rightarrow>
   'a pending_module_scheme option" where
  "kernel_main_services img env s =
     do {
       let (wai_sem_from_id, s) = kernel_register img Task_wai_sem_from ''task_wai_sem_from'' 1 s;
       s \<leftarrow> (if wai_sem_from_id > 0 then kernel_run_semaphore_smoke img env wai_sem_from_id s else Some s);
       let (dly_from_id, s) = kernel_register img Task_dly_from ''task_dly_from'' 5 s;
       let (dly_to_id, s) = kernel_register img Task_dly_to ''task_dly_to'' 1 s;
       s \<leftarrow> (if dly_from_id > 0 \<and> dly_to_id > 0 then kernel_run_delay_smoke env dly_from_id s else Some s);
       let (twai_from_id, s) = kernel_register img Task_twai_from ''task_twai_from'' 5 s;
       let (twai_to_id, s) = kernel_register img Task_twai_to ''task_twai_to'' 0 s;
       s \<leftarrow> (if twai_from_id > 0 \<and> twai_to_id > 0 then kernel_run_twai_sem_smoke env twai_from_id s else Some s);
       let (tick_delay_id, s) = kernel_register img Task_tick_delay ''task_tick_delay'' 1 s;
       let (tick_twai_id, s) = kernel_register img Task_tick_twai ''task_tick_twai'' 0 s;
       let (tick_current_id, s) = kernel_register img Task_tick_current ''task_tick_current'' 5 s;
       let s = (if tick_delay_id > 0 \<and> tick_twai_id > 0 \<and> tick_current_id > 0
                then kernel_run_tick_ready_wakeup_smoke tick_delay_id tick_twai_id tick_current_id s else s);
       s \<leftarrow> kernel_run_create_start_task_api_smoke img env s;
       kernel_run_sleep_wakeup_task_api_smoke img env s
     }"

subsection \<open>The boot sequence\<close>

text \<open>The initialisations of the kernel components, and the timer smoke.\<close>

definition kernel_main_init :: "'a dispatcher_module_scheme \<Rightarrow> 'a dispatcher_module_scheme" where
  "kernel_main_init s =
     (let s = task_init s;
          s = snd (delay_queue_init s);
          s = scheduler_init s;
          s = dispatcher_init s;
          s = kernel_run_timer_smoke s;
          selected_task = scheduler_select_next s
      in kernel_log_scheduler_selection (Some ''before_register'') selected_task s)"

definition kernel_main_tasks ::
  "kernel_build \<Rightarrow> kernel_image \<Rightarrow> 'a interrupt_module_scheme kernel_env \<Rightarrow>
   'a interrupt_module_scheme \<Rightarrow> 'a interrupt_module_scheme option" where
  "kernel_main_tasks build img env s =
     (let s = kernel_main_init s;
          (task_a_id, s) = kernel_register img Task_a ''task_a'' 5 s;
          (task_b_id, s) = kernel_register img Task_b ''task_b'' 1 s;
          (task_c_id, s) = kernel_register img Task_c ''task_c'' 1 s;
          s = task_dump s
      in if ARCH_TIMER_IRQ_ENTRY_VALIDATE build
         then kernel_main_irq_validation env task_a_id task_b_id s
         else do {
           s \<leftarrow> kernel_main_switches img env task_a_id task_b_id task_c_id s;
           kernel_main_services img env s
         })"

definition kernel_main ::
  "kernel_build \<Rightarrow> interrupt_env \<Rightarrow> kernel_image \<Rightarrow> 'a machine_scheme kernel_env \<Rightarrow>
   'a machine_scheme \<Rightarrow> 'a machine_scheme option" where
  "kernel_main build ie img env s =
     (let s = hal_console_init s;
          s = say (\<lambda>s. [''itron-rtos booting...\<newline>'', ''kernel_main reached\<newline>'']) s;
          (result, s) = hal_interrupt_init ie s
      in if result \<noteq> 0 then Some (say (\<lambda>s. [''[kernel] interrupt init failed\<newline>'']) s)
         else let (result, s) = hal_interrupt_controller_init s
         in if result \<noteq> 0 then Some (say (\<lambda>s. [''[kernel] interrupt controller init failed\<newline>'']) s)
         else do {
           s \<leftarrow> (if ARCH_INTERRUPT_VALIDATE_EXCEPTION build
                 then hal_interrupt_trigger_validation_exception s else Some s);
           kernel_main_tasks build img env s
         })"

end
