(* ===== verification/Sample_States.thy ===== *)
theory Sample_States
  imports Tick_Frame
begin

section \<open>Concrete states\<close>

text \<open>
  Small kernel states for the instances of the theorems: the first slots of the tables are
  given as lists, the other slots are free. \<open>sample_ok\<close> can be evaluated on these lists, and
  implies the kernel invariant.
\<close>

definition sample_task ::
  "int \<Rightarrow> int \<Rightarrow> task_state_t \<Rightarrow> int \<Rightarrow> task_wait_reason_t \<Rightarrow> u32 \<Rightarrow> tcb_t" where
  "sample_task k prio st m r d =
     zero_tcb\<lparr>tid := k, tname := Some ''demo'', entry := 4096 + of_int k, priority := prio, tstate := st,
       wait_sem_id := m, wait_reason := r, delay_ticks_remaining := d,
       stack_base := 65536 * of_int k, stack_size := 4096, stack_top := 65536 * of_int k + 4096,
       tcontext := (tcontext zero_tcb)\<lparr>rsp := 65536 * of_int k + 4096\<rparr>\<rparr>"

definition sample_sem :: "int \<times> int \<times> int \<times> int list \<Rightarrow> semaphore_t" where
  "sample_sem p = (case p of (m, c, mx, q) \<Rightarrow>
     \<lparr>sem_ident = m, sem_name = Some ''demo'', sem_count = c, sem_max_count = mx,
      wait_queue = q @ replicate (MAX_TASKS - length q) 0, wait_head = 0,
      wait_tail = length q mod MAX_TASKS, wait_count = length q\<rparr>)"

definition padded_tasks :: "tcb_t list \<Rightarrow> tcb_t list" where
  "padded_tasks ts = ts @ replicate (MAX_TASKS - length ts) zero_tcb"

definition padded_sems :: "(int \<times> int \<times> int \<times> int list) list \<Rightarrow> semaphore_t list" where
  "padded_sems ss = map sample_sem ss @ replicate (MAX_SEMAPHORES - length ss) (sample_sem (0, 0, 0, []))"

definition padded_delays :: "(int \<times> u32) list \<Rightarrow> delay_queue_entry_t list" where
  "padded_delays ds = map (\<lambda>(k, d). \<lparr>dq_task_id = k, dq_remaining = d\<rparr>) ds @
     replicate (MAX_TASKS - length ds) \<lparr>dq_task_id = 0, dq_remaining = 0\<rparr>"

definition sample_state ::
  "tcb_t list \<Rightarrow> (int \<times> int \<times> int \<times> int list) list \<Rightarrow> (int \<times> u32) list \<Rightarrow> nat option \<Rightarrow> pending_module" where
  "sample_state ts ss ds cur =
     \<lparr>con = [], task_table = padded_tasks ts, next_task_id = 1000,
      semaphore_table = padded_sems ss, next_sem_id = 1000,
      delay_queue_entries = padded_delays ds, delay_queue_count = length ds, system_ticks = 0,
      boot_context = tcontext zero_tcb, active_task = None, task_to_task_smoke_from = None,
      task_to_task_smoke_to = None, stack_mem = (\<lambda>a. None), current_task = cur,
      dispatch_pending_state = no_pending\<rparr>"

subsection \<open>Lookups in padded tables\<close>

lemma find_first_index: "map_option (\<lambda>i. xs ! i) (first_index P xs) = List.find P xs"
  by (induction xs) (auto simp: option.map_comp o_def)

lemma first_index_padded:
  "\<not> P y \<Longrightarrow> first_index P (xs @ replicate n y) = first_index P xs"
proof (induction xs)
  case Nil
  then show ?case by auto
qed simp

definition tasks_listed :: "tcb_t list \<Rightarrow> bool" where
  "tasks_listed ts \<longleftrightarrow> length ts \<le> MAX_TASKS \<and> distinct (map tid ts) \<and>
     (\<forall>t \<in> set ts. tcb_used t \<and> 0 < tid t \<and> tid t < 1000 \<and> wait_data_ok t)"

definition sems_listed :: "(int \<times> int \<times> int \<times> int list) list \<Rightarrow> bool" where
  "sems_listed ss \<longleftrightarrow> length ss \<le> MAX_SEMAPHORES \<and> distinct (map fst ss) \<and>
     (\<forall>(m, c, mx, q) \<in> set ss. 0 < m \<and> m < 1000 \<and> 0 \<le> c \<and> c \<le> mx \<and> 0 < mx \<and> mx \<le> INT_MAX \<and>
        distinct q \<and> length q \<le> MAX_TASKS \<and> (q \<noteq> [] \<longrightarrow> c = 0))"

lemma zero_tcb_unused [simp]: "\<not> tcb_used zero_tcb" "tid zero_tcb = 0" "wait_data_ok zero_tcb"
  "tstate zero_tcb = TASK_STATE_UNUSED"
  by (simp_all add: zero_tcb_def tcb_used_def wait_data_ok_def sem_reason_def timed_reason_def)

lemma lookup_padded_tasks:
  assumes "tasks_listed ts"
  shows "lookup_tcb k (padded_tasks ts) = first_index (\<lambda>t. tid t = k) ts"
proof (cases "0 < k")
  case True
  have "lookup_tcb k (padded_tasks ts) = first_index (\<lambda>t. tcb_used t \<and> tid t = k) ts"
    using True by (simp add: tasks.lookup_scan padded_tasks_def first_index_padded)
  also have "\<dots> = first_index (\<lambda>t. tid t = k) ts"
    using assms by (intro first_index_cong) (simp_all add: tasks_listed_def)
  finally show ?thesis .
next
  case False
  then have "first_index (\<lambda>t. tid t = k) ts = None" using assms by (auto simp: tasks_listed_def)
  with False show ?thesis by (simp add: tasks.lookup_nonpos del: first_index_None)
qed

lemma tcb_of_padded:
  assumes "tasks_listed ts"
  shows "tcb_of k (padded_tasks ts) = List.find (\<lambda>t. tid t = k) ts"
proof -
  have "padded_tasks ts ! i = ts ! i" if "first_index (\<lambda>t. tid t = k) ts = Some i" for i
    using first_index_less[OF that] by (simp add: padded_tasks_def nth_append)
  then show ?thesis
    using find_first_index[of ts "\<lambda>t. tid t = k"]
    by (cases "first_index (\<lambda>t. tid t = k) ts") (simp_all add: tcb_of_def lookup_padded_tasks[OF assms])
qed

lemma sample_sem_simps [simp]:
  "sem_ident (sample_sem (m, c, mx, q)) = m" "sem_count (sample_sem (m, c, mx, q)) = c"
  "sem_max_count (sample_sem (m, c, mx, q)) = mx"
  "length q \<le> MAX_TASKS \<Longrightarrow> ring_ok (sample_sem (m, c, mx, q))"
  "length q \<le> MAX_TASKS \<Longrightarrow> waiters (sample_sem (m, c, mx, q)) = q"
proof -
  show "sem_ident (sample_sem (m, c, mx, q)) = m" "sem_count (sample_sem (m, c, mx, q)) = c"
    "sem_max_count (sample_sem (m, c, mx, q)) = mx"
    by (simp_all add: sample_sem_def)
  assume q: "length q \<le> MAX_TASKS"
  show "ring_ok (sample_sem (m, c, mx, q))" using q by (simp add: ring_ok_def sample_sem_def)
  show "waiters (sample_sem (m, c, mx, q)) = q"
    using q by (intro nth_equalityI) (simp_all add: waiters_def sample_sem_def nth_append)
qed

lemma lookup_padded_sems:
  assumes "sems_listed ss"
  shows "lookup_sem k (padded_sems ss) = first_index (\<lambda>p. fst p = k) ss"
proof (cases "0 < k")
  case True
  have "lookup_sem k (padded_sems ss)
      = first_index (\<lambda>e. sem_used e \<and> sem_ident e = k) (map sample_sem ss)"
    using True by (simp add: sems.lookup_scan padded_sems_def first_index_padded sem_used_def)
  also have "\<dots> = first_index (\<lambda>p. fst p = k) ss"
    using True by (intro first_index_cong) (auto simp: sem_used_def sample_sem_def split: prod.split)
  finally show ?thesis .
next
  case False
  then have "first_index (\<lambda>p. fst p = k) ss = None" using assms by (auto simp: sems_listed_def)
  with False show ?thesis by (simp add: sems.lookup_nonpos del: first_index_None)
qed

lemma sem_view_padded:
  assumes "sems_listed ss"
  shows "sem_view m (padded_sems ss) = map_option snd (List.find (\<lambda>p. fst p = m) ss)"
proof (cases "first_index (\<lambda>p. fst p = m) ss")
  case None
  then show ?thesis
    using find_first_index[of ss "\<lambda>p. fst p = m"]
    by (simp add: sem_view_def lookup_padded_sems[OF assms] del: first_index_None)
next
  case (Some i)
  obtain m' c mx q where p: "ss ! i = (m', c, mx, q)" by (metis prod_cases4)
  have i: "i < length ss" using first_index_less[OF Some] .
  then have "length q \<le> MAX_TASKS" using assms p nth_mem[OF i] by (auto simp: sems_listed_def)
  moreover have "padded_sems ss ! i = sample_sem (m', c, mx, q)"
    using i p by (simp add: padded_sems_def nth_append)
  moreover have "List.find (\<lambda>p. fst p = m) ss = Some (m', c, mx, q)"
    using find_first_index[of ss "\<lambda>p. fst p = m"] Some p by simp
  ultimately show ?thesis
    using Some by (simp add: sem_view_def lookup_padded_sems[OF assms])
qed


lemma queue_of_padded:
  "sems_listed ss \<Longrightarrow>
    queue_of m (padded_sems ss) = (case List.find (\<lambda>p. fst p = m) ss of None \<Rightarrow> [] | Some (_, _, _, q) \<Rightarrow> q)"
  by (simp add: sem_view_queue sem_view_padded split: option.split prod.split)

lemma dq_items_padded: "length ds \<le> MAX_TASKS \<Longrightarrow> dq_items (sample_state ts ss ds cur) = ds"
  by (simp add: dq_items_def sample_state_def padded_delays_def dq_pair_def comp_def case_prod_beta)

subsection \<open>A check that implies the invariant\<close>

definition links_listed ::
  "tcb_t list \<Rightarrow> (int \<times> int \<times> int \<times> int list) list \<Rightarrow> (int \<times> u32) list \<Rightarrow> bool" where
  "links_listed ts ss ds \<longleftrightarrow>
     (\<forall>(m, c, mx, q) \<in> set ss. \<forall>k \<in> set q. \<exists>t \<in> set ts. tid t = k \<and> sem_wait t = Some m) \<and>
     (\<forall>(k, d) \<in> set ds. \<exists>t \<in> set ts. tid t = k \<and> timed_wait t = Some d) \<and>
     (\<forall>t \<in> set ts.
        (case sem_wait t of None \<Rightarrow> True
         | Some m \<Rightarrow> \<exists>(m', c, mx, q) \<in> set ss. m' = m \<and> tid t \<in> set q) \<and>
        (case timed_wait t of None \<Rightarrow> True | Some d \<Rightarrow> (tid t, d) \<in> set ds))"

definition sample_ok ::
  "tcb_t list \<Rightarrow> (int \<times> int \<times> int \<times> int list) list \<Rightarrow> (int \<times> u32) list \<Rightarrow> nat option \<Rightarrow> bool" where
  "sample_ok ts ss ds cur \<longleftrightarrow> tasks_listed ts \<and> sems_listed ss \<and>
     length ds \<le> MAX_TASKS \<and> distinct (map fst ds) \<and> links_listed ts ss ds \<and>
     (case cur of None \<Rightarrow> True | Some c \<Rightarrow> c < length ts) \<and>
     list_all (\<lambda>i. tstate (ts ! i) = TASK_STATE_RUNNING \<longrightarrow> cur = Some i) [0..<length ts]"

lemma find_distinct:
  "distinct (map f xs) \<Longrightarrow> List.find (\<lambda>x. f x = k) xs = Some y \<longleftrightarrow> y \<in> set xs \<and> f y = k"
  by (induction xs) auto

lemma unique_ids_padded:
  assumes "distinct (map ident xs)" and "\<not> used y"
  shows "unique_ids used ident (xs @ replicate n y)"
  unfolding unique_ids_def
proof (intro allI impI)
  fix i j
  assume ij: "i < length (xs @ replicate n y)" "j < length (xs @ replicate n y)"
    "used ((xs @ replicate n y) ! i)" "used ((xs @ replicate n y) ! j)"
    and eq: "ident ((xs @ replicate n y) ! i) = ident ((xs @ replicate n y) ! j)"
  have "i < length xs" "j < length xs"
    using ij assms(2) by (auto simp: nth_append split: if_splits)
  with eq assms(1) show "i = j" by (auto simp: nth_append distinct_conv_nth)
qed

lemma sems_ok_padded:
  assumes "sems_listed ss"
  shows "sems_ok (padded_sems ss) 1000"
proof -
  have free: "sem_ok (sample_sem (0, 0, 0, []))" "\<not> sem_used (sample_sem (0, 0, 0, []))"
    by (simp_all add: sem_ok_def sem_used_def)
  have "sem_ok (sample_sem p) \<and> sem_used (sample_sem p) \<and> sem_ident (sample_sem p) < 1000" if "p \<in> set ss" for p
    using assms that by (auto simp: sems_listed_def sem_ok_def sem_used_def simp del: waiters_nil)
  moreover have "map sem_ident (map sample_sem ss) = map fst ss" by (auto simp: sample_sem_def)
  then have "unique_ids sem_used sem_ident (padded_sems ss)"
    unfolding padded_sems_def using assms free by (intro unique_ids_padded) (simp_all only: sems_listed_def, simp)
  ultimately show ?thesis
    using assms free by (auto simp: sems_ok_def padded_sems_def sems_listed_def)
qed

lemma link_ok_padded:
  assumes t: "tasks_listed ts" and sl: "sems_listed ss" and d: "length ds \<le> MAX_TASKS" "distinct (map fst ds)"
    and link: "links_listed ts ss ds"
  shows "link_ok k (sample_state ts ss ds cur)"
proof -
  have dt: "distinct (map tid ts)" and ds: "distinct (map fst ss)"
    using t sl by (simp_all add: tasks_listed_def sems_listed_def)
  have w: "wait_of k (padded_tasks ts) = Some m \<longleftrightarrow> (\<exists>t \<in> set ts. tid t = k \<and> sem_wait t = Some m)" for m
    using find_distinct[OF dt] by (auto simp: wait_of_def tcb_of_padded[OF t] bind_eq_Some_conv)
  have dl: "delay_of k (padded_tasks ts) = Some e \<longleftrightarrow> (\<exists>t \<in> set ts. tid t = k \<and> timed_wait t = Some e)" for e
    using find_distinct[OF dt] by (auto simp: delay_of_def tcb_of_padded[OF t] bind_eq_Some_conv)
  have q: "k \<in> set (queue_of m (padded_sems ss)) \<longleftrightarrow> (\<exists>c mx q. (m, c, mx, q) \<in> set ss \<and> k \<in> set q)" for m
  proof (cases "List.find (\<lambda>p. fst p = m) ss")
    case None
    then have "\<forall>p \<in> set ss. fst p \<noteq> m" unfolding find_None_iff by blast
    then have "(m, p) \<notin> set ss" for p by auto
    with None show ?thesis by (simp add: queue_of_padded[OF sl])
  next
    case (Some p)
    then have only: "p' \<in> set ss \<and> fst p' = m \<longleftrightarrow> p' = p" for p' using find_distinct[OF ds, of m p'] by auto
    obtain m' c' mx' q' where p: "p = (m', c', mx', q')" by (metis prod_cases4)
    have "m' = m" using only[of p] p by simp
    moreover have "(m, c, mx, q) \<in> set ss \<longleftrightarrow> c = c' \<and> mx = mx' \<and> q = q'" for c mx q
      using only[of "(m, c, mx, q)"] p calculation by simp
    ultimately show ?thesis using Some p by (simp add: queue_of_padded[OF sl])
  qed
  have l: "(m, c, mx, q) \<in> set ss \<Longrightarrow> k' \<in> set q \<Longrightarrow> \<exists>t \<in> set ts. tid t = k' \<and> sem_wait t = Some m"
    "(k', e) \<in> set ds \<Longrightarrow> \<exists>t \<in> set ts. tid t = k' \<and> timed_wait t = Some e"
    "t \<in> set ts \<Longrightarrow> sem_wait t = Some m \<Longrightarrow> \<exists>c mx q. (m, c, mx, q) \<in> set ss \<and> tid t \<in> set q"
    "t \<in> set ts \<Longrightarrow> timed_wait t = Some e \<Longrightarrow> (tid t, e) \<in> set ds" for m c mx q k' e t
    using link[unfolded links_listed_def] by fastforce+
  show ?thesis
    unfolding link_ok_def dq_items_padded[OF d(1)]
    using l by (fastforce simp: sample_state_def w dl q)
qed

lemma kernel_inv_sample:
  assumes "sample_ok ts ss ds cur"
  shows "kernel_inv (sample_state ts ss ds cur)"
proof -
  let ?s = "sample_state ts ss ds cur"
  have t: "tasks_listed ts" and sl: "sems_listed ss" and d: "length ds \<le> MAX_TASKS" "distinct (map fst ds)"
    and link: "links_listed ts ss ds" and cur: "\<And>c. cur = Some c \<Longrightarrow> c < length ts"
    and run: "\<And>i. i < length ts \<Longrightarrow> tstate (ts ! i) = TASK_STATE_RUNNING \<Longrightarrow> cur = Some i"
    using assms by (auto simp: sample_ok_def list_all_iff)
  have fields: "task_table ?s = padded_tasks ts" "semaphore_table ?s = padded_sems ss" "current_task ?s = cur"
    "next_task_id ?s = 1000" "next_sem_id ?s = 1000" "delay_queue_entries ?s = padded_delays ds"
    "delay_queue_count ?s = length ds"
    by (simp_all add: sample_state_def)
  have "tasks_inv ?s"
    using t unique_ids_padded[of tid ts tcb_used zero_tcb]
    by (auto simp: tasks_inv_def tasks_ok_def fields padded_tasks_def tasks_listed_def)
  moreover have "sems_inv ?s"
    using sems_ok_padded[OF sl] by (simp add: sems_inv_def fields)
  moreover have "dq_ok ?s"
    using d by (simp add: dq_ok_def dq_items_padded fields padded_delays_def)
  moreover have "link_ok k ?s" for k
    by (rule link_ok_padded[OF t sl d link])
  moreover have "run_ok (padded_tasks ts) cur"
    unfolding run_ok_def
  proof (intro conjI allI impI)
    fix i
    assume "i < length (padded_tasks ts)" "tstate (padded_tasks ts ! i) = TASK_STATE_RUNNING"
    then show "Some i = cur" using run[of i] by (auto simp: padded_tasks_def nth_append split: if_splits)
  next
    have "tcb_used (ts ! c)" if "c < length ts" for c
      using t nth_mem[OF that] by (auto simp: tasks_listed_def)
    then show "case cur of None \<Rightarrow> True | Some c \<Rightarrow> c < length (padded_tasks ts) \<and> tcb_used (padded_tasks ts ! c)"
      using cur by (auto simp: padded_tasks_def nth_append split: option.split)
  qed
  ultimately show ?thesis by (simp add: kernel_inv_def wait_inv_def fields)
qed


subsection \<open>The samples\<close>

text \<open>
  Task 1 is RUNNING at priority 5. Tasks 2, 3 and 4 wait for semaphore 1, in this order, task 3
  with two ticks left; task 5 sleeps; task 6 has one tick of delay left; task 7 is READY with the
  priority of task 1, task 8 with a worse one; task 9 is DORMANT. Semaphore 2 has one count of two.
\<close>

definition sample_tasks :: "tcb_t list" where
  "sample_tasks =
     [sample_task 1 5 TASK_STATE_RUNNING 0 TASK_WAIT_REASON_NONE 0,
      sample_task 2 3 TASK_STATE_WAITING 1 TASK_WAIT_REASON_SEMAPHORE 0,
      sample_task 3 4 TASK_STATE_WAITING 1 TASK_WAIT_REASON_SEMAPHORE_TIMEOUT 2,
      sample_task 4 4 TASK_STATE_WAITING 1 TASK_WAIT_REASON_SEMAPHORE 0,
      sample_task 5 2 TASK_STATE_WAITING 0 TASK_WAIT_REASON_SLEEP 0,
      sample_task 6 6 TASK_STATE_WAITING 0 TASK_WAIT_REASON_DELAY 1,
      sample_task 7 5 TASK_STATE_READY 0 TASK_WAIT_REASON_NONE 0,
      sample_task 8 9 TASK_STATE_READY 0 TASK_WAIT_REASON_NONE 0,
      sample_task 9 1 TASK_STATE_DORMANT 0 TASK_WAIT_REASON_NONE 0]"

definition sample_sems :: "(int \<times> int \<times> int \<times> int list) list" where
  "sample_sems = [(1, 0, 1, [2, 3, 4]), (2, 1, 2, [])]"

definition busy :: pending_module where
  "busy = sample_state sample_tasks sample_sems [(3, 2), (6, 1)] (Some 0)"

lemma busy_inv: "kernel_inv busy"
  unfolding busy_def by (rule kernel_inv_sample) code_simp

lemma sample_listed: "tasks_listed sample_tasks" "sems_listed sample_sems"
  by code_simp+

lemma busy_views:
  "sem_view 1 (semaphore_table busy) = Some (0, 1, [2, 3, 4])"
  "sem_view 2 (semaphore_table busy) = Some (1, 2, [])"
  "sem_view 3 (semaphore_table busy) = None"
  "dq_items busy = [(3, 2), (6, 1)]" "current_task busy = Some 0"
proof -
  have s: "semaphore_table busy = padded_sems sample_sems" by (simp add: busy_def sample_state_def)
  show "sem_view 1 (semaphore_table busy) = Some (0, 1, [2, 3, 4])"
    "sem_view 2 (semaphore_table busy) = Some (1, 2, [])"
    "sem_view 3 (semaphore_table busy) = None"
    unfolding s sem_view_padded[OF sample_listed(2)] by (simp_all add: sample_sems_def)
  show "dq_items busy = [(3, 2), (6, 1)]" by (simp add: busy_def dq_items_padded)
  show "current_task busy = Some 0" by (simp add: busy_def sample_state_def)
qed

lemma busy_lookup:
  "task_table busy = padded_tasks sample_tasks"
  "lookup_tcb k (task_table busy) = first_index (\<lambda>t. tid t = k) sample_tasks"
proof -
  show t: "task_table busy = padded_tasks sample_tasks" by (simp add: busy_def sample_state_def)
  show "lookup_tcb k (task_table busy) = first_index (\<lambda>t. tid t = k) sample_tasks"
    unfolding t by (rule lookup_padded_tasks[OF sample_listed(1)])
qed

lemma busy_tcb: "i < 9 \<Longrightarrow> task_table busy ! i = sample_tasks ! i"
proof -
  have "length sample_tasks = 9" by (simp add: sample_tasks_def)
  then show "i < 9 \<Longrightarrow> task_table busy ! i = sample_tasks ! i"
    by (simp add: busy_lookup(1) padded_tasks_def nth_append)
qed

lemma busy_running: "tstate (tcb_at 0 busy) = TASK_STATE_RUNNING"
  by (simp add: tcb_at_def busy_tcb sample_tasks_def sample_task_def)

end
