(* ===== verification/Boot_Inv.thy ===== *)
theory Boot_Inv
  imports System Boot Sample_States
begin

section \<open>The entries of \<open>kernel.c\<close> meet the contract; boot establishes the invariant\<close>

text \<open>
  \<open>boot_env\<close> is the environment in which the code at an entry address is one of the entries of
  \<open>kernel.c\<close>: \<open>placed a\<close> is the entry at address \<open>a\<close> (its value at an address of no entry does not
  matter, for the kernel calls registered entries only). These entries only print, so they
  satisfy \<open>entry_contract\<close>, and every service returns in this environment.
\<close>

subsection \<open>The environment of the boot image\<close>

definition boot_env ::
  "(u64 \<Rightarrow> kernel_entry) \<Rightarrow> u64 \<Rightarrow> u64 \<Rightarrow> (switch_site \<Rightarrow> 'a console_scheme \<Rightarrow> task_context_t) \<Rightarrow>
   'a console_scheme kernel_env" where
  "boot_env placed tramp base live =
     \<lparr>entry_body = (\<lambda>a s. Some (kernel_entry_run (placed a) s)), trampoline_address = tramp,
      tcb_base = base, live_context = live\<rparr>"

lemma boot_env_entry [simp]: "entry_body (boot_env placed tramp base live) a s = Some (kernel_entry_run (placed a) s)"
  by (simp add: boot_env_def)

interpretation boot_entries: entry_contract "boot_env placed tramp base live"
  for placed tramp base live
  by unfold_locales (simp add: kernel_entry_run_def switch_frame_say)

lemma boot_env_contract: "entry_contract (boot_env placed tramp base live)"
  by (rule boot_entries.entry_contract_axioms)

subsection \<open>Initialisation\<close>

text \<open>The static variables as the C start-up leaves them: zero, but for the two id counters.\<close>

definition zero_sem :: semaphore_t where
  "zero_sem = \<lparr>sem_ident = 0, sem_name = None, sem_count = 0, sem_max_count = 0,
     wait_queue = replicate MAX_TASKS 0, wait_head = 0, wait_tail = 0, wait_count = 0\<rparr>"

definition static_state :: "'a dispatcher_module_scheme \<Rightarrow> bool" where
  "static_state s \<longleftrightarrow> task_table s = replicate MAX_TASKS zero_tcb \<and> next_task_id s = 1 \<and>
     semaphore_table s = replicate MAX_SEMAPHORES zero_sem \<and> next_sem_id s = 1 \<and>
     delay_queue_entries s = replicate MAX_TASKS \<lparr>dq_task_id = 0, dq_remaining = 0\<rparr> \<and>
     delay_queue_count s = 0 \<and> task_to_task_smoke_from s = None \<and> current_task s = None"

lemma sems_ok_zero: "sems_ok (replicate MAX_SEMAPHORES zero_sem) 1"
  by (auto simp: sems_ok_def unique_ids_def sem_used_def zero_sem_def sem_ok_def ring_ok_def waiters_def)

lemma no_tasks:
  "lookup_tcb k (replicate n zero_tcb) = None" "queue_of m (replicate l zero_sem) = []"
proof -
  show "lookup_tcb k (replicate n zero_tcb) = None"
    by (cases "0 < k") (simp_all add: tasks.lookup_scan tasks.lookup_nonpos)
  have "lookup_sem m (replicate l zero_sem) = None"
    by (cases "0 < m") (simp_all add: sems.lookup_scan sems.lookup_nonpos sem_used_def zero_sem_def)
  then show "queue_of m (replicate l zero_sem) = []" by (simp add: queue_of_def)
qed

lemma os_inv_empty:
  assumes "task_table s = replicate MAX_TASKS zero_tcb" and "next_task_id s = 1"
    and "semaphore_table s = replicate MAX_SEMAPHORES zero_sem" and "next_sem_id s = 1"
    and "length (delay_queue_entries s) = MAX_TASKS" and "delay_queue_count s = 0"
    and "task_to_task_smoke_from s = None" and "current_task s = None"
  shows "os_inv s"
proof -
  have "tasks_inv s"
    using assms by (auto simp: tasks_inv_def tasks_ok_def unique_ids_def)
  moreover have "dq_items s = []" using assms(6) by (simp add: dq_items_def)
  then have "dq_ok s" "link_ok k s" for k
    using assms by (simp_all add: dq_ok_def link_ok_def no_tasks wait_of_def delay_of_def tcb_of_def)
  moreover have "run_ok (task_table s) (current_task s)" using assms by (simp add: run_ok_def)
  ultimately show ?thesis
    using assms sems_ok_zero
    by (simp add: os_inv_def sys_inv_def kernel_inv_def wait_inv_def sems_inv_def entries_ok_def no_reservation_def)
qed

lemma os_inv_timer_smoke:
  fixes s :: "'a pending_module_scheme"
  assumes "os_inv s"
  shows "os_inv (kernel_run_timer_smoke s)"
proof -
  have "os_inv (s'\<lparr>system_ticks := t\<rparr>) = os_inv s'" for s' :: "'a pending_module_scheme" and t
    by (rule os_inv_core) (simp_all add: core_def)
  with assms show ?thesis
    by (simp add: kernel_run_timer_smoke_def timer_init_def os_inv_timer_tick Let_def)
qed

text \<open>The state after the four calls that clear the tables.\<close>

abbreviation cleared :: "'a dispatcher_module_scheme \<Rightarrow> 'a dispatcher_module_scheme" where
  "cleared s \<equiv> dispatcher_init (scheduler_init (snd (delay_queue_init (task_init s))))"

lemma cleared_state:
  fixes s :: "'a pending_module_scheme"
  assumes "static_state s"
  shows "os_inv (cleared s)" and "current_task (cleared s) = None"
    and "task_table (cleared s) = replicate MAX_TASKS zero_tcb"
    and "semaphore_table (cleared s) = replicate MAX_SEMAPHORES zero_sem"
    and "dispatch_pending_state (cleared s) = dispatch_pending_state s"
proof -
  note init = static_state_def dispatcher_init_def scheduler_init_def delay_queue_init_def task_init_def
    cleared_tcb_zero Let_def say_def writes_def
  show "os_inv (cleared s)" using assms by (intro os_inv_empty) (simp_all add: init)
  show "current_task (cleared s) = None" "task_table (cleared s) = replicate MAX_TASKS zero_tcb"
    "semaphore_table (cleared s) = replicate MAX_SEMAPHORES zero_sem"
    "dispatch_pending_state (cleared s) = dispatch_pending_state s"
    using assms by (simp_all add: init)
qed

theorem kernel_main_init_inv:
  fixes s :: "'a pending_module_scheme"
  assumes "static_state s"
  shows "os_inv (kernel_main_init s)"
proof -
  define s1 where "s1 = cleared s"
  have "os_inv s1" unfolding s1_def by (rule cleared_state(1)[OF assms])
  then have "os_inv (kernel_run_timer_smoke s1)" by (rule os_inv_timer_smoke)
  then show ?thesis
    by (simp add: kernel_main_init_def s1_def[symmetric] kernel_log_scheduler_selection_def Let_def split: option.split)
qed

subsection \<open>The cooperative loop\<close>

text \<open>No task is RUNNING.\<close>

definition idle :: "'a dispatcher_module_scheme \<Rightarrow> bool" where
  "idle s \<longleftrightarrow> (\<forall>t \<in> set (task_table s). tstate t \<noteq> TASK_STATE_RUNNING)"

lemma idle_say [simp]: "idle (say f s) = idle s"
  by (simp add: idle_def)

lemma os_inv_boot_logs [simp]:
  "os_inv (kernel_log_scheduler_selection l t s) = os_inv s"
  "os_inv (kernel_log_dispatcher_commit_result r s) = os_inv s"
  "os_inv (kernel_log_cooperative_stop c s) = os_inv s"
  "os_inv (kernel_log_cooperative_iteration n s) = os_inv s"
  "os_inv (kernel_log_entry_skip c t s) = os_inv s"
  "os_inv (kernel_log_ready_recandidacy t r s) = os_inv s"
  by (simp_all add: kernel_log_scheduler_selection_def kernel_log_dispatcher_commit_result_def
      kernel_log_cooperative_stop_def kernel_log_cooperative_iteration_def kernel_log_entry_skip_def
      kernel_log_ready_recandidacy_def Let_def split: option.split)

lemma idle_boot_logs [simp]:
  "idle (kernel_log_ready_recandidacy t r s) = idle s"
  "idle (kernel_log_cooperative_iteration n s) = idle s"
  "idle (kernel_log_scheduler_selection l u s) = idle s"
  by (simp_all add: kernel_log_ready_recandidacy_def kernel_log_cooperative_iteration_def
      kernel_log_scheduler_selection_def Let_def split: option.split)

lemma scheduler_boot_logs [simp]:
  "scheduler_select_next (kernel_log_cooperative_iteration n s) = scheduler_select_next s"
  "scheduler_select_next (kernel_log_scheduler_selection l u s) = scheduler_select_next s"
  by (simp_all add: kernel_log_cooperative_iteration_def kernel_log_scheduler_selection_def split: option.split)

lemma run_ok_unique:
  assumes "run_ok tt cur" and "i < length tt" and "j < length tt"
    and "tstate (tt ! i) = TASK_STATE_RUNNING" and "tstate (tt ! j) = TASK_STATE_RUNNING"
  shows "i = j"
proof -
  have "Some i = cur" "Some j = cur" using assms unfolding run_ok_def by blast+
  then show ?thesis by auto
qed

lemma idle_mark_ready:
  assumes "os_inv s" and "fst (task_mark_ready_from_running k s) = 0"
  shows "idle (snd (task_mark_ready_from_running k s))"
proof -
  obtain i where i: "scan_task_id k (task_table s) = Some i" "tstate (tcb_at i s) = TASK_STATE_RUNNING"
    and step: "task_mark_ready_from_running k s = (0, upd_tcb i (tcb_enter TASK_STATE_READY 0 TASK_WAIT_REASON_NONE 0) s)"
    using assms(2) by (auto simp: task_mark_ready_from_running_def Let_def split: option.splits if_splits)
  note slot = first_index_less[OF i(1)[unfolded scan_task_id_def]]
  let ?t = "tcb_enter TASK_STATE_READY 0 TASK_WAIT_REASON_NONE 0 (task_table s ! i)"
  have "tstate ((task_table s)[i := ?t] ! j) \<noteq> TASK_STATE_RUNNING" if "j < length (task_table s)" for j
    using run_ok_unique[OF kernel_invD(2)[OF os_invD(2)[OF assms(1)]] slot that] i(2) slot
    by (cases "j = i") (auto simp: tcb_at_def nth_update_eq_if tcb_enter_def)
  then show ?thesis
    unfolding step by (auto simp: idle_def task_table_upd_tcb in_set_conv_nth)
qed

lemma system_ticks_say: "system_ticks (say f s) = system_ticks s"
  by (simp add: say_def writes_def)

lemma timer_smoke_fields:
  fixes s :: "'a pending_module_scheme"
  assumes "kernel_inv s"
  shows "current_task (kernel_run_timer_smoke s) = current_task s" and "system_ticks (kernel_run_timer_smoke s) = 3"
proof -
  let ?s = "say (\<lambda>s. [''[timer] init: tick='', ulong_str (system_ticks s), ''\<newline>''])
      ((say (\<lambda>s. [''[timer-smoke] begin\<newline>'']) s)\<lparr>system_ticks := 0\<rparr>)"
  have s: "kernel_inv ?s" "current_task ?s = current_task s" "system_ticks ?s = 0"
    using assms kernel_inv_core[of ?s s] core_eqD(7)[of ?s s]
    by (simp_all add: core_def) (simp_all add: say_def writes_def)
  note tick = timer_tick_refines(1,2,6)
  note t1 = tick[OF s(1)]
  note t2 = tick[OF t1(1)]
  note t3 = tick[OF t2(1)]
  have "kernel_run_timer_smoke s = say (\<lambda>s'. [''[timer-smoke] current tick='',
      ulong_str (timer_get_ticks (timer_tick (timer_tick (timer_tick ?s)))), ''\<newline>'', ''[timer-smoke] end\<newline>''])
      (timer_tick (timer_tick (timer_tick ?s)))"
    by (simp only: kernel_run_timer_smoke_def timer_init_def Let_def)
  with t1 t2 t3 s show "current_task (kernel_run_timer_smoke s) = current_task s"
    "system_ticks (kernel_run_timer_smoke s) = 3"
    by (simp_all add: system_ticks_say)
qed

lemma kernel_main_init_fields:
  fixes s :: "'a pending_module_scheme"
  assumes "static_state s"
  shows "current_task (kernel_main_init s) = None" and "system_ticks (kernel_main_init s) = 3"
    and "idle (kernel_main_init s)"
proof -
  define s1 where "s1 = cleared s"
  have s1: "os_inv s1" "current_task s1 = None" unfolding s1_def by (rule cleared_state[OF assms])+
  then show cur: "current_task (kernel_main_init s) = None" "system_ticks (kernel_main_init s) = 3"
    using timer_smoke_fields[OF os_invD(2)[OF s1(1)]] s1(2)
    by (simp_all add: kernel_main_init_def s1_def[symmetric] kernel_log_scheduler_selection_def Let_def
        system_ticks_say split: option.split)
  have "run_ok (task_table (kernel_main_init s)) None"
    using kernel_invD(2)[OF os_invD(2)[OF kernel_main_init_inv[OF assms]]] cur(1) by simp
  then show "idle (kernel_main_init s)" by (auto simp: run_ok_def idle_def in_set_conv_nth)
qed

context entry_contract
begin

lemma cooperative_iteration_returns:
  assumes inv: "os_inv s" and idle: "idle s"
  shows "\<exists>b s'. kernel_cooperative_iteration env n s = Some (b, s') \<and> os_inv s' \<and> (b \<longrightarrow> idle s')"
proof (cases "scheduler_select_next s")
  case None
  with inv show ?thesis by (auto simp: kernel_cooperative_iteration_def Let_def)
next
  case (Some i)
  define s1 where "s1 = kernel_log_scheduler_selection (Some ''cooperative'') (Some i)
      (kernel_log_cooperative_iteration n s)"
  have s1: "os_inv s1" "idle s1" "scheduler_select_next s1 = Some i"
    using inv idle Some by (simp_all add: s1_def)
  note i = select_next_ready[OF s1(1,3)]
  have ready: "tstate (task_table s1 ! i) = TASK_STATE_READY" using i(2) by (simp add: tcb_at_def)
  define s2 where "s2 = snd (dispatcher_commit_current (Some i) s1)"
  have no_running: "tstate (tcb_at j s1) \<noteq> TASK_STATE_RUNNING" if "current_task s1 = Some j" for j
    using s1(2) os_inv_current(1)[OF s1(1) that] os_invD(3)[OF s1(1)] by (simp add: idle_def tcb_at_def)
  have s2: "os_inv s2" "dispatcher_commit_current (Some i) s1 = (DISPATCHER_OK, s2)" "current_task s2 = Some i"
    "tstate (tcb_at i s2) = TASK_STATE_RUNNING"
    using os_inv_commit_current[OF s1(1) i(3) no_running] commit_current_spec[OF i(3) ready]
      i(1) os_invD(3)[OF s1(1)]
    by (simp_all add: s2_def tcb_at_def task_table_upd_tcb tcb_enter_def)
  define s3 where "s3 = kernel_log_entry_call i (kernel_log_dispatcher_commit_result DISPATCHER_OK s2)"
  have s3: "os_inv s3" "tcb_at i s3 = tcb_at i s2" using s2(1,3)
    by (simp_all add: s3_def kernel_log_entry_call_def kernel_log_dispatcher_commit_result_def dispatcher_get_current_def)
  have e: "entry (tcb_at i s2) \<noteq> 0"
    using entries_ok_nth[OF os_inv_entries[OF s2(1)]] os_inv_current(1,2)[OF s2(1,3)] os_invD(3)[OF s2(1)]
    by (simp add: tcb_at_def)
  obtain s4 where s4: "entry_body env (entry (tcb_at i s3)) s3 = Some s4" "sys_inv s4" "switch_frame s3 s4"
    using entry_returns[OF os_invD(1)[OF s3(1)]] e s3(2) by metis
  have inv4: "os_inv s4"
    using s4(2,3) os_invD(4)[OF s3(1)] by (simp add: os_inv_def no_reservation_def switch_frame_def)
  define s5 where "s5 = kernel_log_cooperative_return i (kernel_log_entry_return i s4)"
  have s5: "os_inv s5" using inv4 by (simp add: s5_def kernel_log_cooperative_return_def kernel_log_entry_return_def)
  obtain r s6 where s6: "task_mark_ready_from_running (tid (tcb_at i s5)) s5 = (r, s6)" by fastforce
  have inv6: "os_inv s6" "r = 0 \<Longrightarrow> idle s6"
    using os_inv_mark_ready[OF s5, of "tid (tcb_at i s5)"] idle_mark_ready[OF s5, of "tid (tcb_at i s5)"] s6
    by simp_all
  have fields: "dispatcher_get_current (kernel_log_dispatcher_commit_result DISPATCHER_OK s2) = Some i"
    "tcb_at i (kernel_log_dispatcher_commit_result DISPATCHER_OK s2) = tcb_at i s2"
    using s2(3) by (simp_all add: kernel_log_dispatcher_commit_result_def dispatcher_get_current_def)
  have "kernel_cooperative_iteration env n s =
    (if r \<noteq> 0 then Some (False, kernel_log_cooperative_stop (Some ''ready-recandidate-failed'')
                   (kernel_log_ready_recandidacy (Some i) r s6))
     else Some (True, kernel_log_ready_recandidacy (Some i) r s6))"
    using Some s2(2,4) s4(1) s6 e fields
    by (simp add: kernel_cooperative_iteration_def s1_def[symmetric] s3_def[symmetric] s5_def[symmetric] Let_def)
  with inv6 show ?thesis by auto
qed

lemma cooperative_loop_returns:
  "os_inv s \<Longrightarrow> idle s \<Longrightarrow> \<exists>s'. kernel_cooperative_loop env k n s = Some s' \<and> os_inv s'"
proof (induction k arbitrary: n s)
  case 0
  then show ?case by simp
next
  case (Suc k)
  obtain b s1 where s1: "kernel_cooperative_iteration env n s = Some (b, s1)" "os_inv s1" "b \<longrightarrow> idle s1"
    using cooperative_iteration_returns[OF Suc.prems] by blast
  with Suc.IH[of s1 "n + 1"] show ?case by (cases b) simp_all
qed

end

subsection \<open>Whole-machine samples\<close>

text \<open>A kernel state with the hardware around it, and an environment of \<open>kernel.c\<close>'s entries.\<close>

definition machine_of :: "pending_module \<Rightarrow> interrupt_module" where
  "machine_of s =
     \<lparr>con = con s, task_table = task_table s, next_task_id = next_task_id s,
      semaphore_table = semaphore_table s, next_sem_id = next_sem_id s,
      delay_queue_entries = delay_queue_entries s, delay_queue_count = delay_queue_count s,
      system_ticks = system_ticks s, boot_context = boot_context s, active_task = active_task s,
      task_to_task_smoke_from = task_to_task_smoke_from s, task_to_task_smoke_to = task_to_task_smoke_to s,
      stack_mem = stack_mem s, current_task = current_task s,
      dispatch_pending_state = dispatch_pending_state s, port_writes = [], pic_master_mask = 0xFF,
      pic_slave_mask = 0xFF, arch_idt = replicate ARCH_IDT_ENTRY_COUNT zero_idt_entry,
      arch_interrupt_initialized = False, idtr = None, interrupt_flag = False\<rparr>"

definition demo_env :: "'a console_scheme kernel_env" where
  "demo_env = boot_env (\<lambda>a. Task_a) 4194304 8388608 (\<lambda>site s. tcontext zero_tcb)"

lemma demo_env_contract: "entry_contract demo_env"
  by (simp add: demo_env_def boot_env_contract)

lemma machine_fields [simp]:
  "task_table (machine_of s) = task_table s" "semaphore_table (machine_of s) = semaphore_table s"
  "current_task (machine_of s) = current_task s" "core (machine_of s) = core s"
  "dq_items (machine_of s) = dq_items s" "tcb_at i (machine_of s) = tcb_at i s"
  "dispatch_pending_state (machine_of s) = dispatch_pending_state s" "port_writes (machine_of s) = []"
  "task_to_task_smoke_from (machine_of s) = task_to_task_smoke_from s"
  "find_semaphore_by_id m (machine_of s) = find_semaphore_by_id m s" "sem_at j (machine_of s) = sem_at j s"
  by (simp_all add: machine_of_def core_def dq_items_def tcb_at_def find_semaphore_by_id_def sem_at_def)

lemma os_inv_machine [simp]: "os_inv (machine_of s) = os_inv s"
  using kernel_inv_core[of "machine_of s" s] by (simp add: os_inv_def sys_inv_def no_reservation_def)

lemma os_inv_sample:
  assumes "sample_ok ts ss ds cur" and "list_all (\<lambda>t. entry t \<noteq> 0) ts"
  shows "os_inv (sample_state ts ss ds cur)"
proof -
  have "entries_ok (padded_tasks ts)"
    using assms(2) by (auto simp: entries_ok_def padded_tasks_def list_all_iff)
  with kernel_inv_sample[OF assms(1)] show ?thesis
    by (simp add: os_inv_def sys_inv_def no_reservation_def) (simp add: sample_state_def)
qed

lemma busy_os_inv: "os_inv busy"
  unfolding busy_def by (rule os_inv_sample) (code_simp)+

text \<open>The static variables of a machine that has been switched on.\<close>

definition power_on :: interrupt_module where
  "power_on = (machine_of (sample_state [] [] [] None))\<lparr>next_task_id := 1, next_sem_id := 1,
     semaphore_table := replicate MAX_SEMAPHORES zero_sem\<rparr>"

lemma power_on_static: "static_state power_on"
  by (simp add: power_on_def machine_of_def static_state_def sample_state_def padded_tasks_def padded_delays_def)

end
