(* ===== verification/Semaphore_Props.thy ===== *)
theory Semaphore_Props
  imports Boot_Inv
begin

section \<open>Properties of the semaphore services\<close>

text \<open>
  The services on the abstract semaphore \<open>sem_view\<close> (count, limit, waiting ids): \<open>signal_spec\<close> for
  \<open>sig_sem\<close>, \<open>poll_spec\<close> for \<open>pol_sem\<close>, \<open>wait_spec\<close> for \<open>wai_sem\<close> and \<open>twai_sem\<close>, and the order in
  which signals wake the waiters.
\<close>

subsection \<open>Taking a count\<close>

text \<open>The contract of a poll: the result code and the semaphore after it.\<close>

fun poll_spec :: "int \<times> int \<times> int list \<Rightarrow> int \<times> (int \<times> int \<times> int list)" where
  "poll_spec (c, mx, q) = (if 0 < c then (E_OK, (c - 1, mx, q)) else (E_TMOUT, (c, mx, q)))"

lemma sem_view_take:
  assumes "os_inv s" and "sem_view m (semaphore_table s) = Some (c, mx, q)"
  shows "\<exists>s'. sem_take_if_available m s
      = ((if 0 < c then SEM_OK else SEM_WAIT_REQUIRED, Some c, Some (if 0 < c then c - 1 else c)), s') \<and>
    os_inv s' \<and> task_table s' = task_table s \<and> dq_items s' = dq_items s \<and> current_task s' = current_task s \<and>
    dispatch_pending_state s' = dispatch_pending_state s \<and>
    (\<forall>m'. sem_view m' (semaphore_table s')
       = (if m' = m \<and> 0 < c then Some (c - 1, mx, q) else sem_view m' (semaphore_table s)))"
proof -
  obtain j where lookup: "lookup_sem m (semaphore_table s) = Some j"
    and sem: "sem_count (semaphore_table s ! j) = c" "sem_max_count (semaphore_table s ! j) = mx"
      "waiters (semaphore_table s ! j) = q"
    using assms(2) by (auto simp: sem_view_def)
  then have m: "find_semaphore_by_id m s = Some j" by (simp add: find_semaphore_by_id_def)
  have at: "sem_at j s = semaphore_table s ! j" by (simp add: sem_at_def)
  show ?thesis
  proof (cases "0 < c")
    case False
    with m sem at assms(1) show ?thesis by (simp add: sem_take_if_available_def)
  next
    case True
    let ?sem = "(semaphore_table s ! j)\<lparr>sem_count := c - 1\<rparr>"
    let ?s' = "upd_sem j (\<lambda>sem. sem\<lparr>sem_count := sem_count sem - 1\<rparr>) s"
    have j: "j < length (semaphore_table s)" by (rule sems.lookup_SomeD(1)[OF lookup])
    have st: "semaphore_table ?s' = (semaphore_table s)[j := ?sem]"
      using sem by (simp add: semaphore_table_upd_sem)
    have take: "sem_take_if_available m s = ((SEM_OK, Some c, Some (c - 1)), ?s')"
      using m sem at True j
      by (simp add: sem_take_if_available_def Let_def) (simp add: sem_at_def semaphore_table_upd_sem)
    have "sem_ident ?sem = m" using find_semaphore_SomeD(3)[OF m] at by simp
    moreover have "waiters ?sem = q" using sem by (simp add: waiters_def)
    ultimately have "sem_view m' (semaphore_table ?s')
        = (if m' = m then Some (c - 1, mx, q) else sem_view m' (semaphore_table s))" for m'
      using sem_view_update[OF lookup, of ?sem m'] sem by (simp add: st)
    moreover have "os_inv ?s'" using os_inv_take[OF assms(1), of m] take by simp
    ultimately show ?thesis using take True by simp
  qed
qed

lemma running_not_none:
  "current_task s = Some c \<Longrightarrow> dispatcher_get_current (say f s) = Some c"
  by (simp add: dispatcher_get_current_def)

lemma sem_poll_takes:
  fixes s :: "'a pending_module_scheme"
  assumes inv: "os_inv s" and c: "current_task s = Some c" "tstate (tcb_at c s) = TASK_STATE_RUNNING"
    and view: "sem_view m (semaphore_table s) = Some v"
  shows "\<exists>s'. pol_sem m s = (fst (poll_spec v), s') \<and> os_inv s' \<and>
    sem_view m (semaphore_table s') = Some (snd (poll_spec v)) \<and>
    (\<forall>m'. m' \<noteq> m \<longrightarrow> sem_view m' (semaphore_table s') = sem_view m' (semaphore_table s)) \<and>
    task_table s' = task_table s \<and> dq_items s' = dq_items s \<and> current_task s' = current_task s \<and>
    dispatch_pending_state s' = dispatch_pending_state s"
proof -
  obtain k mx q where v: "v = (k, mx, q)" by (cases v)
  define s0 where "s0 = say (\<lambda>s'. [''[pol-sem] called: semid='', mag_str m] @ log_current (Some c) s') s"
  have s0: "os_inv s0" "tcb_at c s0 = tcb_at c s" "sem_view m (semaphore_table s0) = Some (k, mx, q)"
    "core s0 = core s" "dispatch_pending_state s0 = dispatch_pending_state s"
    using inv view v by (simp_all add: s0_def)
  then have get: "sem_get_by_id m s0 \<noteq> None"
    by (auto simp: sem_get_by_id_def find_semaphore_by_id_def sem_view_def)
  obtain s1 where s1: "sem_take_if_available m s0
      = ((if 0 < k then SEM_OK else SEM_WAIT_REQUIRED, Some k, Some (if 0 < k then k - 1 else k)), s1)"
    "os_inv s1" "task_table s1 = task_table s0" "dq_items s1 = dq_items s0" "current_task s1 = current_task s0"
    "dispatch_pending_state s1 = dispatch_pending_state s0"
    "\<forall>m'. sem_view m' (semaphore_table s1)
       = (if m' = m \<and> 0 < k then Some (k - 1, mx, q) else sem_view m' (semaphore_table s0))"
    using sem_view_take[OF s0(1,3)] by blast
  have "\<exists>f g. pol_sem m s = (fst (poll_spec v), say g (say f s1))"
    using c get s1(1) s0(2) v
    unfolding pol_sem_def dispatcher_get_current_def Let_def c(1) s0_def[symmetric]
    by (auto simp: completed_def)
  with s1 s0 core_eqD[OF s0(4)] v show ?thesis by auto
qed

text \<open>C19. \<open>pol_sem\<close> takes a count or reports a timeout, and never blocks or touches a task.\<close>

theorem pol_sem_refines:
  fixes s :: "'a pending_module_scheme"
  assumes inv: "os_inv s" and c: "current_task s = Some c" "tstate (tcb_at c s) = TASK_STATE_RUNNING"
    and view: "sem_view m (semaphore_table s) = Some v"
  shows "\<exists>s'. pol_sem m s = (fst (poll_spec v), s') \<and> os_inv s' \<and>
    sem_view m (semaphore_table s') = Some (snd (poll_spec v)) \<and>
    (\<forall>m'. m' \<noteq> m \<longrightarrow> sem_view m' (semaphore_table s') = sem_view m' (semaphore_table s)) \<and>
    task_table s' = task_table s \<and> dq_items s' = dq_items s \<and> current_task s' = current_task s \<and>
    dispatch_pending_state s' = dispatch_pending_state s"
  by (rule sem_poll_takes[OF assms])

lemma pol_sem_refines_witness:
  "\<exists>s'. pol_sem 2 busy = (E_OK, s') \<and> os_inv s' \<and> sem_view 2 (semaphore_table s') = Some (0, 2, [])"
  using pol_sem_refines[OF busy_os_inv busy_views(5) busy_running busy_views(2)] by auto

subsection \<open>Waiting for a count\<close>

text \<open>The contract of a wait by task \<open>k\<close>: take a count, or queue behind the waiters.\<close>

fun wait_spec :: "int \<Rightarrow> int \<times> int \<times> int list \<Rightarrow> int \<times> int \<times> int list" where
  "wait_spec k (c, mx, q) = (if 0 < c then (c - 1, mx, q) else (c, mx, q @ [k]))"

lemma sem_view_lookup:
  assumes "os_inv s" and "sem_view m (semaphore_table s) = Some (n, mx, q)"
  obtains j where "find_semaphore_by_id m s = Some j" and "sem_count (sem_at j s) = n"
    and "sem_max_count (sem_at j s) = mx" and "waiters (sem_at j s) = q" and "0 \<le> n"
proof -
  obtain j where lookup: "lookup_sem m (semaphore_table s) = Some j"
    and sem: "sem_count (sem_at j s) = n" "sem_max_count (sem_at j s) = mx" "waiters (sem_at j s) = q"
    using assms(2) by (auto simp: sem_view_def sem_at_def)
  then have j: "find_semaphore_by_id m s = Some j" by (simp add: find_semaphore_by_id_def)
  moreover have "0 \<le> n" using kernel_inv_sem_ok[OF os_invD(2)[OF assms(1)] j] sem by (simp add: sem_ok_def)
  ultimately show thesis using sem that by blast
qed

text \<open>The task that runs joins the queue of a semaphore.\<close>

lemma sem_view_put:
  assumes inv: "os_inv s" and c: "current_task s = Some c" "tstate (tcb_at c s) = TASK_STATE_RUNNING"
    and j: "find_semaphore_by_id m s = Some j" and view: "sem_view m (semaphore_table s) = Some (n, mx, q)"
    and st: "st' = (semaphore_table s)[j := ring_put (tid (tcb_at c s)) (semaphore_table s ! j)]"
  shows "sem_view m' st' = (if m' = m then Some (n, mx, q @ [tid (tcb_at c s)]) else sem_view m' (semaphore_table s))"
proof -
  note cu = os_inv_current[OF inv c(1)] and w = kernel_invD(1)[OF os_invD(2)[OF inv]]
  have "tstate (task_table s ! c) \<noteq> TASK_STATE_WAITING" using c(2) by (simp add: tcb_at_def)
  note none = not_waiting_no_wait[OF w cu(3) this]
  have lookup: "lookup_sem m (semaphore_table s) = Some j" using j by (simp add: find_semaphore_by_id_def)
  have sem: "sem_count (sem_at j s) = n" "sem_max_count (sem_at j s) = mx" "waiters (sem_at j s) = q"
    using view lookup by (simp_all add: sem_view_def sem_at_def)
  have "wait_count (sem_at j s) < MAX_TASKS"
    using wait_queue_has_room[OF w j cu(3)] none(3)[of m] queue_of_find[OF j] by simp
  moreover have "ring_ok (sem_at j s)" using kernel_inv_sem_ok[OF os_invD(2)[OF inv] j] by (simp add: sem_ok_def)
  ultimately have "waiters (ring_put (tid (tcb_at c s)) (sem_at j s)) = q @ [tid (tcb_at c s)]"
    using sem by (simp add: ring_put_waiters)
  moreover have "sem_ident (ring_put (tid (tcb_at c s)) (sem_at j s)) = m"
    using find_semaphore_SomeD(3)[OF j] by simp
  ultimately show ?thesis
    using sem_view_update[OF lookup, of "ring_put (tid (tcb_at c s)) (semaphore_table s ! j)" m'] sem
    by (simp add: st sem_at_def)
qed

lemma wai_sem_takes:
  fixes s :: "'a pending_module_scheme"
  assumes "os_inv s" and "current_task s = Some c" and "tstate (tcb_at c s) = TASK_STATE_RUNNING"
    and "sem_view m (semaphore_table s) = Some (n, mx, q)" and "0 < n"
  shows "\<exists>s'. wai_sem env m s = Some (E_OK, s') \<and> os_inv s' \<and> task_table s' = task_table s \<and>
    dq_items s' = dq_items s \<and> current_task s' = current_task s \<and>
    dispatch_pending_state s' = dispatch_pending_state s \<and>
    (\<forall>m'. sem_view m' (semaphore_table s') = (if m' = m then Some (n - 1, mx, q) else sem_view m' (semaphore_table s)))"
proof -
  define s0 where "s0 = tcb_say c (\<lambda>t. [''[wai-sem] called: sem_id='', mag_str m, '' current'']
      @ itron_api_log_task_identity t @ [''\<newline>'']) s"
  have s0: "os_inv s0" "tcb_at c s0 = tcb_at c s" "sem_view m (semaphore_table s0) = Some (n, mx, q)"
    "core s0 = core s" "dispatch_pending_state s0 = dispatch_pending_state s"
    using assms by (simp_all add: s0_def)
  then have get: "sem_get_by_id m s0 \<noteq> None"
    by (auto simp: sem_get_by_id_def find_semaphore_by_id_def sem_view_def)
  obtain s1 where s1: "sem_take_if_available m s0 = ((SEM_OK, Some n, Some (n - 1)), s1)"
    "os_inv s1" "task_table s1 = task_table s0" "dq_items s1 = dq_items s0" "current_task s1 = current_task s0"
    "dispatch_pending_state s1 = dispatch_pending_state s0"
    "\<forall>m'. sem_view m' (semaphore_table s1) = (if m' = m then Some (n - 1, mx, q) else sem_view m' (semaphore_table s0))"
    using sem_view_take[OF s0(1,3)] assms(5) by auto
  have "\<exists>f g. wai_sem env m s = Some (E_OK, say g (say f s1))"
    using assms(2,3) get s1(1) s0(2)
    unfolding wai_sem_def dispatcher_get_current_def assms(2) option.case Let_def s0_def[symmetric]
    by (auto simp: completed_def)
  with s1 s0(5) core_eqD[OF s0(4)] show ?thesis by auto
qed

text \<open>
  C12. \<open>wai_sem\<close> implements the abstract wait: with a count it returns at once and no task changes;
  without one the calling task, and no other, becomes WAITING at the end of the queue, and the
  call goes on with the switch to the next READY task.
\<close>

theorem wai_sem_refines:
  fixes s :: "'a pending_module_scheme"
  assumes inv: "os_inv s" and c: "current_task s = Some c" "tstate (tcb_at c s) = TASK_STATE_RUNNING"
    and view: "sem_view m (semaphore_table s) = Some (n, mx, q)"
  shows "\<exists>s'. wai_sem env m s = (if 0 < n then Some (E_OK, s') else
      wait_switch env ''wai-sem'' ''switch-task-not-found'' ''wait-switch-failed'' ''wait-switch'' c s') \<and>
    os_inv s' \<and>
    sem_view m (semaphore_table s') = Some (wait_spec (tid (tcb_at c s)) (n, mx, q)) \<and>
    (\<forall>m'. m' \<noteq> m \<longrightarrow> sem_view m' (semaphore_table s') = sem_view m' (semaphore_table s)) \<and>
    task_table s' = (if 0 < n then task_table s
      else (task_table s)[c := tcb_enter TASK_STATE_WAITING m TASK_WAIT_REASON_SEMAPHORE 0 (tcb_at c s)]) \<and>
    dq_items s' = dq_items s \<and> current_task s' = current_task s"
proof (cases "0 < n")
  case True
  from wai_sem_takes[OF assms True, of env] True show ?thesis by auto
next
  case False
  obtain j where j: "find_semaphore_by_id m s = Some j" "sem_count (sem_at j s) = n" "0 \<le> n"
    using sem_view_lookup[OF inv view] by metis
  with False have "sem_count (sem_at j s) = 0" by simp
  from wai_sem_begins[OF inv c j(1) this, of env] obtain s' where
    s': "wai_sem env m s = wait_switch env ''wai-sem'' ''switch-task-not-found'' ''wait-switch-failed''
      ''wait-switch'' c s'" "os_inv s'"
      "task_table s' = (task_table s)[c := tcb_enter TASK_STATE_WAITING m TASK_WAIT_REASON_SEMAPHORE 0 (task_table s ! c)]"
      "dq_items s' = dq_items s" "current_task s' = Some c"
    and st: "semaphore_table s' = (semaphore_table s)[j := ring_put (tid (tcb_at c s)) (semaphore_table s ! j)]"
    by blast
  note sem_view_put[OF inv c j(1) view st]
  with False s' c(1) show ?thesis by (intro exI[of _ s']) (simp add: tcb_at_def)
qed

lemma wai_sem_refines_witness:
  "\<exists>s'. wai_sem demo_env 1 busy
      = wait_switch demo_env ''wai-sem'' ''switch-task-not-found'' ''wait-switch-failed'' ''wait-switch'' 0 s' \<and>
    sem_view 1 (semaphore_table s') = Some (0, 1, [2, 3, 4, 1])"
proof -
  have "tid (tcb_at 0 busy) = 1" by (simp add: tcb_at_def busy_tcb sample_tasks_def sample_task_def)
  then show ?thesis
    using wai_sem_refines[OF busy_os_inv busy_views(5) busy_running busy_views(1), of demo_env] by auto
qed

subsection \<open>Waiting with a time limit\<close>

lemma twai_sem_takes:
  fixes s :: "'a pending_module_scheme"
  assumes "os_inv s" and "current_task s = Some c" and "tstate (tcb_at c s) = TASK_STATE_RUNNING"
    and "sem_view m (semaphore_table s) = Some (n, mx, q)" and "0 < n" and "d \<noteq> 0"
  shows "\<exists>s'. twai_sem env m d s = Some (E_OK, s') \<and> os_inv s' \<and> task_table s' = task_table s \<and>
    dq_items s' = dq_items s \<and> current_task s' = current_task s \<and>
    dispatch_pending_state s' = dispatch_pending_state s \<and>
    (\<forall>m'. sem_view m' (semaphore_table s') = (if m' = m then Some (n - 1, mx, q) else sem_view m' (semaphore_table s)))"
proof -
  define s0 where "s0 = tcb_say c (\<lambda>t. [''[twai-sem] called: sem id='', mag_str m,
      '' timeout_ticks='', u32_str d, '' current''] @ itron_api_log_task_identity t @ [''\<newline>'']) s"
  have s0: "os_inv s0" "tcb_at c s0 = tcb_at c s" "sem_view m (semaphore_table s0) = Some (n, mx, q)"
    "core s0 = core s" "dispatch_pending_state s0 = dispatch_pending_state s"
    using assms by (simp_all add: s0_def)
  then have get: "sem_get_by_id m s0 \<noteq> None"
    by (auto simp: sem_get_by_id_def find_semaphore_by_id_def sem_view_def)
  obtain s1 where s1: "sem_take_if_available m s0 = ((SEM_OK, Some n, Some (n - 1)), s1)"
    "os_inv s1" "task_table s1 = task_table s0" "dq_items s1 = dq_items s0" "current_task s1 = current_task s0"
    "dispatch_pending_state s1 = dispatch_pending_state s0"
    "\<forall>m'. sem_view m' (semaphore_table s1) = (if m' = m then Some (n - 1, mx, q) else sem_view m' (semaphore_table s0))"
    using sem_view_take[OF s0(1,3)] assms(5) by auto
  have "\<exists>f g. twai_sem env m d s = Some (E_OK, say g (say f s1))"
    using assms(2,3,6) get s1(1) s0(2)
    unfolding twai_sem_def dispatcher_get_current_def assms(2) option.case Let_def s0_def[symmetric]
    by (auto simp: completed_def)
  with s1 s0(5) core_eqD[OF s0(4)] show ?thesis by auto
qed

text \<open>
  C13. \<open>twai_sem\<close> with a limit of \<open>d > 0\<close> ticks implements the same abstract wait; a task that has to
  wait enters the delay queue with \<open>d\<close> ticks as well.
\<close>

theorem twai_sem_refines:
  fixes s :: "'a pending_module_scheme"
  assumes inv: "os_inv s" and c: "current_task s = Some c" "tstate (tcb_at c s) = TASK_STATE_RUNNING"
    and view: "sem_view m (semaphore_table s) = Some (n, mx, q)" and d: "d \<noteq> 0"
  shows "\<exists>s'. twai_sem env m d s = (if 0 < n then Some (E_OK, s') else
      wait_switch env ''twai-sem'' ''timeout-wait-switch-failed'' ''timeout-wait-switch-failed''
        ''timeout-wait-queued-switch'' c s') \<and>
    os_inv s' \<and>
    sem_view m (semaphore_table s') = Some (wait_spec (tid (tcb_at c s)) (n, mx, q)) \<and>
    (\<forall>m'. m' \<noteq> m \<longrightarrow> sem_view m' (semaphore_table s') = sem_view m' (semaphore_table s)) \<and>
    task_table s' = (if 0 < n then task_table s
      else (task_table s)[c := tcb_enter TASK_STATE_WAITING m TASK_WAIT_REASON_SEMAPHORE_TIMEOUT d (tcb_at c s)]) \<and>
    dq_items s' = (if 0 < n then dq_items s else dq_items s @ [(tid (tcb_at c s), d)]) \<and>
    current_task s' = current_task s"
proof (cases "0 < n")
  case True
  from twai_sem_takes[OF inv c view True d, of env] True show ?thesis by auto
next
  case False
  obtain j where j: "find_semaphore_by_id m s = Some j" "sem_count (sem_at j s) = n" "0 \<le> n"
    using sem_view_lookup[OF inv view] by metis
  with False have "sem_count (sem_at j s) = 0" by simp
  from twai_sem_begins[OF inv c j(1) this d, of env] obtain s' where
    s': "twai_sem env m d s = wait_switch env ''twai-sem'' ''timeout-wait-switch-failed''
      ''timeout-wait-switch-failed'' ''timeout-wait-queued-switch'' c s'" "os_inv s'"
      "task_table s' = (task_table s)[c := tcb_enter TASK_STATE_WAITING m TASK_WAIT_REASON_SEMAPHORE_TIMEOUT d (task_table s ! c)]"
      "dq_items s' = dq_items s @ [(tid (tcb_at c s), d)]" "current_task s' = Some c"
    and st: "semaphore_table s' = (semaphore_table s)[j := ring_put (tid (tcb_at c s)) (semaphore_table s ! j)]"
    by blast
  note sem_view_put[OF inv c j(1) view st]
  with False s' c(1) show ?thesis by (intro exI[of _ s']) (simp add: tcb_at_def)
qed

lemma twai_sem_refines_witness:
  "\<exists>s'. twai_sem demo_env 1 7 busy = wait_switch demo_env ''twai-sem'' ''timeout-wait-switch-failed''
      ''timeout-wait-switch-failed'' ''timeout-wait-queued-switch'' 0 s' \<and>
    sem_view 1 (semaphore_table s') = Some (0, 1, [2, 3, 4, 1]) \<and> dq_items s' = [(3, 2), (6, 1), (1, 7)]"
proof -
  have "tid (tcb_at 0 busy) = 1" by (simp add: tcb_at_def busy_tcb sample_tasks_def sample_task_def)
  then show ?thesis
    using twai_sem_refines[OF busy_os_inv busy_views(5) busy_running busy_views(1), of 7 demo_env]
    by (auto simp: busy_views)
qed

subsection \<open>The order of the wakeups\<close>

text \<open>\<open>n\<close> signals in a row.\<close>

definition signals :: "nat \<Rightarrow> int \<Rightarrow> 'a pending_module_scheme \<Rightarrow> 'a pending_module_scheme" where
  "signals n m s = ((\<lambda>s. snd (sig_sem m s)) ^^ n) s"

lemma signals_simps: "signals 0 m s = s" "signals (Suc n) m s = signals n m (snd (sig_sem m s))"
  unfolding signals_def by (simp_all only: funpow_simps_right o_apply id_apply)

lemma sig_sem_wakes_tcb:
  assumes "kernel_inv s" and "sem_view m (semaphore_table s) = Some (c, mx, k # ks)"
  shows "kernel_inv (snd (sig_sem m s))"
    and "sem_view m (semaphore_table (snd (sig_sem m s))) = Some (c, mx, ks)"
    and "tcb_of j (task_table (snd (sig_sem m s)))
      = (if j = k then map_option woken (tcb_of j (task_table s)) else tcb_of j (task_table s))"
    and "dq_items (snd (sig_sem m s)) = filter (\<lambda>p. fst p \<noteq> k) (dq_items s)"
proof -
  from sig_sem_wakes[OF assms] obtain s' i where *: "sig_sem m s = (E_OK, s')" "kernel_inv s'"
    "lookup_tcb k (task_table s) = Some i" "task_table s' = (task_table s)[i := woken (task_table s ! i)]"
    "sem_view m (semaphore_table s') = Some (c, mx, ks)"
    "dq_items s' = filter (\<lambda>p. fst p \<noteq> k) (dq_items s)" by blast
  then show "kernel_inv (snd (sig_sem m s))" "sem_view m (semaphore_table (snd (sig_sem m s))) = Some (c, mx, ks)"
    "dq_items (snd (sig_sem m s)) = filter (\<lambda>p. fst p \<noteq> k) (dq_items s)" by simp_all
  have "tcb_of j (task_table s')
      = (if j = k then map_option woken (tcb_of j (task_table s)) else tcb_of j (task_table s))"
    unfolding *(4) using tcb_of_update[OF *(3), of "woken (task_table s ! i)"] tasks.lookup_SomeD[OF *(3)] *(3)
    by (simp add: woken_def tcb_of_def[of k "task_table s"])
  with *(1) show "tcb_of j (task_table (snd (sig_sem m s)))
      = (if j = k then map_option woken (tcb_of j (task_table s)) else tcb_of j (task_table s))" by simp
qed

text \<open>
  C14. Waiters are woken in the order of their arrival, one per signal: \<open>n\<close> signals wake exactly the
  first \<open>n\<close> waiters, which also leave the delay queue, and leave the other waiters queued in order.
\<close>

theorem signals_wake_in_order:
  assumes "kernel_inv s" and "sem_view m (semaphore_table s) = Some (c, mx, q)" and "n \<le> length q"
  shows "kernel_inv (signals n m s) \<and>
    sem_view m (semaphore_table (signals n m s)) = Some (c, mx, drop n q) \<and>
    (\<forall>k. tcb_of k (task_table (signals n m s))
       = (if k \<in> set (take n q) then map_option woken (tcb_of k (task_table s)) else tcb_of k (task_table s))) \<and>
    dq_items (signals n m s) = filter (\<lambda>p. fst p \<notin> set (take n q)) (dq_items s)"
  using assms
proof (induction n arbitrary: s q)
  case 0
  then show ?case by (simp add: signals_simps)
next
  case (Suc n)
  from Suc.prems(3) obtain k ks where q: "q = k # ks" by (cases q) auto
  note step = sig_sem_wakes_tcb[OF Suc.prems(1) Suc.prems(2)[unfolded q]]
  have woken_again: "map_option woken (map_option woken x) = map_option woken x" for x
    by (cases x) (simp_all add: woken_def)
  have "filter (\<lambda>p. fst p \<notin> set (take n ks)) (filter (\<lambda>p. fst p \<noteq> k) (dq_items s))
      = filter (\<lambda>p. fst p \<notin> set (take (Suc n) q)) (dq_items s)"
    by (simp add: q filter_filter conj_commute)
  with Suc.IH[OF step(1,2)] Suc.prems(3) show ?case
    by (auto simp: signals_simps step(3,4) q woken_again)
qed

lemma signals_wake_in_order_witness:
  "sem_view 1 (semaphore_table (signals 2 1 busy)) = Some (0, 1, [4]) \<and> dq_items (signals 2 1 busy) = [(6, 1)]"
  using signals_wake_in_order[OF busy_inv busy_views(1), of 2] by (simp add: busy_views)

subsection \<open>Bounds\<close>

text \<open>
  C21. In every reachable state the count of a semaphore is between 0 and its limit, no task waits
  twice or beside a free count, and each waiter is a WAITING task that waits for this semaphore.
\<close>

theorem semaphores_stay_in_bounds:
  assumes "entry_contract env" and "os_inv s0" and "kreach env s0 s"
    and "sem_view m (semaphore_table s) = Some (n, mx, q)"
  shows "0 \<le> n \<and> n \<le> mx \<and> (q \<noteq> [] \<longrightarrow> n = 0) \<and> distinct q \<and>
    (\<forall>k \<in> set q. \<exists>t. tcb_of k (task_table s) = Some t \<and> tstate t = TASK_STATE_WAITING \<and> wait_sem_id t = m)"
proof -
  have inv: "os_inv s" by (rule kreach_os_inv[OF assms(1-3)])
  note k = os_invD(2)[OF inv]
  obtain j where j: "find_semaphore_by_id m s = Some j" and sem: "sem_count (sem_at j s) = n"
    "sem_max_count (sem_at j s) = mx" "waiters (sem_at j s) = q"
    using sem_view_lookup[OF inv assms(4)] by metis
  have ok: "sem_ok (sem_at j s)" by (rule kernel_inv_sem_ok[OF k j])
  have "\<exists>t. tcb_of h (task_table s) = Some t \<and> tstate t = TASK_STATE_WAITING \<and> wait_sem_id t = m"
    if "h \<in> set q" for h
  proof -
    have "h \<in> set (queue_of m (semaphore_table s))" using that queue_of_find[OF j] sem by simp
    then obtain i where "lookup_tcb h (task_table s) = Some i" "tstate (task_table s ! i) = TASK_STATE_WAITING"
      "wait_sem_id (task_table s ! i) = m"
      using queued_task[OF kernel_invD(1)[OF k]] by metis
    then show ?thesis by (simp add: tcb_of_def)
  qed
  moreover have "sem_used (sem_at j s)" using find_semaphore_SomeD(2)[OF j] by (simp add: sem_at_def)
  ultimately show ?thesis using ok sem by (auto simp: sem_ok_def simp del: waiters_nil)
qed

text \<open>Two signals and a poll, from the sample state.\<close>

lemma semaphores_stay_in_bounds_witness:
  "\<exists>s n mx q. kreach demo_env (machine_of busy) s \<and> sem_view 1 (semaphore_table s) = Some (n, mx, q) \<and>
    0 \<le> n \<and> n \<le> mx \<and> distinct q"
proof -
  let ?s = "machine_of busy"
  have "kstep demo_env (Sig_sem 1) ?s (snd (sig_sem 1 ?s))"
    by (rule kstep_call[of _ _ _ "fst (sig_sem 1 ?s)"]) simp_all
  then have reach: "kreach demo_env ?s (snd (sig_sem 1 ?s))" by (rule kreach_step[OF kreach_start])
  have inv: "os_inv ?s" using busy_os_inv by simp
  have view: "sem_view 1 (semaphore_table (snd (sig_sem 1 ?s))) = Some (0, 1, [3, 4])"
    by (rule sig_sem_wakes_tcb(2)) (use inv busy_views(1) in \<open>simp_all add: os_invD(2)\<close>)
  with semaphores_stay_in_bounds[OF demo_env_contract inv reach view] reach show ?thesis by blast
qed

text \<open>
  A signal and a poll are inverse: when nobody waits and the limit is not reached, \<open>sig_sem\<close>
  followed by \<open>pol_sem\<close> succeeds and restores the count, and no task changes.
\<close>

theorem signal_poll_roundtrip:
  fixes s :: "'a pending_module_scheme"
  assumes inv: "os_inv s" and c: "current_task s = Some c" "tstate (tcb_at c s) = TASK_STATE_RUNNING"
    and view: "sem_view m (semaphore_table s) = Some (n, mx, [])" and room: "n < mx"
  shows "\<exists>s1 s2. sig_sem m s = (E_OK, s1) \<and> pol_sem m s1 = (E_OK, s2) \<and>
    sem_view m (semaphore_table s2) = Some (n, mx, []) \<and> task_table s2 = task_table s"
proof -
  have n: "0 \<le> n" using sem_view_lookup[OF inv view] by metis
  from sig_sem_counts[OF os_invD(2)[OF inv] view] room obtain s1 where
    s1: "sig_sem m s = (E_OK, s1)" "task_table s1 = task_table s" "current_task s1 = current_task s"
      "sem_view m (semaphore_table s1) = Some (n + 1, mx, [])" by auto
  have inv1: "os_inv s1" using os_inv_sig_sem[OF inv, of m] s1(1) by simp
  have "tstate (tcb_at c s1) = TASK_STATE_RUNNING" "current_task s1 = Some c"
    using c s1(2,3) by (simp_all add: tcb_at_def)
  from sem_poll_takes[OF inv1 this(2,1) s1(4)] n obtain s2 where
    "pol_sem m s1 = (E_OK, s2)" "sem_view m (semaphore_table s2) = Some (n, mx, [])" "task_table s2 = task_table s1"
    by auto
  with s1 show ?thesis by auto
qed

lemma signal_poll_roundtrip_witness:
  "\<exists>s1 s2. sig_sem 2 busy = (E_OK, s1) \<and> pol_sem 2 s1 = (E_OK, s2) \<and>
    sem_view 2 (semaphore_table s2) = Some (1, 2, [])"
  using signal_poll_roundtrip[OF busy_os_inv busy_views(5) busy_running busy_views(2)] by auto

end
