(* ===== verification/Time_Props.thy ===== *)
theory Time_Props
  imports Boot_Inv
begin

section \<open>Properties of delays and timeouts\<close>

text \<open>
  The delay queue as a list of task ids with remaining ticks, the tick as one simultaneous step,
  and the number of ticks a timed wait lasts.
\<close>

subsection \<open>Entering the delay queue\<close>

text \<open>The result of an enqueue, in the order of the checks of the code.\<close>

definition delay_enqueue_result :: "int \<Rightarrow> u32 \<Rightarrow> 'a delay_module_scheme \<Rightarrow> int" where
  "delay_enqueue_result k d s =
     (case lookup_tcb k (task_table s) of
        None \<Rightarrow> DELAY_QUEUE_ERR_INVAL
      | Some i \<Rightarrow>
          if d = 0 then DELAY_QUEUE_ERR_INVAL
          else if tstate (tcb_at i s) \<noteq> TASK_STATE_WAITING \<or> \<not> timed_reason (wait_reason (tcb_at i s))
          then DELAY_QUEUE_ERR_TASK_STATE
          else if k \<in> fst ` set (dq_items s) then DELAY_QUEUE_ERR_DUPLICATE
          else if length (dq_items s) = MAX_TASKS then DELAY_QUEUE_ERR_FULL
          else DELAY_QUEUE_OK)"

text \<open>
  C31. \<open>delay_queue_enqueue\<close> appends the task with its ticks, or refuses it with the error of the first
  check that fails and leaves the queue alone: an unknown task or no ticks, a task that is not in
  a timed wait, a duplicate, a full queue.
\<close>

theorem delay_enqueue_appends_or_refuses:
  assumes "dq_ok s"
  shows "fst (delay_queue_enqueue k d s) = delay_enqueue_result k d s \<and>
    dq_ok (snd (delay_queue_enqueue k d s)) \<and>
    dq_items (snd (delay_queue_enqueue k d s))
      = (if delay_enqueue_result k d s = DELAY_QUEUE_OK then dq_items s @ [(k, d)] else dq_items s)"
proof (cases "lookup_tcb k (task_table s)")
  case None
  with assms show ?thesis
    by (simp add: delay_queue_enqueue_def delay_enqueue_result_def task_get_by_id_def)
next
  case (Some i)
  have len: "length (dq_items s) = delay_queue_count s" by (rule length_dq_items[OF assms])
  have le: "delay_queue_count s \<le> MAX_TASKS" using assms by (simp add: dq_ok_def)
  have pos: "0 < k" by (rule tasks.lookup_SomeD(4)[OF Some])
  show ?thesis
  proof (cases "delay_enqueue_result k d s = DELAY_QUEUE_OK")
    case True
    then have room: "k \<notin> fst ` set (dq_items s)" "delay_queue_count s < MAX_TASKS"
      and st: "tstate (tcb_at i s) = TASK_STATE_WAITING" "timed_reason (wait_reason (tcb_at i s))" "d \<noteq> 0"
      using Some len le by (auto simp: delay_enqueue_result_def split: if_splits)
    obtain g where "delay_queue_enqueue k d s = (DELAY_QUEUE_OK, say g (dq_append k d s))"
      using delay_enqueue_spec[OF Some st room] by blast
    with True show ?thesis
      using dq_items_append[of s k d] dq_ok_append[of s k d] assms room by simp
  next
    case False
    with Some assms len le pos show ?thesis
      using find_index_None[of k s]
      by (auto simp: delay_queue_enqueue_def delay_enqueue_result_def task_get_by_id_def
          delay_queue_can_enqueue_def timed_reason_def Let_def)
  qed
qed

lemma delay_enqueue_appends_or_refuses_witness:
  "dq_items (snd (delay_queue_enqueue 3 9 busy)) = [(3, 2), (6, 1)] \<and>
   fst (delay_queue_enqueue 3 9 busy) = DELAY_QUEUE_ERR_DUPLICATE"
proof -
  have "delay_enqueue_result 3 9 busy = DELAY_QUEUE_ERR_DUPLICATE"
    by (simp add: delay_enqueue_result_def busy_lookup(2) tcb_at_def busy_tcb busy_views)
      (simp add: sample_tasks_def sample_task_def tcb_at_def busy_tcb timed_reason_def)
  then show ?thesis
    using delay_enqueue_appends_or_refuses[OF wait_invD(3)[OF kernel_invD(1)[OF busy_inv]], of 3 9]
    by (simp add: busy_views)
qed

subsection \<open>Leaving it\<close>

text \<open>
  Removing the entry of index \<open>i\<close> closes the gap and keeps the order of the other entries: the array
  shift of \<open>delay_queue_remove_at\<close> is the removal from the list of entries.
\<close>

theorem delay_remove_closes_gap:
  assumes "dq_ok s" and "i < delay_queue_count s"
  shows "dq_items (delay_queue_remove_at i s) = take i (dq_items s) @ drop (Suc i) (dq_items s) \<and>
    set (dq_items (delay_queue_remove_at i s)) = set (dq_items s) - {dq_items s ! i} \<and>
    dq_ok (delay_queue_remove_at i s) \<and> delay_queue_count (delay_queue_remove_at i s) = delay_queue_count s - 1"
proof -
  have i: "i < length (dq_items s)" using length_dq_items[OF assms(1)] assms(2) by simp
  have dist: "distinct (dq_items s)" using assms(1) by (simp add: dq_ok_def distinct_map)
  have split: "dq_items s = take i (dq_items s) @ dq_items s ! i # drop (Suc i) (dq_items s)"
    by (rule id_take_nth_drop[OF i])
  have "set (take i (dq_items s) @ drop (Suc i) (dq_items s)) = set (dq_items s) - {dq_items s ! i}"
  proof -
    have "distinct (take i (dq_items s) @ dq_items s ! i # drop (Suc i) (dq_items s))"
      using dist by (subst split[symmetric])
    moreover have "set (dq_items s) = set (take i (dq_items s) @ dq_items s ! i # drop (Suc i) (dq_items s))"
      by (subst split) (rule refl)
    ultimately show ?thesis by auto
  qed
  with dq_items_remove_at[OF assms] dq_ok_remove_at[OF assms] show ?thesis by simp
qed

lemma delay_remove_closes_gap_witness: "dq_items (delay_queue_remove_at 0 busy) = [(6, 1)]"
proof -
  have dq: "dq_ok busy" by (rule wait_invD(3)[OF kernel_invD(1)[OF busy_inv]])
  have "0 < delay_queue_count busy" using length_dq_items[OF dq] by (simp add: busy_views)
  from delay_remove_closes_gap[OF dq this] show ?thesis by (simp add: busy_views)
qed

subsection \<open>The tick\<close>

text \<open>
  C10. One tick of the delay queue, which removes entries while it visits them, is one simultaneous
  step: every timed wait loses one tick, and the waits at their last tick end; their tasks become
  READY and leave the queue of the semaphore they wait for. The result is the number of these tasks.
\<close>

theorem tick_is_simultaneous:
  assumes "wait_inv s"
  shows "fst (delay_queue_tick s) = int (length (expired_ids (dq_items s))) \<and>
    wait_inv (snd (delay_queue_tick s)) \<and>
    task_table (snd (delay_queue_tick s)) = map tick_tcb (task_table s) \<and>
    dq_items (snd (delay_queue_tick s)) = tick_items (dq_items s) \<and>
    (\<forall>m. queue_of m (semaphore_table (snd (delay_queue_tick s)))
      = filter (\<lambda>k. k \<notin> set (expired_ids (dq_items s))) (queue_of m (semaphore_table s)))"
proof -
  from delay_queue_tick_refines[OF assms] obtain s' where
    "delay_queue_tick s = (int (length (expired_ids (dq_items s))), s')" "wait_inv s'"
    "task_table s' = map tick_tcb (task_table s)" "dq_items s' = tick_items (dq_items s)"
    "\<forall>m. queue_of m (semaphore_table s')
      = filter (\<lambda>k. k \<notin> set (expired_ids (dq_items s))) (queue_of m (semaphore_table s))" by blast
  then show ?thesis by simp
qed

lemma tick_is_simultaneous_witness:
  "fst (delay_queue_tick busy) = 1 \<and> dq_items (snd (delay_queue_tick busy)) = [(3, 1)]"
  using tick_is_simultaneous[OF kernel_invD(1)[OF busy_inv]] by (simp add: busy_views)

subsection \<open>Many ticks\<close>

definition ticks :: "nat \<Rightarrow> 'a pending_module_scheme \<Rightarrow> 'a pending_module_scheme" where
  "ticks n s = (timer_tick ^^ n) s"

lemma ticks_simps [simp]: "ticks 0 s = s" "ticks (Suc n) s = timer_tick (ticks n s)"
  by (simp_all add: ticks_def)

lemma kernel_inv_ticks: "kernel_inv s \<Longrightarrow> kernel_inv (ticks n s)"
  by (induction n) (simp_all add: timer_tick_refines(1))

text \<open>The tick counter counts ticks modulo \<open>2 ^ 64\<close>.\<close>

theorem tick_counter_wraps:
  fixes s :: "'a pending_module_scheme"
  assumes "kernel_inv s"
  shows "unat (timer_get_ticks (ticks n s)) = (unat (timer_get_ticks s) + n) mod 2 ^ 64"
proof (induction n)
  case 0
  have "unat (system_ticks s) < 2 ^ 64" using unsigned_less[of "system_ticks s", where ?'a = nat] by simp
  then show ?case by (simp add: timer_get_ticks_def)
next
  case (Suc n)
  have "system_ticks (ticks (Suc n) s) = system_ticks (ticks n s) + 1"
    using timer_tick_refines(2)[OF kernel_inv_ticks[OF assms]] by simp
  then have "unat (system_ticks (ticks (Suc n) s)) = (unat (system_ticks (ticks n s)) + 1) mod 2 ^ 64"
    by (simp add: unat_word_ariths)
  with Suc show ?case by (simp add: timer_get_ticks_def mod_simps)
qed

lemma tick_counter_wraps_witness: "unat (timer_get_ticks (ticks 5 busy)) = 5"
  using tick_counter_wraps[OF busy_inv, of 5] by (simp add: timer_get_ticks_def busy_def sample_state_def)

lemma unat_minus_of_nat:
  fixes d :: "'l::len word"
  assumes "n \<le> unat d"
  shows "unat (d - of_nat n) = unat d - n"
proof -
  have "n < 2 ^ LENGTH('l)" by (rule le_less_trans[OF assms unsigned_less])
  then have n: "unat (of_nat n :: 'l word) = n" by (simp add: unsigned_of_nat take_bit_nat_eq_self)
  then have "(of_nat n :: 'l word) \<le> d" using assms by (simp add: word_le_nat_alt)
  with n show ?thesis by (simp add: unat_sub)
qed

text \<open>The TCB of a task in a timed wait after \<open>n\<close> ticks.\<close>

definition tcb_after :: "nat \<Rightarrow> tcb_t \<Rightarrow> tcb_t" where
  "tcb_after n t =
     (if n < unat (delay_ticks_remaining t)
      then t\<lparr>delay_ticks_remaining := delay_ticks_remaining t - of_nat n\<rparr> else woken t)"

lemma tick_tcb_after:
  assumes "timed_reason (wait_reason t)" and "n < unat (delay_ticks_remaining t)"
  shows "tick_tcb (tcb_after n t) = tcb_after (Suc n) t"
proof -
  let ?d = "delay_ticks_remaining t"
  have u: "unat (?d - of_nat n) = unat ?d - n" using assms(2) by (intro unat_minus_of_nat) simp
  show ?thesis
  proof (cases "Suc n < unat ?d")
    case True
    then have "?d - of_nat n \<noteq> 1" using u by auto
    with True assms show ?thesis by (simp add: tick_tcb_def tcb_after_def)
  next
    case False
    with assms(2) u have "unat (?d - of_nat n) = unat (1 :: u32)" by simp
    then have "?d - of_nat n = 1" by (simp only: word_unat_eq_iff)
    with False assms show ?thesis by (simp add: tick_tcb_def tcb_after_def woken_def)
  qed
qed

lemma ticks_tcb:
  fixes s :: "'a pending_module_scheme"
  assumes inv: "kernel_inv s" and i: "i < length (task_table s)"
    and timed: "timed_reason (wait_reason (tcb_at i s))"
    and "n \<le> unat (delay_ticks_remaining (tcb_at i s))" and "0 < unat (delay_ticks_remaining (tcb_at i s))"
  shows "tcb_at i (ticks n s) = tcb_after n (tcb_at i s) \<and> length (task_table (ticks n s)) = length (task_table s)"
  using assms(4)
proof (induction n)
  case 0
  with assms(5) show ?case by (simp add: tcb_after_def)
next
  case (Suc n)
  then have IH: "tcb_at i (ticks n s) = tcb_after n (tcb_at i s)" "length (task_table (ticks n s)) = length (task_table s)"
    by simp_all
  have "task_table (ticks (Suc n) s) = map tick_tcb (task_table (ticks n s))"
    using timer_tick_refines(3)[OF kernel_inv_ticks[OF inv]] by simp
  then have "tcb_at i (ticks (Suc n) s) = tick_tcb (tcb_at i (ticks n s))"
    "length (task_table (ticks (Suc n) s)) = length (task_table s)"
    using i IH(2) by (simp_all add: tcb_at_def)
  with IH(1) tick_tcb_after[OF timed, of n] Suc.prems show ?case by simp
qed

text \<open>
  C11. A delay or a semaphore timeout of \<open>d\<close> ticks lasts exactly \<open>d\<close> ticks: before, the task is WAITING
  with \<open>d - n\<close> ticks left and in the delay queue; at the last tick it is READY and in no queue.
\<close>

theorem timed_wait_lasts_exactly:
  fixes s :: "'a pending_module_scheme"
  assumes inv: "kernel_inv s" and k: "lookup_tcb k (task_table s) = Some i"
    and timed: "timed_wait (tcb_at i s) = Some d" and n: "n \<le> unat d"
  shows "tcb_at i (ticks n s)
      = (if n < unat d then (tcb_at i s)\<lparr>delay_ticks_remaining := d - of_nat n\<rparr> else woken (tcb_at i s)) \<and>
    (k \<in> fst ` set (dq_items (ticks n s)) \<longleftrightarrow> n < unat d) \<and>
    (n = unat d \<longrightarrow> (\<forall>m. k \<notin> set (queue_of m (semaphore_table (ticks n s)))))"
proof -
  note i = tasks.lookup_SomeD[OF k]
  have r: "timed_reason (wait_reason (tcb_at i s))" "delay_ticks_remaining (tcb_at i s) = d"
    using timed by (auto simp: timed_wait_def split: if_splits)
  have "d \<noteq> 0" using kernel_inv_data[OF inv k] r by (simp add: wait_data_ok_def tcb_at_def)
  then have "0 < unat d" using unat_gt_0 by blast
  from ticks_tcb[OF inv i(1) r(1)] n this r(2) have t: "tcb_at i (ticks n s) = tcb_after n (tcb_at i s)"
    "length (task_table (ticks n s)) = length (task_table s)" by simp_all
  have inv': "kernel_inv (ticks n s)" by (rule kernel_inv_ticks[OF inv])
  have same: "tid (tcb_after n (tcb_at i s)) = k" "tcb_used (tcb_after n (tcb_at i s))"
    using i by (simp_all add: tcb_after_def woken_def tcb_at_def tcb_used_def)
  have lookup: "lookup_tcb k (task_table (ticks n s)) = Some i"
    using tasks_ok_lookup[of "task_table (ticks n s)" "next_task_id (ticks n s)" i] t same i(1) inv'
      kernel_invD(3)[OF inv]
    by (simp add: kernel_inv_def wait_inv_def tasks_inv_def tcb_at_def)
  have w: "wait_inv (ticks n s)" by (rule kernel_invD(1)[OF inv'])
  show ?thesis
  proof (cases "n < unat d")
    case True
    then have "timed_wait (task_table (ticks n s) ! i) = Some (d - of_nat n)"
      using t(1) r by (simp add: tcb_after_def timed_wait_def tcb_at_def)
    then have "(k, d - of_nat n) \<in> set (dq_items (ticks n s))" using queued_delay[OF w lookup] by blast
    with True t(1) r(2) show ?thesis by (force simp: tcb_after_def)
  next
    case False
    then have "tstate (task_table (ticks n s) ! i) \<noteq> TASK_STATE_WAITING"
      using t(1) r(2) by (simp add: tcb_after_def woken_def tcb_at_def)
    from not_waiting_no_wait(3,4)[OF w lookup this] False t(1) r(2) show ?thesis by (auto simp: tcb_after_def)
  qed
qed

text \<open>Task 3 of the sample waits for semaphore 1 with two ticks left.\<close>

lemma timed_wait_lasts_exactly_witness:
  "tstate (tcb_at 2 (ticks 1 busy)) = TASK_STATE_WAITING \<and> tstate (tcb_at 2 (ticks 2 busy)) = TASK_STATE_READY \<and>
   3 \<notin> set (queue_of 1 (semaphore_table (ticks 2 busy)))"
proof -
  have t: "tcb_at 2 busy = sample_task 3 4 TASK_STATE_WAITING 1 TASK_WAIT_REASON_SEMAPHORE_TIMEOUT 2"
    by (simp add: tcb_at_def busy_tcb) (simp add: sample_tasks_def)
  have "lookup_tcb 3 (task_table busy) = Some 2" unfolding busy_lookup(2) by code_simp
  moreover have "timed_wait (tcb_at 2 busy) = Some 2" by (simp add: t timed_wait_def sample_task_def timed_reason_def)
  ultimately have "\<And>n. n \<le> 2 \<Longrightarrow> tcb_at 2 (ticks n busy)
      = (if n < 2 then (tcb_at 2 busy)\<lparr>delay_ticks_remaining := 2 - of_nat n\<rparr> else woken (tcb_at 2 busy)) \<and>
    (n = 2 \<longrightarrow> (\<forall>m. 3 \<notin> set (queue_of m (semaphore_table (ticks n busy)))))"
    using timed_wait_lasts_exactly[OF busy_inv] by fastforce
  from this[of 1] this[of 2] show ?thesis by (simp add: t sample_task_def woken_def del: ticks_simps)
qed

subsection \<open>\<open>dly_tsk\<close>\<close>

text \<open>
  C20. \<open>dly_tsk\<close> refuses a caller that is not RUNNING and a delay of 0 ticks, and changes nothing then;
  otherwise the caller, and no other task, becomes WAITING with \<open>d\<close> ticks, enters the delay queue last,
  and the call goes on with the switch to the next READY task.
\<close>

theorem dly_tsk_delays:
  fixes s :: "'a pending_module_scheme"
  assumes inv: "os_inv s"
  shows "case current_task s of
      None \<Rightarrow> \<exists>s'. dly_tsk env d s = Some (E_CTX, s') \<and> core s' = core s
    | Some c \<Rightarrow>
        if d = 0 then \<exists>s'. dly_tsk env d s = Some (E_PAR, s') \<and> core s' = core s
        else if tstate (tcb_at c s) \<noteq> TASK_STATE_RUNNING
        then \<exists>s'. dly_tsk env d s = Some (E_CTX, s') \<and> core s' = core s
        else \<exists>s'. dly_tsk env d s = wait_switch env ''dly-tsk'' ''delay-switch-failed'' ''delay-switch-failed''
               ''delay-queued-switch'' c s' \<and> os_inv s' \<and>
             task_table s' = (task_table s)[c := tcb_enter TASK_STATE_WAITING 0 TASK_WAIT_REASON_DELAY d (tcb_at c s)] \<and>
             dq_items s' = dq_items s @ [(tid (tcb_at c s), d)] \<and>
             semaphore_table s' = semaphore_table s \<and> current_task s' = current_task s"
proof (cases "current_task s")
  case None
  then show ?thesis by (simp add: dly_tsk_def dispatcher_get_current_def completed_def)
next
  case (Some c)
  show ?thesis
  proof (cases "d = 0 \<or> tstate (tcb_at c s) \<noteq> TASK_STATE_RUNNING")
    case True
    with Some show ?thesis by (auto simp: dly_tsk_def dispatcher_get_current_def completed_def)
  next
    case False
    then have d: "d \<noteq> 0" and run: "tstate (tcb_at c s) = TASK_STATE_RUNNING" by simp_all
    from dly_tsk_begins[OF inv Some run d, of env] d run Some show ?thesis by (auto simp: tcb_at_def)
  qed
qed

lemma dly_tsk_delays_witness:
  "\<exists>s'. dly_tsk demo_env 4 busy = wait_switch demo_env ''dly-tsk'' ''delay-switch-failed''
      ''delay-switch-failed'' ''delay-queued-switch'' 0 s' \<and> dq_items s' = [(3, 2), (6, 1), (1, 4)]"
proof -
  have "tid (tcb_at 0 busy) = 1" by (simp add: tcb_at_def busy_tcb sample_tasks_def sample_task_def)
  then show ?thesis
    using dly_tsk_delays[OF busy_os_inv, of demo_env 4] by (auto simp: busy_views busy_running)
qed

end
