(* ===== verification/Task_Props.thy ===== *)
theory Task_Props
  imports Boot_Inv
begin

section \<open>Properties of the task services\<close>

text \<open>
  Registration and creation as insertions into a table keyed by the task id, the life of a task
  through start, sleep and wakeup, and the request a service leaves when the task it made READY
  should preempt its caller.
\<close>

subsection \<open>Registration\<close>

text \<open>The result of \<open>task_register\<close>, in the order of its checks.\<close>

definition register_result :: "c_string \<Rightarrow> u64 \<Rightarrow> u64 \<Rightarrow> u64 \<Rightarrow> 'a task_module_scheme \<Rightarrow> int" where
  "register_result name ent base sz s =
     (if name = None \<or> ent = 0 \<or> base = 0 \<or> sz = 0 then TASK_ERR_INVAL
      else if find_free_slot s = None then TASK_ERR_FULL
      else if TASK_ID_MAX \<le> next_task_id s then TASK_ERR_ID_OVERFLOW
      else next_task_id s)"

lemma register_fails:
  assumes "tasks_inv s" and "register_result name ent base sz s < 0"
  shows "task_register name ent prio base sz s = (register_result name ent base sz s, s)"
proof -
  have "0 < next_task_id s" using assms(1) by (simp add: tasks_inv_def tasks_ok_def)
  with assms(2) show ?thesis
    by (auto simp: register_result_def task_register_def allocate_task_id_def Let_def split: option.split if_splits)
qed

lemma register_inserts:
  assumes "tasks_inv s" and "\<not> register_result name ent base sz s < 0"
  obtains i where "find_free_slot s = Some i" and "base \<noteq> 0" and "register_result name ent base sz s = next_task_id s"
    and "fst (task_register name ent prio base sz s) = next_task_id s"
    and "task_table (snd (task_register name ent prio base sz s)) = (task_table s)[i := task_configure_slot
      (next_task_id s) name ent prio base sz TASK_STATE_READY (task_table s ! i)]"
    and "0 < next_task_id s" and "lookup_tcb (next_task_id s) (task_table s) = None"
proof -
  have ok: "tasks_ok (task_table s) (next_task_id s)" using assms(1) by (simp add: tasks_inv_def)
  from assms(2) obtain i where i: "find_free_slot s = Some i"
    and valid: "\<not> (name = None \<or> ent = 0 \<or> base = 0 \<or> sz = 0)"
    and n: "next_task_id s < TASK_ID_MAX" and r: "register_result name ent base sz s = next_task_id s"
    by (auto simp: register_result_def split: if_splits)
  note pos = tasks_okD(3)[OF ok]
  have "lookup_tcb (next_task_id s) (task_table s) = None" using fresh_task_id[OF ok] by simp
  moreover have "fst (task_register name ent prio base sz s) = next_task_id s"
    "task_table (snd (task_register name ent prio base sz s)) = (task_table s)[i := task_configure_slot
      (next_task_id s) name ent prio base sz TASK_STATE_READY (task_table s ! i)]"
    using i valid n pos by (auto simp: task_register_def allocate_task_id_def Let_def task_table_upd_tcb)
  ultimately show thesis using that[OF i] valid r pos by blast
qed

text \<open>
  C25. \<open>task_register\<close> either gives a fresh id under which the new READY task with the given attributes
  and an empty stack is found, and leaves every other task as it was; or it returns the error of
  the first check that fails and changes nothing at all.
\<close>

theorem register_then_lookup:
  assumes "tasks_inv s"
  shows "fst (task_register name ent prio base sz s) = register_result name ent base sz s \<and>
    (if register_result name ent base sz s < 0 then snd (task_register name ent prio base sz s) = s
     else tcb_of (register_result name ent base sz s) (task_table s) = None \<and>
       (\<exists>t. (\<forall>k. tcb_of k (task_table (snd (task_register name ent prio base sz s)))
            = (if k = register_result name ent base sz s then Some t else tcb_of k (task_table s))) \<and>
          tname t = name \<and> entry t = ent \<and> priority t = prio \<and> tstate t = TASK_STATE_READY \<and>
          stack_base t = base \<and> stack_size t = sz \<and> stack_top t = base + sz \<and> rsp (tcontext t) = base + sz))"
proof (cases "register_result name ent base sz s < 0")
  case True
  with register_fails[OF assms True] show ?thesis by simp
next
  case False
  from register_inserts[OF assms False, of prio] obtain i where i: "find_free_slot s = Some i"
    and r: "register_result name ent base sz s = next_task_id s"
    and reg: "fst (task_register name ent prio base sz s) = next_task_id s"
      "task_table (snd (task_register name ent prio base sz s)) = (task_table s)[i := task_configure_slot
        (next_task_id s) name ent prio base sz TASK_STATE_READY (task_table s ! i)]"
    and pos: "0 < next_task_id s" and fresh: "lookup_tcb (next_task_id s) (task_table s) = None" by metis
  let ?t = "task_configure_slot (next_task_id s) name ent prio base sz TASK_STATE_READY (task_table s ! i)"
  have t: "tcb_used ?t" "0 < tid ?t" "lookup_tcb (tid ?t) (task_table s) = None"
    using pos fresh by (simp_all add: tcb_used_def)
  have at: "tcb_of k ((task_table s)[i := ?t]) = (if k = next_task_id s then Some ?t else tcb_of k (task_table s))" for k
    using tcb_of_insert[OF find_free_slot_SomeD[OF i] t, of k] by simp
  have "tcb_of (next_task_id s) (task_table s) = None" using fresh by (simp add: tcb_of_def)
  with False show ?thesis by (simp add: r reg at)
qed

lemma register_then_lookup_witness:
  "fst (task_register (Some ''new'') 9 4 4096 512 busy) = 1000 \<and>
   (\<exists>t. tcb_of 1000 (task_table (snd (task_register (Some ''new'') 9 4 4096 512 busy))) = Some t \<and>
      priority t = 4 \<and> stack_top t = 4608)"
proof -
  have inv: "tasks_inv busy" using kernel_invD(1)[OF busy_inv] by (simp add: wait_inv_def)
  have "find_free_slot busy = Some 9" unfolding find_free_slot_def busy_lookup(1) by code_simp
  then have "register_result (Some ''new'') 9 4096 512 busy = 1000"
    by (simp add: register_result_def) (simp add: busy_def sample_state_def)
  with register_then_lookup[OF inv, of "Some ''new''" 9 4 4096 512] show ?thesis by auto
qed

subsection \<open>Creation\<close>

text \<open>The result of \<open>cre_tsk\<close>, in the order of its checks.\<close>

definition create_result :: "int \<Rightarrow> itron_task_create_param_t option \<Rightarrow> 'a task_module_scheme \<Rightarrow> int" where
  "create_result k pk s =
     (if k \<le> 0 then E_ID
      else case pk of
        None \<Rightarrow> E_PAR
      | Some p \<Rightarrow>
          if ctsk_entry p = 0 \<or> ctsk_stack_base p = 0 \<or> ctsk_stack_size p = 0 \<or> ctsk_name p = None then E_PAR
          else if lookup_tcb k (task_table s) \<noteq> None \<or> find_free_slot s = None then E_OBJ
          else E_OK)"

lemma find_free_slot_say [simp]: "find_free_slot (say f s) = find_free_slot s"
  by (simp add: find_free_slot_def)

lemma cre_tsk_rejects:
  assumes "create_result k pk s \<noteq> E_OK"
  shows "fst (cre_tsk k pk s) = create_result k pk s" and "core (snd (cre_tsk k pk s)) = core s"
proof -
  have in_use: "task_id_is_in_use k s' = (lookup_tcb k (task_table s') \<noteq> None)" if "0 < k" for s' :: "'a dispatcher_module_scheme"
    using that by (rule task_id_in_use_lookup)
  show "fst (cre_tsk k pk s) = create_result k pk s" "core (snd (cre_tsk k pk s)) = core s"
    using assms in_use
    by (auto simp: cre_tsk_def create_result_def task_create_dormant_def completed_def Let_def
        split: option.split if_splits)
qed

lemma cre_tsk_creates:
  assumes "create_result k (Some p) s = E_OK"
  obtains i where "find_free_slot s = Some i" and "fst (cre_tsk k (Some p) s) = E_OK"
    and "task_table (snd (cre_tsk k (Some p) s)) = (task_table s)[i := task_configure_slot k (ctsk_name p)
      (ctsk_entry p) (ctsk_priority p) (ctsk_stack_base p) (ctsk_stack_size p) TASK_STATE_DORMANT (task_table s ! i)]"
    and "0 < k" and "lookup_tcb k (task_table s) = None"
    and "current_task (snd (cre_tsk k (Some p) s)) = current_task s"
proof -
  from assms obtain i where i: "find_free_slot s = Some i" "0 < k" "lookup_tcb k (task_table s) = None"
    and valid: "\<not> (ctsk_entry p = 0 \<or> ctsk_stack_base p = 0 \<or> ctsk_stack_size p = 0 \<or> ctsk_name p = None)"
    by (auto simp: create_result_def split: if_splits)
  then obtain n where n: "ctsk_name p = Some n" by auto
  have "\<not> task_id_is_in_use k s'" if "task_table s' = task_table s" for s' :: "'a dispatcher_module_scheme"
    using i that by (simp add: task_id_in_use_lookup)
  moreover have "find_free_slot s' = Some i" if "task_table s' = task_table s" for s' :: "'a dispatcher_module_scheme"
    using i(1) that by (simp add: find_free_slot_def)
  ultimately show thesis
    using that[OF i(1)] i(2,3) valid n
    by (simp add: cre_tsk_def task_create_dormant_def completed_def Let_def task_table_upd_tcb)
qed

text \<open>The whole state after \<open>cre_tsk\<close>, but for the text on the console.\<close>

lemma cre_tsk_state:
  fixes s s' :: "'a dispatcher_module_scheme"
  assumes s': "s' = snd (cre_tsk k pk s)"
  shows "create_result k pk s \<noteq> E_OK \<Longrightarrow> s' = s\<lparr>con := con s'\<rparr>"
    and "create_result k (Some p) s = E_OK \<Longrightarrow> pk = Some p \<Longrightarrow> find_free_slot s = Some i \<Longrightarrow>
      s' = s\<lparr>con := con s', task_table := (task_table s)[i := task_configure_slot k (ctsk_name p) (ctsk_entry p)
          (ctsk_priority p) (ctsk_stack_base p) (ctsk_stack_size p) TASK_STATE_DORMANT (task_table s ! i)],
        next_task_id := (if next_task_id s \<le> k then wrap_int (k + 1) else next_task_id s)\<rparr>"
proof -
  have more: "task_module.more (say f u) = task_module.more u" "task_module.more (upd_tcb i g u) = task_module.more u"
    for f i g and u :: "'a dispatcher_module_scheme"
    by (simp_all add: say_def writes_def upd_tcb_def)
  have other: "task_module.more s' = task_module.more s"
    unfolding s' cre_tsk_def task_create_dormant_def completed_def
    by (auto simp: Let_def more split: option.split prod.split)
  show "s' = s\<lparr>con := con s'\<rparr>" if "create_result k pk s \<noteq> E_OK"
    using cre_tsk_rejects(2)[OF that] other s' by (intro task_module.equality) (simp_all add: core_def)
  assume ok: "create_result k (Some p) s = E_OK" and pk: "pk = Some p" and i: "find_free_slot s = Some i"
  have "\<not> task_id_is_in_use k u" if "task_table u = task_table s" for u :: "'a dispatcher_module_scheme"
    using ok that by (simp add: create_result_def task_id_in_use_lookup split: if_splits)
  moreover have "find_free_slot u = Some i" if "task_table u = task_table s" for u :: "'a dispatcher_module_scheme"
    using i that by (simp add: find_free_slot_def)
  ultimately have "next_task_id s' = (if next_task_id s \<le> k then wrap_int (k + 1) else next_task_id s)"
    using ok unfolding s' pk
    by (auto simp: cre_tsk_def create_result_def task_create_dormant_def completed_def Let_def split: if_splits)
  with cre_tsk_creates[OF ok] other i show "s' = s\<lparr>con := con s', task_table := (task_table s)[i := task_configure_slot k
        (ctsk_name p) (ctsk_entry p) (ctsk_priority p) (ctsk_stack_base p) (ctsk_stack_size p) TASK_STATE_DORMANT
        (task_table s ! i)], next_task_id := (if next_task_id s \<le> k then wrap_int (k + 1) else next_task_id s)\<rparr>"
    unfolding s' pk by (intro task_module.equality) auto
qed

text \<open>
  C24. \<open>cre_tsk\<close> checks the id, the parameters, the use of the id and the room in the table, in this
  order, and an error changes nothing but the console. A success adds one DORMANT task with the given
  attributes, stack included, under this id, in a slot that was free, moves the id counter behind this id,
  and changes nothing else: no other task, no semaphore, no delay entry, not the current task and not
  the request.
\<close>

theorem cre_tsk_spec:
  fixes s :: "'a dispatcher_module_scheme"
  shows "fst (cre_tsk k pk s) = create_result k pk s \<and>
    (case pk of
       Some p \<Rightarrow>
         if create_result k pk s = E_OK
         then tcb_of k (task_table s) = None \<and>
           (\<exists>i t. find_free_slot s = Some i \<and>
              snd (cre_tsk k pk s) = s\<lparr>con := con (snd (cre_tsk k pk s)), task_table := (task_table s)[i := t],
                next_task_id := (if next_task_id s \<le> k then wrap_int (k + 1) else next_task_id s)\<rparr> \<and>
              (\<forall>j. tcb_of j (task_table (snd (cre_tsk k pk s))) = (if j = k then Some t else tcb_of j (task_table s))) \<and>
              tname t = ctsk_name p \<and>
              entry t = ctsk_entry p \<and> priority t = ctsk_priority p \<and> tstate t = TASK_STATE_DORMANT \<and>
              stack_base t = ctsk_stack_base p \<and> stack_size t = ctsk_stack_size p \<and>
              stack_top t = ctsk_stack_base p + ctsk_stack_size p \<and>
              rsp (tcontext t) = ctsk_stack_base p + ctsk_stack_size p)
         else snd (cre_tsk k pk s) = s\<lparr>con := con (snd (cre_tsk k pk s))\<rparr>
     | None \<Rightarrow> snd (cre_tsk k pk s) = s\<lparr>con := con (snd (cre_tsk k pk s))\<rparr>)"
proof (cases "create_result k pk s = E_OK")
  case False
  with cre_tsk_rejects(1)[OF False] cre_tsk_state(1)[OF refl False] show ?thesis by (cases pk) simp_all
next
  case True
  then obtain p where p: "pk = Some p" by (auto simp: create_result_def split: if_splits option.splits)
  from cre_tsk_creates[OF True[unfolded p]] obtain i where
    i: "find_free_slot s = Some i" "fst (cre_tsk k (Some p) s) = E_OK" "0 < k" "lookup_tcb k (task_table s) = None"
    and tt: "task_table (snd (cre_tsk k (Some p) s)) = (task_table s)[i := task_configure_slot k (ctsk_name p)
      (ctsk_entry p) (ctsk_priority p) (ctsk_stack_base p) (ctsk_stack_size p) TASK_STATE_DORMANT (task_table s ! i)]"
    by metis
  note slot = find_free_slot_SomeD[OF i(1)]
  let ?t = "task_configure_slot k (ctsk_name p) (ctsk_entry p) (ctsk_priority p) (ctsk_stack_base p)
      (ctsk_stack_size p) TASK_STATE_DORMANT (task_table s ! i)"
  have t: "tcb_used ?t" "0 < tid ?t" "lookup_tcb (tid ?t) (task_table s) = None"
    using i by (simp_all add: tcb_used_def)
  have others: "tcb_of j (task_table (snd (cre_tsk k pk s))) = (if j = k then Some ?t else tcb_of j (task_table s))" for j
    using tcb_of_insert[OF slot t, of j] tt p by simp
  have "tcb_of k (task_table s) = None" using i(4) by (simp add: tcb_of_def)
  moreover have "tname ?t = ctsk_name p" "entry ?t = ctsk_entry p" "priority ?t = ctsk_priority p"
    "tstate ?t = TASK_STATE_DORMANT" "stack_base ?t = ctsk_stack_base p" "stack_size ?t = ctsk_stack_size p"
    "stack_top ?t = ctsk_stack_base p + ctsk_stack_size p" "rsp (tcontext ?t) = ctsk_stack_base p + ctsk_stack_size p"
    by simp_all
  moreover note cre_tsk_state(2)[OF refl True[unfolded p] p i(1)]
  ultimately show ?thesis using i(1,2) True p others by (simp only: option.case if_True simp_thms) blast
qed


definition demo_param :: itron_task_create_param_t where
  "demo_param = \<lparr>ctsk_entry = 4096, ctsk_priority = 3, ctsk_stack_base = 8192, ctsk_stack_size = 1024,
     ctsk_name = Some ''demo''\<rparr>"

lemma busy_free: "find_free_slot busy = Some 9"
  unfolding find_free_slot_def busy_lookup(1) by code_simp

lemma busy_create: "k \<notin> {1..9} \<Longrightarrow> 0 < k \<Longrightarrow> create_result k (Some demo_param) busy = E_OK"
  by (simp add: create_result_def demo_param_def busy_lookup(2) busy_free)
    (auto simp: sample_tasks_def sample_task_def)






subsection \<open>Start and wakeup\<close>

lemma ready_requests:
  assumes "task_get_by_id k s = Some i"
  shows "\<exists>s'. sta_tsk_ready cur k s = (E_OK, s') \<and> core s' = core s \<and>
      dispatch_pending_state s' = ready_request DISPATCH_PENDING_TASK_START cur i s"
    and "\<exists>s'. wup_tsk_ready cur k s = (E_OK, s') \<and> core s' = core s \<and>
      dispatch_pending_state s' = ready_request DISPATCH_PENDING_TASK_WAKEUP cur i s"
  using assms
  by (auto simp: sta_tsk_ready_def wup_tsk_ready_def ready_request_def dispatch_request_from_task_start_def
      dispatch_request_from_task_wakeup_def pending_request_def Let_def completed_def split: option.split)

lemma sta_tsk_result:
  fixes s :: "'a pending_module_scheme"
  shows "case lookup_tcb k (task_table s) of
      None \<Rightarrow> fst (sta_tsk k s) = E_ID \<and> core (snd (sta_tsk k s)) = core s \<and>
          dispatch_pending_state (snd (sta_tsk k s)) = dispatch_pending_state s
    | Some i \<Rightarrow>
        if tstate (tcb_at i s) \<noteq> TASK_STATE_DORMANT
        then fst (sta_tsk k s) = E_OBJ \<and> core (snd (sta_tsk k s)) = core s \<and>
          dispatch_pending_state (snd (sta_tsk k s)) = dispatch_pending_state s
        else fst (sta_tsk k s) = E_OK \<and>
          core (snd (sta_tsk k s)) = core (upd_tcb i (tcb_enter TASK_STATE_READY 0 TASK_WAIT_REASON_NONE 0) s) \<and>
          dispatch_pending_state (snd (sta_tsk k s))
            = ready_request DISPATCH_PENDING_TASK_START (current_task s) i s"
proof -
  define s0 where "s0 = say (\<lambda>s'. [''[sta-tsk] called: tskid='', mag_str k] @ log_current (current_task s) s') s"
  have s0: "core s0 = core s" "task_table s0 = task_table s" "\<And>i. tcb_at i s0 = tcb_at i s"
    "dispatch_pending_state s0 = dispatch_pending_state s" "current_task s0 = current_task s"
    by (simp_all add: s0_def)
  show ?thesis
  proof (cases "lookup_tcb k (task_table s)")
    case None
    then have "task_get_by_id k s0 = None" by (simp add: task_get_by_id_def s0)
    with None s0(1,4) show ?thesis
      unfolding sta_tsk_def dispatcher_get_current_def Let_def s0_def[symmetric] by (simp add: completed_def)
  next
    case (Some i)
    then have get: "task_get_by_id k s0 = Some i" by (simp add: task_get_by_id_def s0)
    note slot = tasks.lookup_SomeD[OF Some]
    show ?thesis
    proof (cases "tstate (tcb_at i s) = TASK_STATE_DORMANT")
      case False
      with Some get slot(4) s0 show ?thesis
        unfolding sta_tsk_def dispatcher_get_current_def Let_def s0_def[symmetric] by (simp add: completed_def)
    next
      case True
      let ?enter = "tcb_enter TASK_STATE_READY 0 TASK_WAIT_REASON_NONE 0"
      obtain f where f: "task_start_dormant k s0 = (0, say f (upd_tcb i ?enter s0))"
        using Some True slot(4) s0 by (auto simp: task_start_dormant_def scan_task_id_lookup Let_def)
      define s1 where "s1 = say f (upd_tcb i ?enter s0)"
      have "task_get_by_id k s1 = Some i"
        using lookup_upd_enter[of k s0 i TASK_STATE_READY k 0 TASK_WAIT_REASON_NONE 0] Some
        by (simp add: s1_def task_get_by_id_def s0)
      from ready_requests(1)[OF this, of "current_task s"] obtain s2 where
        s2: "sta_tsk_ready (current_task s) k s1 = (E_OK, s2)" "core s2 = core s1"
          "dispatch_pending_state s2 = ready_request DISPATCH_PENDING_TASK_START (current_task s) i s1" by blast
      have "sta_tsk k s = (E_OK, s2)"
        using get True slot(4) s0 f[folded s1_def] s2(1)
        unfolding sta_tsk_def dispatcher_get_current_def Let_def s0_def[symmetric] by simp
      moreover have "ready_request r cur i s1 = ready_request r cur i s" for r cur
        using slot(1) True s0 by (intro ready_request_same) (simp_all add: s1_def task_table_upd_tcb)
      moreover have "core s1 = core (upd_tcb i ?enter s)"
        using core_eqD[OF s0(1)] by (simp add: core_def s1_def task_table_upd_tcb)
      ultimately show ?thesis using Some True s2 by simp
    qed
  qed
qed

text \<open>
  C23. \<open>sta_tsk\<close> starts a DORMANT task: its TCB becomes READY without wait data, no other task, queue or
  count changes, and a request for a switch is left exactly when it should preempt a RUNNING caller.
  An unknown id and a task in another state are refused with their error codes and change nothing.
\<close>

theorem sta_tsk_spec:
  fixes s :: "'a pending_module_scheme"
  shows "case lookup_tcb k (task_table s) of
      None \<Rightarrow> fst (sta_tsk k s) = E_ID \<and> core (snd (sta_tsk k s)) = core s \<and>
          dispatch_pending_state (snd (sta_tsk k s)) = dispatch_pending_state s
    | Some i \<Rightarrow>
        if tstate (tcb_at i s) \<noteq> TASK_STATE_DORMANT
        then fst (sta_tsk k s) = E_OBJ \<and> core (snd (sta_tsk k s)) = core s \<and>
          dispatch_pending_state (snd (sta_tsk k s)) = dispatch_pending_state s
        else fst (sta_tsk k s) = E_OK \<and>
          core (snd (sta_tsk k s)) = core (upd_tcb i (tcb_enter TASK_STATE_READY 0 TASK_WAIT_REASON_NONE 0) s) \<and>
          dispatch_pending_state (snd (sta_tsk k s))
            = ready_request DISPATCH_PENDING_TASK_START (current_task s) i s"
  by (rule sta_tsk_result)

lemma wup_tsk_result:
  fixes s :: "'a pending_module_scheme"
  shows "case lookup_tcb k (task_table s) of
      None \<Rightarrow> fst (wup_tsk k s) = E_ID \<and> core (snd (wup_tsk k s)) = core s \<and>
          dispatch_pending_state (snd (wup_tsk k s)) = dispatch_pending_state s
    | Some i \<Rightarrow>
        if tstate (tcb_at i s) = TASK_STATE_WAITING \<and> wait_reason (tcb_at i s) = TASK_WAIT_REASON_SLEEP
        then fst (wup_tsk k s) = E_OK \<and>
          core (snd (wup_tsk k s)) = core (upd_tcb i (tcb_enter TASK_STATE_READY 0 TASK_WAIT_REASON_NONE 0) s) \<and>
          dispatch_pending_state (snd (wup_tsk k s))
            = ready_request DISPATCH_PENDING_TASK_WAKEUP (current_task s) i s
        else fst (wup_tsk k s) = E_OBJ \<and> core (snd (wup_tsk k s)) = core s \<and>
          dispatch_pending_state (snd (wup_tsk k s)) = dispatch_pending_state s"
proof -
  define s0 where "s0 = say (\<lambda>s'. [''[wup-tsk] called: tskid='', mag_str k] @ log_current (current_task s) s') s"
  have s0: "core s0 = core s" "task_table s0 = task_table s" "\<And>i. tcb_at i s0 = tcb_at i s"
    "dispatch_pending_state s0 = dispatch_pending_state s" "current_task s0 = current_task s"
    by (simp_all add: s0_def)
  show ?thesis
  proof (cases "lookup_tcb k (task_table s)")
    case None
    then have "task_get_by_id k s0 = None" by (simp add: task_get_by_id_def s0)
    with None s0(1,4) show ?thesis
      unfolding wup_tsk_def dispatcher_get_current_def Let_def s0_def[symmetric] by (simp add: completed_def)
  next
    case (Some i)
    then have get: "task_get_by_id k s0 = Some i" by (simp add: task_get_by_id_def s0)
    note slot = tasks.lookup_SomeD[OF Some]
    show ?thesis
    proof (cases "tstate (tcb_at i s) = TASK_STATE_WAITING \<and> wait_reason (tcb_at i s) = TASK_WAIT_REASON_SLEEP")
      case False
      with Some get slot(4) s0 show ?thesis
        unfolding wup_tsk_def dispatcher_get_current_def Let_def s0_def[symmetric] by (auto simp: completed_def)
    next
      case True
      let ?enter = "tcb_enter TASK_STATE_READY 0 TASK_WAIT_REASON_NONE 0"
      obtain f where f: "task_wake_waiting_on_sleep_by_id k s0 = (0, say f (upd_tcb i ?enter s0))"
        using Some True slot(4) s0
        by (auto simp: task_wake_waiting_on_sleep_by_id_def task_get_mutable_by_id_def Let_def)
      define s1 where "s1 = say f (upd_tcb i ?enter s0)"
      have "task_get_by_id k s1 = Some i"
        using lookup_upd_enter[of k s0 i TASK_STATE_READY k 0 TASK_WAIT_REASON_NONE 0] Some
        by (simp add: s1_def task_get_by_id_def s0)
      from ready_requests(2)[OF this, of "current_task s"] obtain s2 where
        s2: "wup_tsk_ready (current_task s) k s1 = (E_OK, s2)" "core s2 = core s1"
          "dispatch_pending_state s2 = ready_request DISPATCH_PENDING_TASK_WAKEUP (current_task s) i s1" by blast
      have "wup_tsk k s = (E_OK, s2)"
        using get True slot(4) s0 f[folded s1_def] s2(1)
        unfolding wup_tsk_def dispatcher_get_current_def Let_def s0_def[symmetric] by simp
      moreover have "ready_request r cur i s1 = ready_request r cur i s" for r cur
        using slot(1) True s0 by (intro ready_request_same) (simp_all add: s1_def task_table_upd_tcb)
      moreover have "core s1 = core (upd_tcb i ?enter s)"
        using core_eqD[OF s0(1)] by (simp add: core_def s1_def task_table_upd_tcb)
      ultimately show ?thesis using Some True s2 by simp
    qed
  qed
qed

text \<open>
  C22. \<open>wup_tsk\<close> wakes a sleeping task and no other: a task that waits for a semaphore or a delay is
  refused with \<open>E_OBJ\<close>, an unknown id with \<open>E_ID\<close>, and neither changes anything. The request it leaves
  obeys the same rule as that of \<open>sta_tsk\<close>.
\<close>

theorem wup_tsk_spec:
  fixes s :: "'a pending_module_scheme"
  shows "case lookup_tcb k (task_table s) of
      None \<Rightarrow> fst (wup_tsk k s) = E_ID \<and> core (snd (wup_tsk k s)) = core s \<and>
          dispatch_pending_state (snd (wup_tsk k s)) = dispatch_pending_state s
    | Some i \<Rightarrow>
        if tstate (tcb_at i s) = TASK_STATE_WAITING \<and> wait_reason (tcb_at i s) = TASK_WAIT_REASON_SLEEP
        then fst (wup_tsk k s) = E_OK \<and>
          core (snd (wup_tsk k s)) = core (upd_tcb i (tcb_enter TASK_STATE_READY 0 TASK_WAIT_REASON_NONE 0) s) \<and>
          dispatch_pending_state (snd (wup_tsk k s))
            = ready_request DISPATCH_PENDING_TASK_WAKEUP (current_task s) i s
        else fst (wup_tsk k s) = E_OBJ \<and> core (snd (wup_tsk k s)) = core s \<and>
          dispatch_pending_state (snd (wup_tsk k s)) = dispatch_pending_state s"
  by (rule wup_tsk_result)

subsection \<open>The life of a task\<close>

lemma task_table_core: "core s' = core s \<Longrightarrow> task_table s' = task_table s"
  by (rule core_eqD(1))

text \<open>
  A created task can be started once: after \<open>cre_tsk\<close> the task is DORMANT, \<open>sta_tsk\<close> makes it READY with
  the stack pointer at the top of its stack, and a second \<open>sta_tsk\<close> or a second \<open>cre_tsk\<close> with the same id
  fails with \<open>E_OBJ\<close> and changes nothing.
\<close>

theorem create_start_lifecycle:
  fixes s :: "'a pending_module_scheme"
  assumes ok: "create_result k (Some p) s = E_OK"
    and s1: "s1 = snd (cre_tsk k (Some p) s)" and s2: "s2 = snd (sta_tsk k s1)"
  shows "fst (sta_tsk k s1) = E_OK \<and>
    (\<exists>t. tcb_of k (task_table s2) = Some t \<and> tstate t = TASK_STATE_READY \<and>
       entry t = ctsk_entry p \<and> rsp (tcontext t) = ctsk_stack_base p + ctsk_stack_size p) \<and>
    fst (sta_tsk k s2) = E_OBJ \<and> core (snd (sta_tsk k s2)) = core s2 \<and>
    fst (cre_tsk k (Some p) s2) = E_OBJ \<and> core (snd (cre_tsk k (Some p) s2)) = core s2"
proof -
  let ?conf = "task_configure_slot k (ctsk_name p) (ctsk_entry p) (ctsk_priority p) (ctsk_stack_base p)
      (ctsk_stack_size p) TASK_STATE_DORMANT"
  from cre_tsk_creates[OF ok] obtain i where i: "find_free_slot s = Some i" "0 < k"
    "lookup_tcb k (task_table s) = None" and tt1: "task_table s1 = (task_table s)[i := ?conf (task_table s ! i)]"
    unfolding s1 by metis
  note slot = find_free_slot_SomeD[OF i(1)]
  have look1: "lookup_tcb k (task_table s1) = Some i"
    using tasks.lookup_insert[OF slot, of "?conf (task_table s ! i)" k] i by (simp add: tt1 tcb_used_def)
  have at1: "tcb_at i s1 = ?conf (task_table s ! i)" using slot by (simp add: tcb_at_def tt1)
  let ?enter = "tcb_enter TASK_STATE_READY 0 TASK_WAIT_REASON_NONE 0"
  have start: "fst (sta_tsk k s1) = E_OK" "core s2 = core (upd_tcb i ?enter s1)"
    using sta_tsk_result[of k s1] by (simp_all add: look1 at1 s2)
  have tt2: "task_table s2 = (task_table s1)[i := ?enter (tcb_at i s1)]"
    using task_table_core[OF start(2)] by (simp add: task_table_upd_tcb tcb_at_def)
  have look2: "lookup_tcb k (task_table s2) = Some i"
    unfolding tt2 using tasks.lookup_SomeD[OF look1] look1
    by (subst tasks.lookup_update_same) (simp_all add: tcb_at_def)
  have at2: "tcb_at i s2 = ?enter (?conf (task_table s ! i))"
    using slot at1 by (simp add: tcb_at_def tt2) (simp add: tt1 tcb_at_def)
  have again: "create_result k (Some p) s2 = E_OBJ"
    using ok look2 by (simp add: create_result_def split: if_splits)
  show ?thesis
    using start(1) sta_tsk_result[of k s2] at2 look2 cre_tsk_rejects[of k "Some p" s2] again
    by (simp add: tcb_of_def) (simp add: tcb_at_def)
qed

text \<open>
  C30. A wakeup undoes a sleep: when no other task is READY, \<open>slp_tsk\<close> makes the caller WAITING and
  returns, and \<open>wup_tsk\<close> with its id makes it READY again; apart from the state of this task the
  table, the queues and the counts are as before.
\<close>

theorem sleep_wakeup_roundtrip:
  fixes s :: "'a pending_module_scheme"
  assumes inv: "os_inv s" and c: "current_task s = Some c" "tstate (tcb_at c s) = TASK_STATE_RUNNING"
    and alone: "ready_slots (task_table s) = {}"
  shows "\<exists>s1. slp_tsk env s = Some (E_OK, s1) \<and>
    tstate (tcb_at c s1) = TASK_STATE_WAITING \<and> wait_reason (tcb_at c s1) = TASK_WAIT_REASON_SLEEP \<and>
    fst (wup_tsk (tid (tcb_at c s)) s1) = E_OK \<and>
    core (snd (wup_tsk (tid (tcb_at c s)) s1)) = core (upd_tcb c (\<lambda>t. t\<lparr>tstate := TASK_STATE_READY\<rparr>) s)"
proof -
  let ?k = "tid (tcb_at c s)" and ?sleep = "tcb_enter TASK_STATE_WAITING 0 TASK_WAIT_REASON_SLEEP 0"
  note cu = os_inv_current[OF inv c(1)]
  note slot = tasks.lookup_SomeD[OF cu(3)]
  define s0 where "s0 = tcb_say c (\<lambda>t. [''[slp-tsk] called: current''] @ itron_api_log_next_candidate t @ [''\<newline>'']) s"
  have s0: "os_inv s0" "tcb_at c s0 = tcb_at c s" "core s0 = core s" "current_task s0 = Some c"
    "task_table s0 = task_table s"
    using inv c by (simp_all add: s0_def)
  have run0: "tstate (tcb_at c s0) = TASK_STATE_RUNNING" using c(2) s0(2) by simp
  obtain f where f: "task_mark_waiting_on_sleep ?k s0 = (0, say f (upd_tcb c ?sleep s0))"
    using cu(3) run0 slot(4) s0 by (auto simp: task_mark_waiting_on_sleep_def task_get_mutable_by_id_def Let_def)
  define s1 where "s1 = say f (upd_tcb c ?sleep s0)"
  have tt1: "task_table s1 = (task_table s)[c := ?sleep (tcb_at c s)]"
    by (simp add: s1_def task_table_upd_tcb s0(5) tcb_at_def)
  have "ready_slots (task_table s1) = {}"
    using alone slot(1) by (auto simp: tt1 ready_slots_def nth_list_update)
  then have none: "scheduler_select_next s1 = None"
    using sched.select_None[of "task_table s1"] os_invD(3)[OF inv]
    by (simp add: scheduler_select_next_table tt1)
  obtain g h where slp: "slp_tsk env s = Some (E_OK, say g (say h s1))"
    using c none f[folded s1_def] s0(2)
    unfolding slp_tsk_def dispatcher_get_current_def c(1) option.case Let_def s0_def[symmetric]
    by (auto simp: slp_tsk_switch_def completed_def)
  define s2 where "s2 = say g (say h s1)"
  have at2: "tcb_at c s2 = ?sleep (tcb_at c s)" using slot(1) by (simp add: s2_def tcb_at_def tt1)
  have look2: "lookup_tcb ?k (task_table s2) = Some c"
    using slot cu(3) by (simp add: s2_def tt1) (subst tasks.lookup_update_same; simp add: tcb_at_def)
  have wup: "fst (wup_tsk ?k s2) = E_OK"
    "core (snd (wup_tsk ?k s2)) = core (upd_tcb c (tcb_enter TASK_STATE_READY 0 TASK_WAIT_REASON_NONE 0) s2)"
    using wup_tsk_result[of ?k s2] by (simp_all add: look2 at2)
  have data: "wait_data_ok (tcb_at c s)" using kernel_inv_data[OF os_invD(2)[OF inv] cu(3)] by (simp add: tcb_at_def)
  have "tcb_enter TASK_STATE_READY 0 TASK_WAIT_REASON_NONE 0 (tcb_at c s) = (tcb_at c s)\<lparr>tstate := TASK_STATE_READY\<rparr>"
    using data c(2) by (cases "tcb_at c s") (auto simp: wait_data_ok_def tcb_enter_def sem_reason_def timed_reason_def)
  then have "core (upd_tcb c (tcb_enter TASK_STATE_READY 0 TASK_WAIT_REASON_NONE 0) s2)
      = core (upd_tcb c (\<lambda>t. t\<lparr>tstate := TASK_STATE_READY\<rparr>) s)"
    using slot(1) core_eqD[OF s0(3)] by (simp add: core_def task_table_upd_tcb s2_def tt1) (simp add: s1_def tcb_at_def)
  with slp[folded s2_def] at2 wup show ?thesis by auto
qed

text \<open>A state with one RUNNING and one sleeping task.\<close>

definition lonely :: pending_module where
  "lonely = sample_state [sample_task 1 5 TASK_STATE_RUNNING 0 TASK_WAIT_REASON_NONE 0,
     sample_task 5 2 TASK_STATE_WAITING 0 TASK_WAIT_REASON_SLEEP 0] [] [] (Some 0)"

lemma lonely_os_inv: "os_inv lonely"
  unfolding lonely_def by (rule os_inv_sample) code_simp+

lemma lonely_fields:
  "current_task lonely = Some 0" "tstate (tcb_at 0 lonely) = TASK_STATE_RUNNING" "tid (tcb_at 0 lonely) = 1"
  "priority (tcb_at 0 lonely) = 5" "ready_slots (task_table lonely) = {}"
  by (simp_all add: lonely_def sample_state_def tcb_at_def padded_tasks_def sample_task_def ready_slots_def
      nth_append nth_Cons split: nat.split)

lemma sleep_wakeup_roundtrip_witness:
  "\<exists>s1. slp_tsk demo_env lonely = Some (E_OK, s1) \<and> tstate (tcb_at 0 s1) = TASK_STATE_WAITING \<and>
     fst (wup_tsk 1 s1) = E_OK"
  using sleep_wakeup_roundtrip[OF lonely_os_inv lonely_fields(1,2,5), of demo_env] by (auto simp: lonely_fields)

end
