(* ===== verification/Switch_Trace.thy ===== *)
theory Switch_Trace
  imports Dispatch_Inv
begin

section \<open>The states a switch leaves\<close>

text \<open>
  A switch runs the entries of the tasks it enters to their end. Here the entries keep the current
  task and the state of every task (\<open>entries_keep_states\<close>), so that what the kernel itself does to
  these states during a switch can be read off.
\<close>

definition run_view :: "'a dispatcher_module_scheme \<Rightarrow> nat option \<times> (nat \<Rightarrow> task_state_t)" where
  "run_view s = (current_task s, \<lambda>i. tstate (tcb_at i s))"

definition entries_keep_states :: "'a dispatcher_module_scheme kernel_env \<Rightarrow> bool" where
  "entries_keep_states env \<longleftrightarrow> (\<forall>a s s'. entry_body env a s = Some s' \<longrightarrow> run_view s' = run_view s)"

text \<open>The view in which the given tasks are DORMANT.\<close>

definition ended :: "nat set \<Rightarrow> nat option \<times> (nat \<Rightarrow> task_state_t) \<Rightarrow> nat option \<times> (nat \<Rightarrow> task_state_t)" where
  "ended is v = (fst v, \<lambda>i. if i \<in> is then TASK_STATE_DORMANT else snd v i)"

lemma ended_ended: "ended A (ended B v) = ended (A \<union> B) v"
  by (auto simp: ended_def)

lemma run_view_say [simp]: "run_view (say f s) = run_view s"
  by (simp add: run_view_def)

lemma run_view_save [simp]: "run_view (save_context i c s) = run_view s"
  by (cases "i < length (task_table s)")
    (auto simp: run_view_def save_context_def tcb_at_def task_table_upd_tcb nth_update_eq_if list_update_beyond)

lemma run_view_updates [simp]:
  "run_view (s\<lparr>boot_context := c\<rparr>) = run_view s" "run_view (s\<lparr>active_task := a\<rparr>) = run_view s"
  "run_view (s\<lparr>task_to_task_smoke_from := p\<rparr>) = run_view s"
  "run_view (s\<lparr>task_to_task_smoke_to := p\<rparr>) = run_view s"
  by (simp_all add: run_view_def tcb_at_def)

lemma run_view_state: "run_view s = run_view s' \<Longrightarrow> tstate (tcb_at i s) = tstate (tcb_at i s')"
  by (simp add: run_view_def fun_eq_iff)

text \<open>A task whose entry has returned becomes DORMANT.\<close>

definition active_state :: "task_state_t \<Rightarrow> bool" where
  "active_state st \<longleftrightarrow> st = TASK_STATE_RUNNING \<or> st = TASK_STATE_READY"

lemma finalize_marks:
  assumes inv: "sys_inv s" and t: "t < MAX_TASKS" and st: "active_state (tstate (tcb_at t s))"
  shows "\<exists>g h. task_context_finalize t s
    = say h (upd_tcb t (tcb_enter TASK_STATE_DORMANT 0 TASK_WAIT_REASON_NONE 0) (say g s))"
proof -
  have used: "tcb_used (tcb_at t s)" using st by (auto simp: active_state_def tcb_used_def)
  note look = sys_inv_lookup[OF inv t used]
  have scan: "0 < tid (tcb_at t s)" "scan_task_id (tid (tcb_at t s)) (task_table s) = Some t"
    using tasks.lookup_SomeD(4)[OF look] look by (auto simp: lookup_tcb_def split: if_splits)
  have mark: "task_mark_dormant_from_entry_return (tid (tcb_at t s)) (say g s)
      = (0, upd_tcb t (tcb_enter TASK_STATE_DORMANT 0 TASK_WAIT_REASON_NONE 0) (say g s))" for g
    using scan st by (auto simp: task_mark_dormant_from_entry_return_def active_state_def)
  show ?thesis by (auto simp: task_context_finalize_def mark Let_def)
qed

text \<open>The stack that a task needs to be switched to.\<close>

definition stack_ok :: "tcb_t \<Rightarrow> bool" where
  "stack_ok t \<longleftrightarrow> stack_base t \<noteq> 0 \<and> stack_top t \<noteq> 0 \<and> 64 \<le> stack_size t \<and> rsp (tcontext t) \<noteq> 0"

lemma valid_stack_iff: "valid_stack i s \<longleftrightarrow> stack_ok (tcb_at i s)"
  by (auto simp: valid_stack_def context_validate_task_def stack_ok_def not_less)

lemma stack_ok_enter [simp]: "stack_ok (tcb_enter st m r d t) = stack_ok t"
  by (simp add: stack_ok_def tcb_enter_def)

text \<open>A switch that is not refused makes its transitions and enters the tasks.\<close>

lemma switch_enters:
  assumes inv: "os_inv s" and c: "current_task s = Some f" and f: "switchable (tstate (tcb_at f s))"
    and t: "t < MAX_TASKS" "tstate (tcb_at t s) = TASK_STATE_READY" "t \<noteq> f"
  obtains s2 where "dispatcher_switch_to env (Some f) (Some t) s = dispatcher_enter env f t s2" and "os_inv s2"
    and "core s2 = core (switched f t s)" and "dispatcher_module.more s2 = dispatcher_module.more s"
proof -
  define s1 where "s1 = say (\<lambda>s'. [''[dispatcher] switch boundary begin:'']
     @ dispatcher_log_task '' from'' (ptr_tcb (Some f) s')
     @ dispatcher_log_task '' to'' (ptr_tcb (Some t) s') @ [''\<newline>'']) s"
  have s1: "os_inv s1" "sys_inv s1" "current_task s1 = Some f" "tcb_at i s1 = tcb_at i s" for i
    using inv c by (simp_all add: s1_def os_inv_def no_reservation_def)
  have more1: "dispatcher_module.more s1 = dispatcher_module.more s" by (simp add: s1_def say_def writes_def)
  note fu = os_inv_current[OF inv c]
  obtain s2 where trans: "dispatcher_transitions f t s1 = (None, s2)" and s2: "sys_inv s2"
    "core s2 = core (switched f t s1)" "dispatcher_module.more s2 = dispatcher_module.more s"
    "task_to_task_smoke_from s2 = task_to_task_smoke_from s1"
    using transitions_spec[OF s1(2) fu(1) s1(3) t(1)] t(2,3) s1(4) more1 by auto
  have "core (switched f t s1) = core (switched f t s)"
    by (simp add: switched_def s1_def core_def task_table_upd_tcb)
  moreover have "os_inv s2" using s2(1,4) os_invD(4)[OF s1(1)] by (simp add: os_inv_def no_reservation_def)
  moreover have "dispatcher_switch_to env (Some f) (Some t) s = dispatcher_enter env f t s2"
    using trans t(2,3) f by (auto simp: dispatcher_switch_to_def s1_def[symmetric] switchable_def Let_def)
  ultimately show thesis using that s2(2,3) by simp
qed

text \<open>The two tasks between the transitions and the entries.\<close>

lemma switched_core:
  assumes "core (switched f t s) = core s2" and "length (task_table s) = MAX_TASKS" and "f < MAX_TASKS"
    and "t < MAX_TASKS" and "t \<noteq> f"
  shows "tcb_at t s2 = tcb_enter TASK_STATE_RUNNING 0 TASK_WAIT_REASON_NONE 0 (tcb_at t s)"
    and "tcb_at f s2 = (if tstate (tcb_at f s) = TASK_STATE_RUNNING
      then tcb_enter TASK_STATE_READY 0 TASK_WAIT_REASON_NONE 0 (tcb_at f s) else tcb_at f s)"
    and "i \<noteq> f \<Longrightarrow> i \<noteq> t \<Longrightarrow> tcb_at i s2 = tcb_at i s" and "current_task s2 = Some t"
  using core_eqD(1,7)[OF assms(1)[symmetric]] assms(2-5)
  by (simp_all add: switched_def tcb_at_def task_table_upd_tcb nth_update_eq_if)

subsection \<open>Views of the state that a switch changes by ending tasks only\<close>

text \<open>
  A view is a part of the state that neither the log nor a context nor the bookkeeping of a switch
  changes; \<open>stop t\<close> is what the end of the entry of task \<open>t\<close> does to it.
\<close>

locale switch_view =
  fixes view :: "'a pending_module_scheme \<Rightarrow> 'v" and stop :: "nat \<Rightarrow> 'v \<Rightarrow> 'v"
  assumes view_say [simp]: "view (say f s) = view s"
    and view_save [simp]: "view (save_context i c s) = view s"
    and view_fields [simp]: "view (s\<lparr>boot_context := c\<rparr>) = view s" "view (s\<lparr>active_task := a\<rparr>) = view s"
      "view (s\<lparr>task_to_task_smoke_from := p\<rparr>) = view s" "view (s\<lparr>task_to_task_smoke_to := p\<rparr>) = view s"
      "view (s\<lparr>stack_mem := m\<rparr>) = view s"
    and view_states: "view s = view s' \<Longrightarrow> tstate (tcb_at i s) = tstate (tcb_at i s')"
    and view_end: "t < length (task_table s) \<Longrightarrow>
      view (upd_tcb t (tcb_enter TASK_STATE_DORMANT 0 TASK_WAIT_REASON_NONE 0) s) = stop t (view s)"
    and stop_other: "view s' = stop t (view s) \<Longrightarrow> i \<noteq> t \<Longrightarrow> tstate (tcb_at i s') = tstate (tcb_at i s)"
begin

lemma view_reservation: "view (s\<lparr>task_to_task_smoke_from := p, task_to_task_smoke_to := q\<rparr>) = view s"
  using view_fields(3)[of p s] view_fields(4)[of q "s\<lparr>task_to_task_smoke_from := p\<rparr>"] by simp

lemma finalize_view:
  assumes "sys_inv s" and "t < MAX_TASKS" and "active_state (tstate (tcb_at t s))"
  shows "view (task_context_finalize t s) = stop t (view s)"
  using finalize_marks[OF assms] assms(2) sys_inv_length[OF assms(1)] by (auto simp: view_end)

lemma prepare_view:
  assumes "i < length (task_table s)" and "valid_stack i s"
    and "task_context_prepare_initial_frame env (Some i) s = (r, s')"
  shows "view s' = view s" and "task_to_task_smoke_from s' = task_to_task_smoke_from s"
proof -
  obtain f c where s': "s' = say f (upd_tcb i (\<lambda>t. t\<lparr>tcontext := c\<rparr>)
      (s\<lparr>stack_mem := (stack_mem s)(rsp c \<mapsto> trampoline_address env)\<rparr>))"
    using prepare_spec[OF assms(1,2), of env] assms(3) by auto
  have save: "view (upd_tcb i (\<lambda>t. t\<lparr>tcontext := c\<rparr>) s) = view s" for s
    using view_save[of i c s] by (simp add: save_context_def)
  show "view s' = view s" by (simp add: s' save)
  show "task_to_task_smoke_from s' = task_to_task_smoke_from s" by (simp add: s')
qed

end

text \<open>With entries that do not change the view, the view of every switch is known.\<close>

locale switch_trace = entry_contract env + switch_view view stop
  for env :: "'a pending_module_scheme kernel_env" and view :: "'a pending_module_scheme \<Rightarrow> 'v"
    and stop :: "nat \<Rightarrow> 'v \<Rightarrow> 'v" +
  assumes keeps: "entry_body env a s = Some s' \<Longrightarrow> view s' = view s"
begin

text \<open>The entered task is DORMANT in the state after its entry.\<close>

lemma enter_view:
  assumes inv: "sys_inv s" and t: "t < MAX_TASKS" "active_state (tstate (tcb_at t s))"
  shows "\<exists>s3 f h. sys_inv s3 \<and> switch_frame s s3 \<and> view s3 = stop t (view s) \<and>
    task_context_enter env (Some t) s =
    (if task_to_task_smoke_from s3 = Some t \<and> task_to_task_smoke_to s3 \<noteq> None
     then let n = the (task_to_task_smoke_to s3);
              s4 = s3\<lparr>task_to_task_smoke_from := None, task_to_task_smoke_to := None, active_task := Some n\<rparr>;
              s5 = save_context t (live_context env (SITE_TASK_TO_TASK t) (say f s4)) (say f s4)
          in Option.bind (resume_target env (tcontext (tcb_at n s5)) s5) (\<lambda>i. task_context_enter env (Some i) s5)
     else Some (save_context t (live_context env (SITE_BACK t) (say h s3)) (say h s3)))"
proof -
  have used: "tcb_used (tcb_at t s)" using t(2) by (auto simp: active_state_def tcb_used_def)
  obtain e s2 s3 f h where run: "entry_body env (entry (tcb_at t s)) (say e s) = Some s2" "sys_inv s2"
    and s3: "s3 = task_context_finalize t s2" "sys_inv s3" "switch_frame s s3"
    and step: "task_context_enter env (Some t) s =
    (if task_to_task_smoke_from s3 = Some t \<and> task_to_task_smoke_to s3 \<noteq> None
     then let n = the (task_to_task_smoke_to s3);
              s4 = s3\<lparr>task_to_task_smoke_from := None, task_to_task_smoke_to := None, active_task := Some n\<rparr>;
              s5 = save_context t (live_context env (SITE_TASK_TO_TASK t) (say f s4)) (say f s4)
          in Option.bind (resume_target env (tcontext (tcb_at n s5)) s5) (\<lambda>i. task_context_enter env (Some i) s5)
     else Some (save_context t (live_context env (SITE_BACK t) (say h s3)) (say h s3)))"
    using enter_trace[OF inv t(1) used] by blast
  have view: "view s2 = view s" using keeps[OF run(1)] by simp
  have "active_state (tstate (tcb_at t s2))" using t(2) view_states[OF view] by simp
  then have "view s3 = stop t (view s)" using finalize_view[OF run(2) t(1)] view s3(1) by simp
  with s3(2,3) step show ?thesis by blast
qed

lemma enter_back_view:
  assumes inv: "sys_inv s" and t: "t < MAX_TASKS" "active_state (tstate (tcb_at t s))"
    and last: "\<not> (task_to_task_smoke_from s = Some t \<and> task_to_task_smoke_to s \<noteq> None)"
    and run: "task_context_enter env (Some t) s = Some s'"
  shows "view s' = stop t (view s)"
proof -
  obtain s3 h where "switch_frame s s3" "view s3 = stop t (view s)"
    "task_context_enter env (Some t) s = Some (save_context t (live_context env (SITE_BACK t) (say h s3)) (say h s3))"
    using enter_view[OF inv t] last by (auto simp: switch_frame_def)
  with run show ?thesis by auto
qed

lemma enter_pair_view:
  assumes inv: "sys_inv s" and t: "t < MAX_TASKS" "active_state (tstate (tcb_at t s))"
    and n: "n < MAX_TASKS" "active_state (tstate (tcb_at n s))" "n \<noteq> t" "prepared env n s"
    and pair: "task_to_task_smoke_from s = Some t" "task_to_task_smoke_to s = Some n"
    and run: "task_context_enter env (Some t) s = Some s'"
  shows "view s' = stop n (stop t (view s))"
proof -
  have used: "tcb_used (tcb_at n s)" using n(2) by (auto simp: active_state_def tcb_used_def)
  obtain s3 f where s3: "sys_inv s3" "switch_frame s s3" "view s3 = stop t (view s)"
    and step: "task_context_enter env (Some t) s =
      (let s4 = s3\<lparr>task_to_task_smoke_from := None, task_to_task_smoke_to := None, active_task := Some n\<rparr>;
           s5 = save_context t (live_context env (SITE_TASK_TO_TASK t) (say f s4)) (say f s4)
       in Option.bind (resume_target env (tcontext (tcb_at n s5)) s5) (\<lambda>i. task_context_enter env (Some i) s5))"
    using enter_view[OF inv t] pair by (auto simp: switch_frame_def)
  define s4 where "s4 = s3\<lparr>task_to_task_smoke_from := None, task_to_task_smoke_to := None, active_task := Some n\<rparr>"
  define s5 where "s5 = save_context t (live_context env (SITE_TASK_TO_TASK t) (say f s4)) (say f s4)"
  have "core s4 = core s3" by (simp add: core_def s4_def)
  then have "sys_inv s4" using sys_inv_core s3(1) by metis
  then have inv5: "sys_inv s5" by (simp add: s5_def sys_inv_save_context)
  have view4: "view s4 = view s3"
    using view_fields(2)[of "Some n" "s3\<lparr>task_to_task_smoke_from := None, task_to_task_smoke_to := None\<rparr>"]
    by (simp add: s4_def view_reservation)
  then have view: "view s5 = stop t (view s)" using s3(3) by (simp add: s5_def)
  have at5: "tcb_at n s5 = tcb_at n s3"
    using n(3) by (simp add: s5_def s4_def save_context_def tcb_at_def task_table_upd_tcb)
  have "prepared env n s5"
    using switch_frame_prepared[OF s3(2) used n(4)] at5
    by (simp add: prepared_def s5_def s4_def save_context_def)
  then have resume: "resume_target env (tcontext (tcb_at n s5)) s5 = Some n"
    using n(1) resume_prepared by blast
  have none: "\<not> (task_to_task_smoke_from s5 = Some n \<and> task_to_task_smoke_to s5 \<noteq> None)"
    by (simp add: s5_def s4_def save_context_def)
  have act: "active_state (tstate (tcb_at n s5))" using stop_other[OF view n(3)] n(2) by simp
  have "task_context_enter env (Some n) s5 = Some s'"
    using step run resume by (simp add: s4_def[symmetric] s5_def[symmetric] Let_def)
  from enter_back_view[OF inv5 n(1) act none this] view show ?thesis by simp
qed

text \<open>The boot side adds nothing to what the entered tasks did.\<close>

lemma switch_to_task_run:
  assumes v: "valid_stack t s" and t: "t < MAX_TASKS" "prepared env t s"
    and run: "task_context_switch_to_task env (Some t) s = Some (r, s')"
  obtains s1 s2 where "task_context_enter env (Some t) s1 = Some s2" and "view s' = view s2"
    and "view s1 = view s" and "core s1 = core s" and "\<And>i. prepared env i s1 = prepared env i s"
    and "task_to_task_smoke_from s1 = task_to_task_smoke_from s"
    and "task_to_task_smoke_to s1 = task_to_task_smoke_to s"
proof -
  have "\<exists>g h live. task_context_switch_to_task env (Some t) s =
      (let s1 = (say g (s\<lparr>active_task := Some t\<rparr>))\<lparr>boot_context := live\<rparr>
       in Option.bind (resume_target env (tcontext (tcb_at t s1)) s1) (\<lambda>i.
          Option.bind (task_context_enter env (Some i) s1) (\<lambda>s2.
            if boot_context s2 \<noteq> live then None
            else Some (TASK_CONTEXT_OK, (say h s2)\<lparr>active_task := None\<rparr>))))"
    using v unfolding task_context_switch_to_task_def valid_stack_def Let_def by auto
  then obtain g h live where step: "task_context_switch_to_task env (Some t) s =
      (let s1 = (say g (s\<lparr>active_task := Some t\<rparr>))\<lparr>boot_context := live\<rparr>
       in Option.bind (resume_target env (tcontext (tcb_at t s1)) s1) (\<lambda>i.
          Option.bind (task_context_enter env (Some i) s1) (\<lambda>s2.
            if boot_context s2 \<noteq> live then None
            else Some (TASK_CONTEXT_OK, (say h s2)\<lparr>active_task := None\<rparr>))))" by blast
  define s1 where "s1 = (say g (s\<lparr>active_task := Some t\<rparr>))\<lparr>boot_context := live\<rparr>"
  have at: "tcb_at i s1 = tcb_at i s" for i by (simp add: s1_def tcb_at_def)
  have prep: "prepared env i s1 = prepared env i s" for i by (simp add: prepared_def at) (simp add: s1_def)
  have "resume_target env (tcontext (tcb_at t s1)) s1 = Some t" using resume_prepared t prep by blast
  with run step obtain s2 where "task_context_enter env (Some t) s1 = Some s2" "s' = (say h s2)\<lparr>active_task := None\<rparr>"
    by (auto simp: s1_def[symmetric] Let_def bind_eq_Some_conv split: if_splits)
  moreover have "core s1 = core s" by (simp add: core_def s1_def)
  moreover have "view s1 = view s" by (simp add: s1_def)
  ultimately show thesis using that[of s1 s2] prep by (simp add: s1_def)
qed

lemma switch_to_task_view:
  assumes inv: "sys_inv s"
    and v: "valid_stack t s" and t: "t < MAX_TASKS" "active_state (tstate (tcb_at t s))" "prepared env t s"
    and run: "task_context_switch_to_task env (Some t) s = Some (r, s')"
  shows "task_to_task_smoke_from s = None \<Longrightarrow> view s' = stop t (view s)"
    and "task_to_task_smoke_from s = Some t \<Longrightarrow> task_to_task_smoke_to s = Some n \<Longrightarrow> n < MAX_TASKS \<Longrightarrow>
      active_state (tstate (tcb_at n s)) \<Longrightarrow> n \<noteq> t \<Longrightarrow> prepared env n s \<Longrightarrow>
      view s' = stop n (stop t (view s))"
proof -
  from switch_to_task_run[OF v t(1,3) run] obtain s1 s2 where
    enter: "task_context_enter env (Some t) s1 = Some s2" and s2: "view s' = view s2"
    and s1: "view s1 = view s" "core s1 = core s" "\<And>i. prepared env i s1 = prepared env i s"
    "task_to_task_smoke_from s1 = task_to_task_smoke_from s" "task_to_task_smoke_to s1 = task_to_task_smoke_to s"
    by metis
  have inv1: "sys_inv s1" using sys_inv_core[OF s1(2)] inv by simp
  have st: "tstate (tcb_at i s1) = tstate (tcb_at i s)" for i by (rule view_states[OF s1(1)])
  show "view s' = stop t (view s)" if "task_to_task_smoke_from s = None"
    using enter_back_view[OF inv1 t(1) _ _ enter] t(2) that s1 s2 st by simp
  show "view s' = stop n (stop t (view s))"
    if "task_to_task_smoke_from s = Some t" "task_to_task_smoke_to s = Some n" "n < MAX_TASKS"
      "active_state (tstate (tcb_at n s))" "n \<noteq> t" "prepared env n s"
    using enter_pair_view[OF inv1 t(1) _ _ _ _ _ _ _ enter, of n] t(2) that s1 s2 st by simp
qed

lemma pair_view:
  assumes inv: "sys_inv s"
    and f: "f < MAX_TASKS" "active_state (tstate (tcb_at f s))" "valid_stack f s"
    and t: "t < MAX_TASKS" "active_state (tstate (tcb_at t s))" "valid_stack t s" "t \<noteq> f"
    and run: "task_context_switch_to_task_pair env (Some f) (Some t) s = Some (r, s')"
  shows "view s' = stop t (stop f (view s))"
proof -
  note len = sys_inv_length[OF inv]
  obtain r1 s1 where p1: "task_context_prepare_initial_frame env (Some f) s = (r1, s1)" by fastforce
  have fl: "f < length (task_table s)" using f(1) len by simp
  note s1 = prepare_prepares[OF fl f(3) p1] and v1 = prepare_view[OF fl f(3) p1]
  have tl: "t < length (task_table s1)" and tv: "valid_stack t s1"
    using t len s1(5) s1(12)[of t] by simp_all
  obtain r2 s2 where p2: "task_context_prepare_initial_frame env (Some t) s1 = (r2, s2)" by fastforce
  note s2 = prepare_prepares[OF tl tv p2] and v2 = prepare_view[OF tl tv p2]
  let ?s3 = "s2\<lparr>task_to_task_smoke_from := Some f, task_to_task_smoke_to := Some t\<rparr>"
  have inv1: "sys_inv s1" by (rule sys.inv_prepare[OF f(1,3) p1 inv])
  have inv3: "sys_inv ?s3" using sys.inv_prepare[OF t(1) tv p2 inv1] by (rule sys.inv_reservation)
  have view: "view ?s3 = view s" using v1 v2 by (simp add: view_reservation)
  have act: "active_state (tstate (tcb_at f ?s3))" "active_state (tstate (tcb_at t ?s3))"
    using f(2) t(2) view_states[OF view] by simp_all
  have prep: "prepared env f ?s3" "prepared env t ?s3" "valid_stack f ?s3"
    using s1(2,3) s2(2,12,13) t(4) by simp_all
  from run p1 p2 s1(1) s2(1) t(4) obtain s4 where s4: "task_context_switch_to_task env (Some f) ?s3 = Some (r, s4)"
    "view s' = view s4"
    by (auto simp: task_context_switch_to_task_pair_def bind_eq_Some_conv view_reservation)
  from switch_to_task_view(2)[OF inv3 prep(3) f(1) act(1) prep(1) s4(1), of t] act(2) t prep(2) view s4(2)
  show ?thesis by simp
qed

text \<open>The dispatcher: from the state between its transitions and the entries to the end.\<close>

lemma dispatcher_enter_view:
  assumes inv: "os_inv s"
    and f: "f < MAX_TASKS" "switchable (tstate (tcb_at f s))" "valid_stack f s"
    and t: "t < MAX_TASKS" "active_state (tstate (tcb_at t s))" "valid_stack t s" "t \<noteq> f"
    and run: "dispatcher_enter env f t s = Some (r, s')"
  shows "view s' = (if tstate (tcb_at f s) = TASK_STATE_WAITING then stop t (view s) else stop t (stop f (view s)))"
proof (cases "tstate (tcb_at f s) = TASK_STATE_WAITING")
  case False
  then have "active_state (tstate (tcb_at f s))" using f(2) by (auto simp: active_state_def switchable_def)
  with False run pair_view[OF os_invD(1)[OF inv] f(1) _ f(3) t] show ?thesis
    by (auto simp: dispatcher_enter_def bind_eq_Some_conv)
next
  case True
  have tl: "t < length (task_table s)" using t(1) os_invD(3)[OF inv] by simp
  obtain r1 s1 where p1: "task_context_prepare_initial_frame env (Some t) s = (r1, s1)" by fastforce
  note s1 = prepare_prepares[OF tl t(3) p1] and v1 = prepare_view[OF tl t(3) p1]
  obtain s2 where s2: "task_context_switch_to_task env (Some t) s1 = Some (r, s2)" "view s' = view s2"
    using True run p1 s1(1) by (auto simp: dispatcher_enter_def bind_eq_Some_conv)
  have "active_state (tstate (tcb_at t s1))" using t(2) view_states[OF v1(1)] by simp
  moreover have "task_to_task_smoke_from s1 = None" using v1(2) os_invD(4)[OF inv] by (simp add: no_reservation_def)
  ultimately have "view s2 = stop t (view s1)"
    using switch_to_task_view(1)[OF sys.inv_prepare[OF t(1,3) p1 os_invD(1)[OF inv]] s1(3) t(1) _ s1(2) s2(1)] by simp
  with True v1(1) s2(2) show ?thesis by simp
qed

lemma switch_view_ends:
  assumes inv: "os_inv s" and c: "current_task s = Some f"
    and f: "switchable (tstate (tcb_at f s))" "valid_stack f s"
    and t: "t < MAX_TASKS" "tstate (tcb_at t s) = TASK_STATE_READY" "valid_stack t s" "t \<noteq> f"
  shows "\<exists>s' s2. dispatcher_switch_to env (Some f) (Some t) s = Some (DISPATCHER_OK, s') \<and> os_inv s' \<and>
    core s2 = core (switched f t s) \<and> dispatcher_module.more s2 = dispatcher_module.more s \<and>
    view s' = (if tstate (tcb_at f s) = TASK_STATE_WAITING then stop t (view s2) else stop t (stop f (view s2)))"
proof -
  obtain s2 where enter: "dispatcher_switch_to env (Some f) (Some t) s = dispatcher_enter env f t s2"
    and s2: "os_inv s2" "core s2 = core (switched f t s)" "dispatcher_module.more s2 = dispatcher_module.more s"
    by (rule switch_enters[OF inv c f(1) t(1,2,4)])
  note fu = os_inv_current(1)[OF inv c]
  note at2 = switched_core[OF s2(2)[symmetric] os_invD(3)[OF inv] fu t(1) t(4)]
  have stacks: "valid_stack f s2" "valid_stack t s2"
    using at2 f(2) t(3) by (simp_all add: valid_stack_iff)
  have fields: "switchable (tstate (tcb_at f s2))" "active_state (tstate (tcb_at t s2))"
    "tstate (tcb_at f s2) = TASK_STATE_WAITING \<longleftrightarrow> tstate (tcb_at f s) = TASK_STATE_WAITING"
    using at2 f(1) by (auto simp: switchable_def active_state_def tcb_enter_def)
  obtain s' where run: "dispatcher_switch_to env (Some f) (Some t) s = Some (DISPATCHER_OK, s')" "os_inv s'"
    using dispatcher_switch_returns[OF inv c t(1)] f t by auto
  then have "dispatcher_enter env f t s2 = Some (DISPATCHER_OK, s')" using enter by simp
  from dispatcher_enter_view[OF s2(1) fu fields(1) stacks(1) t(1) fields(2) stacks(2) t(4) this] fields(3)
  show ?thesis using run s2(2,3) by (intro exI[of _ s'] exI[of _ s2]) simp
qed

end

subsection \<open>The states of the tasks\<close>

text \<open>The tasks whose entries a switch runs: the target, and the task it leaves unless that one waits.\<close>

definition entered_tasks :: "nat \<Rightarrow> nat \<Rightarrow> 'a task_module_scheme \<Rightarrow> nat set" where
  "entered_tasks f t s = (if tstate (tcb_at f s) = TASK_STATE_WAITING then {t} else {t, f})"

interpretation states: switch_view run_view "\<lambda>t. ended {t}"
proof
  fix s :: "'a pending_module_scheme" and t assume "t < length (task_table s)"
  then show "run_view (upd_tcb t (tcb_enter TASK_STATE_DORMANT 0 TASK_WAIT_REASON_NONE 0) s) = ended {t} (run_view s)"
    by (auto simp: run_view_def ended_def tcb_at_upd tcb_enter_def)
next
  show "run_view (s\<lparr>stack_mem := m\<rparr>) = run_view s" for s :: "'a pending_module_scheme" and m
    by (simp add: run_view_def tcb_at_def)
next
  show "tstate (tcb_at i s') = tstate (tcb_at i s)" if "run_view s' = ended {t} (run_view s)" "i \<noteq> t"
    for s s' :: "'a pending_module_scheme" and t i
    using that by (auto simp: run_view_def ended_def fun_eq_iff)
next
  show "tstate (tcb_at i s) = tstate (tcb_at i s')" if "run_view s = run_view s'"
    for s s' :: "'a pending_module_scheme" and i
    using that by (rule run_view_state)
qed simp_all

lemma run_view_trace:
  fixes env :: "'a pending_module_scheme kernel_env"
  assumes "entry_contract env" and "entries_keep_states env"
  shows "switch_trace env run_view (\<lambda>t. ended {t})"
  using assms states.switch_view_axioms
  by (simp add: switch_trace_def switch_trace_axioms_def entries_keep_states_def)

context entry_contract
begin

lemma dispatcher_switch_view:
  assumes keep: "entries_keep_states env" and inv: "os_inv s" and c: "current_task s = Some f"
    and f: "switchable (tstate (tcb_at f s))" "valid_stack f s"
    and t: "t < MAX_TASKS" "tstate (tcb_at t s) = TASK_STATE_READY" "valid_stack t s" "t \<noteq> f"
  shows "\<exists>s'. dispatcher_switch_to env (Some f) (Some t) s = Some (DISPATCHER_OK, s') \<and> os_inv s' \<and>
    run_view s' = ended (entered_tasks f t s) (Some t, snd (run_view s))"
proof -
  obtain s' and s2 :: "'a pending_module_scheme" where
    run: "dispatcher_switch_to env (Some f) (Some t) s = Some (DISPATCHER_OK, s')" "os_inv s'"
    and s2: "core s2 = core (switched f t s)"
    and ends: "run_view s' = (if tstate (tcb_at f s) = TASK_STATE_WAITING then ended {t} (run_view s2)
      else ended {t} (ended {f} (run_view s2)))"
    using switch_trace.switch_view_ends[OF run_view_trace[OF entry_contract_axioms keep] inv c f t] by blast
  have view: "run_view s' = ended (entered_tasks f t s) (run_view s2)"
    using ends by (auto simp: ended_def entered_tasks_def fun_eq_iff)
  have fl: "f < length (task_table s)" "t < length (task_table s)"
    using os_inv_current(1)[OF inv c] t(1) os_invD(3)[OF inv] by simp_all
  have "run_view s2 = run_view (switched f t s)" using core_eqD[OF s2] by (simp add: run_view_def tcb_at_def)
  then have "ended (entered_tasks f t s) (run_view s2) = ended (entered_tasks f t s) (Some t, snd (run_view s))"
    using fl f(1) t(4)
    by (auto simp: ended_def run_view_def entered_tasks_def fun_eq_iff switched_def tcb_at_def task_table_upd_tcb
        nth_update_eq_if tcb_enter_def)
  with run view show ?thesis by auto
qed

end

end
