(* ===== verification/Dispatch_Props.thy ===== *)
theory Dispatch_Props
  imports Boot_Inv Switch_Trace
begin

section \<open>Properties of scheduling and dispatching\<close>

text \<open>
  The choice of the scheduler, the decision of the interrupt path and the life of the pending
  request, the first frame of a task, the checks of the switch and the states it leaves, and two behaviours that break the
  rule of one RUNNING task: a direct commit and a yield without another READY task.
\<close>

subsection \<open>The choice\<close>

text \<open>
  C15. The scan of the scheduler picks the READY task of smallest priority number, the first slot
  among equals: the minimum of the linear order of urgency.
\<close>

theorem scheduler_picks_most_urgent:
  assumes "length (task_table s) = MAX_TASKS"
  shows "scheduler_select_next s =
    (if ready_slots (task_table s) = {} then None
     else Some (urgency_slot (Min (urgency_at (task_table s) ` ready_slots (task_table s)))))"
  unfolding scheduler_select_next_table by (rule sched.select_Min[OF assms])

lemma busy_ready: "ready_slots (task_table busy) = {6, 7}"
proof -
  have "ready_slots (padded_tasks sample_tasks) = {i. i < 9 \<and> tstate (sample_tasks ! i) = TASK_STATE_READY}"
    by (auto simp: ready_slots_def padded_tasks_def nth_append) (simp_all add: sample_tasks_def)
  also have "\<dots> = {6, 7}"
    by (auto simp: sample_tasks_def sample_task_def less_Suc_eq numeral_eq_Suc)
  finally show ?thesis by (simp add: busy_lookup(1))
qed

lemma busy_length: "length (task_table busy) = MAX_TASKS"
  by (rule kernel_invD(3)[OF busy_inv])

lemma scheduler_picks_most_urgent_witness: "scheduler_select_next busy = Some 6"
proof -
  have "Min {Urgency 5 6, Urgency 9 7} = Urgency 5 6" by (simp add: min_def urgency_le)
  moreover have "urgency_at (task_table busy) ` {6, 7} = {Urgency 5 6, Urgency 9 7}"
    by (simp add: urgency_at_def busy_tcb) (simp add: sample_tasks_def sample_task_def)
  ultimately show ?thesis
    using scheduler_picks_most_urgent[OF busy_length] by (simp add: busy_ready)
qed

text \<open>
  C17. Preemption is needed exactly when the current task is RUNNING and some READY task is of
  strictly higher priority; the candidate then is the choice of the scheduler. A READY task of the
  same priority never preempts.
\<close>

theorem preemption_needed_iff:
  assumes "length (task_table s) = MAX_TASKS"
  shows "(decision_reason (scheduler_select_preemption_candidate cur s) = SCHEDULER_PREEMPT_NEEDED) =
      (\<exists>c. cur = Some c \<and> tstate (tcb_at c s) = TASK_STATE_RUNNING \<and>
         (\<exists>j. j \<in> ready_slots (task_table s) \<and> priority (tcb_at j s) < priority (tcb_at c s))) \<and>
    decision_current (scheduler_select_preemption_candidate cur s) = cur \<and>
    (decision_reason (scheduler_select_preemption_candidate cur s) = SCHEDULER_PREEMPT_NEEDED \<longrightarrow>
      decision_candidate (scheduler_select_preemption_candidate cur s) = scheduler_select_next s)"
proof (cases "\<exists>c. cur = Some c \<and> tstate (tcb_at c s) = TASK_STATE_RUNNING")
  case False
  then show ?thesis by (auto simp: scheduler_select_preemption_candidate_def Let_def split: option.split)
next
  case True
  then obtain c where c: "cur = Some c" "tstate (tcb_at c s) = TASK_STATE_RUNNING" by blast
  show ?thesis
  proof (cases "scheduler_select_next s")
    case None
    then have "ready_slots (task_table s) = {}"
      using sched.select_None[OF assms] by (simp add: scheduler_select_next_table)
    with None c show ?thesis by (simp add: scheduler_select_preemption_candidate_def)
  next
    case (Some n)
    then have sel: "select_in (task_table s) = Some n" by (simp add: scheduler_select_next_table)
    have n: "n \<in> ready_slots (task_table s)" by (rule sched.select_ready[OF assms sel])
    have "(\<exists>j. j \<in> ready_slots (task_table s) \<and> priority (tcb_at j s) < priority (tcb_at c s))
        = (priority (tcb_at n s) < priority (tcb_at c s))"
      using n sched.select_priority[OF assms sel] by (force simp: tcb_at_def)
    with Some c show ?thesis by (simp add: scheduler_select_preemption_candidate_def Let_def)
  qed
qed

text \<open>Task 7 has the priority of the RUNNING task: no preemption.\<close>

lemma preemption_needed_iff_witness:
  "decision_reason (scheduler_select_preemption_candidate (Some 0) busy) \<noteq> SCHEDULER_PREEMPT_NEEDED"
proof -
  have "priority (tcb_at 0 busy) = 5" "priority (tcb_at 6 busy) = 5" "priority (tcb_at 7 busy) = 9"
    by (simp_all add: tcb_at_def busy_tcb) (simp_all add: sample_tasks_def sample_task_def)
  with preemption_needed_iff[OF busy_length, of "Some 0"] show ?thesis by (auto simp: busy_ready)
qed

subsection \<open>The pending request\<close>

text \<open>What an evaluation leaves of the old request: an IRQ request is dropped before it.\<close>

definition kept_request :: "dispatch_pending_state_t \<Rightarrow> dispatch_pending_state_t" where
  "kept_request p = (if source p = DISPATCH_PENDING_SOURCE_IRQ then no_pending else p)"

lemma pending_irq_clear [simp]:
  "dispatch_pending_state (dispatch_pending_clear_irq_for_evaluation s) = kept_request (dispatch_pending_state s)"
  "tcb_at i (dispatch_pending_clear_irq_for_evaluation s) = tcb_at i s"
  "current_task (dispatch_pending_clear_irq_for_evaluation s) = current_task s"
  "task_table (dispatch_pending_clear_irq_for_evaluation s) = task_table s"
  by (simp_all add: dispatch_pending_clear_irq_for_evaluation_def dispatch_pending_clear_with_reason_def
      kept_request_def tcb_at_def)

lemma pending_preemption_logs [simp]:
  "dispatch_pending_state (preemption_irq_log_task p t s) = dispatch_pending_state s"
  "dispatch_pending_state (preemption_irq_log_decision d s) = dispatch_pending_state s"
  "tcb_at i (preemption_irq_log_task p t s) = tcb_at i s"
  "tcb_at i (preemption_irq_log_decision d s) = tcb_at i s"
  by (simp_all add: preemption_irq_log_task_def preemption_irq_log_decision_def split: option.split)

lemma candidate_cong:
  assumes "task_table s' = task_table s"
  shows "scheduler_select_preemption_candidate cur s' = scheduler_select_preemption_candidate cur s"
proof -
  have "scheduler_select_next s' = scheduler_select_next s" "\<And>i. tcb_at i s' = tcb_at i s"
    using assms by (simp_all add: scheduler_select_next_table tcb_at_def)
  then show ?thesis unfolding scheduler_select_preemption_candidate_def by (simp only:)
qed

text \<open>The request after an evaluation.\<close>

definition evaluated_request :: "'a pending_module_scheme \<Rightarrow> dispatch_pending_state_t" where
  "evaluated_request s =
     (let p = kept_request (dispatch_pending_state s);
          d = scheduler_select_preemption_candidate (current_task s) s
      in case (current_task s, decision_candidate d) of
           (Some c, Some n) \<Rightarrow>
             if decision_reason d = SCHEDULER_PREEMPT_NEEDED \<and>
                \<not> (requested p \<and> source p = DISPATCH_PENDING_SOURCE_TASK)
             then \<lparr>requested = True, request_logged = False, source = DISPATCH_PENDING_SOURCE_IRQ,
                   pending_reason = DISPATCH_PENDING_FROM_IRQ, pending_current = Some c,
                   pending_candidate = Some n, current_id = tid (tcb_at c s), candidate_id = tid (tcb_at n s)\<rparr>
             else p
         | _ \<Rightarrow> p)"

text \<open>What an evaluation does to the request, read off from the decision.\<close>

lemma preemption_evaluated:
  fixes s :: "'a pending_module_scheme"
  shows "dispatch_pending_state (snd (preemption_evaluate_from_irq s)) = evaluated_request s"
proof -
  define d where "d = scheduler_select_preemption_candidate (current_task s) s"
  define p where "p = kept_request (dispatch_pending_state s)"
  define s1 where "s1 = dispatch_pending_clear_irq_for_evaluation s"
  have s1: "dispatch_pending_state s1 = p" "current_task s1 = current_task s" "task_table s1 = task_table s"
    "\<And>i. tcb_at i s1 = tcb_at i s"
    by (simp_all add: s1_def p_def)
  have d: "scheduler_select_preemption_candidate (current_task s) s1 = d"
    unfolding d_def by (rule candidate_cong[OF s1(3)])
  have needed: "decision_reason d = SCHEDULER_PREEMPT_NEEDED \<Longrightarrow> \<exists>c n. current_task s = Some c \<and> decision_candidate d = Some n"
    by (auto simp: d_def scheduler_select_preemption_candidate_def Let_def split: option.splits if_splits)
  show ?thesis
  proof (cases "decision_reason d = SCHEDULER_PREEMPT_NEEDED")
    case True
    with needed obtain c n where "current_task s = Some c" "decision_candidate d = Some n" by blast
    with True s1 d show ?thesis
      unfolding preemption_evaluate_from_irq_def dispatcher_get_current_def Let_def s1_def[symmetric]
        evaluated_request_def d_def[symmetric] p_def[symmetric]
      by (simp add: dispatch_request_from_irq_def pending_request_def)
  next
    case False
    with s1 d show ?thesis
      unfolding preemption_evaluate_from_irq_def dispatcher_get_current_def Let_def s1_def[symmetric]
        evaluated_request_def d_def[symmetric] p_def[symmetric]
      by (simp split: option.split)
  qed
qed

text \<open>
  C16. The timer path records a request and never switches: it changes no task and no queue. A request
  of the task API survives it; an older IRQ request is replaced by a new one when preemption is
  needed now, and dropped otherwise.
\<close>

theorem preemption_only_requests:
  fixes s :: "'a pending_module_scheme"
  shows "core (snd (preemption_evaluate_from_irq s)) = core s \<and>
    dispatch_pending_state (snd (preemption_evaluate_from_irq s)) = evaluated_request s"
  by (simp add: preemption_evaluated)

text \<open>
  C26. The deferred boundary consumes a request at most once: it returns, and afterwards no request is
  pending, so that consuming again only reports that nothing is pending.
\<close>

theorem pending_consumed_once:
  assumes "entry_contract env" and "os_inv s"
  shows "\<exists>r s1. dispatch_pending_consume_at_deferred_boundary env s = Some (r, s1) \<and> os_inv s1 \<and>
    \<not> dispatch_pending_is_requested s1 \<and>
    (\<exists>s2. dispatch_pending_consume_at_deferred_boundary env s1 = Some (DISPATCH_PENDING_CONSUME_NO_PENDING, s2) \<and>
      core s2 = core s1 \<and> dispatch_pending_state s2 = dispatch_pending_state s1)"
proof -
  from entry_contract.consume_returns[OF assms] obtain r s1 where
    s1: "dispatch_pending_consume_at_deferred_boundary env s = Some (r, s1)" "os_inv s1"
      "\<not> requested (dispatch_pending_state s1)" by blast
  then have "dispatch_pending_take_snapshot s1 = None" by (simp add: dispatch_pending_take_snapshot_def)
  with s1 show ?thesis
    by (simp add: dispatch_pending_is_requested_def dispatch_pending_consume_at_deferred_boundary_def)
qed

lemma pending_consumed_once_witness:
  "\<exists>r s1. dispatch_pending_consume_at_deferred_boundary demo_env (snd (wup_tsk 5 busy)) = Some (r, s1) \<and>
    \<not> dispatch_pending_is_requested s1"
  using pending_consumed_once[OF demo_env_contract os_inv_wup_tsk[OF busy_os_inv, of 5]] by blast

subsection \<open>The first frame\<close>

lemma unat_aligned:
  fixes a :: "'l::len word"
  assumes "4 \<le> LENGTH('l)"
  shows "unat (and a (not 15)) = unat a - unat a mod 16"
proof -
  have mask: "(15 :: 'l word) = mask 4" by (simp add: mask_eq_exp_minus_1)
  have "and a (not (mask 4)) = and a (not (take_bit 4 a))"
    by (rule bit_eqI) (auto simp: bit_simps)
  also have "\<dots> = a - take_bit 4 a"
    by (rule disjunctive_diff_eq_and_not[symmetric]) (rule bit_eqI, auto simp: bit_simps)
  finally have "and a (not 15) = a - take_bit 4 a" by (simp add: mask)
  moreover have "unat (take_bit 4 a) = take_bit 4 (unat a)" by (rule unsigned_take_bit_eq)
  then have t: "unat (take_bit 4 a) = unat a mod 16" by (simp add: take_bit_eq_mod)
  then have "take_bit 4 a \<le> a" by (simp add: word_le_nat_alt)
  ultimately show ?thesis using t by (simp add: unat_sub)
qed

lemma initial_rsp_bounds:
  assumes "64 \<le> unat sz" and "unat base + unat sz < 2 ^ 64"
  shows "unat base \<le> unat (initial_rsp (base + sz))" and "unat (initial_rsp (base + sz)) + 8 \<le> unat (base + sz)"
    and "(unat (initial_rsp (base + sz)) + 8) mod 16 = 0"
proof -
  have top: "unat (base + sz) = unat base + unat sz" using assms(2) by (simp add: unat_word_ariths)
  have al: "unat (and (base + sz) (not 15)) = unat (base + sz) - unat (base + sz) mod 16"
    by (rule unat_aligned) simp
  have m: "unat (base + sz) mod 16 < 16" by simp
  have ge: "8 \<le> unat (and (base + sz) (not 15))" using al top assms(1) m by linarith
  then have "(8 :: u64) \<le> and (base + sz) (not 15)" by (simp add: word_le_nat_alt)
  then have r: "unat (initial_rsp (base + sz)) = unat (and (base + sz) (not 15)) - 8"
    by (simp add: initial_rsp_def unat_sub)
  show "unat base \<le> unat (initial_rsp (base + sz))" using r al top assms(1) m by linarith
  show "unat (initial_rsp (base + sz)) + 8 \<le> unat (base + sz)" using r ge al by linarith
  have "unat (initial_rsp (base + sz)) + 8 = unat (base + sz) - unat (base + sz) mod 16" using r ge al by linarith
  then show "(unat (initial_rsp (base + sz)) + 8) mod 16 = 0"
    by (simp add: minus_mod_eq_mult_div)
qed

text \<open>
  C27. The prepared frame of a task is usable: for a stack of at least 64 bytes that does not wrap around,
  the stack pointer is 8 below a 16-byte boundary and the word it points to lies inside the stack;
  the context continues at the entry of this very task; and the frames prepared for the other tasks
  stay usable.
\<close>

theorem prepared_frame_is_usable:
  fixes s :: "'a dispatcher_module_scheme"
  assumes i: "i < MAX_TASKS" "length (task_table s) = MAX_TASKS"
    and top: "stack_top (tcb_at i s) = stack_base (tcb_at i s) + stack_size (tcb_at i s)"
    and fits: "unat (stack_base (tcb_at i s)) + unat (stack_size (tcb_at i s)) < 2 ^ 64"
    and valid: "context_validate_task (Some i) s = TASK_CONTEXT_OK"
    and eq: "task_context_prepare_initial_frame env (Some i) s = (r, s')"
  shows "r = TASK_CONTEXT_OK \<and>
    unat (stack_base (tcb_at i s)) \<le> unat (rsp (tcontext (tcb_at i s'))) \<and>
    unat (rsp (tcontext (tcb_at i s'))) + 8 \<le> unat (stack_top (tcb_at i s)) \<and>
    (unat (rsp (tcontext (tcb_at i s'))) + 8) mod 16 = 0 \<and>
    resume_target env (tcontext (tcb_at i s')) s' = Some i \<and>
    (\<forall>j. j < MAX_TASKS \<and> j \<noteq> i \<and> prepared env j s \<longrightarrow> resume_target env (tcontext (tcb_at j s')) s' = Some j)"
proof -
  have v: "valid_stack i s" using valid by (simp add: valid_stack_def)
  have il: "i < length (task_table s)" using i by simp
  note prep = prepare_prepares[OF il v eq]
  have size: "64 \<le> unat (stack_size (tcb_at i s))"
    using valid by (auto simp: context_validate_task_def word_less_nat_alt split: if_splits)
  have "rsp (tcontext (tcb_at i s')) = initial_rsp (stack_base (tcb_at i s) + stack_size (tcb_at i s))"
    using eq valid il top
    by (auto simp: task_context_prepare_initial_frame_def Let_def tcb_at_def task_table_upd_tcb)
  with initial_rsp_bounds[OF size fits] prep(1) resume_prepared[OF prep(2) i(1)]
    resume_prepared[OF prep(13)] top
  show ?thesis by auto
qed

definition sample_env :: "pending_module kernel_env" where
  "sample_env = demo_env"

lemma prepared_frame_is_usable_witness:
  "unat (rsp (tcontext (tcb_at 6 (snd (task_context_prepare_initial_frame sample_env (Some 6) busy))))) mod 16 = 8"
proof -
  have t: "tcb_at 6 busy = sample_task 7 5 TASK_STATE_READY 0 TASK_WAIT_REASON_NONE 0"
    by (simp add: tcb_at_def busy_tcb) (simp add: sample_tasks_def)
  obtain r s' where eq: "task_context_prepare_initial_frame sample_env (Some 6) busy = (r, s')" by fastforce
  have "(unat (rsp (tcontext (tcb_at 6 s'))) + 8) mod 16 = 0"
    using prepared_frame_is_usable[OF _ busy_length _ _ _ eq]
    by (simp add: t sample_task_def context_validate_task_def)
  then show ?thesis unfolding eq snd_conv by presburger
qed

subsection \<open>The switch\<close>

text \<open>The checks of \<open>dispatcher_switch_to\<close>; \<open>None\<close> when they all pass.\<close>

definition switch_refusal :: "nat option \<Rightarrow> nat option \<Rightarrow> 'a task_module_scheme \<Rightarrow> int option" where
  "switch_refusal src dst s =
     (case (src, dst) of
        (Some f, Some t) \<Rightarrow>
          if f = t then Some DISPATCHER_ERR_INVAL
          else if \<not> switchable (tstate (tcb_at f s)) then Some DISPATCHER_ERR_BAD_STATE
          else if tstate (tcb_at t s) \<noteq> TASK_STATE_READY then Some DISPATCHER_ERR_BAD_STATE
          else None
      | _ \<Rightarrow> Some DISPATCHER_ERR_INVAL)"

text \<open>
  C29. The switch refuses a null task, the same task twice, a task to leave that is UNUSED or DORMANT and
  a target that is not READY, each with its error code; a refusal only writes to the log, and the
  invariant is kept whatever the arguments are.
\<close>

theorem switch_refuses_or_returns:
  assumes env: "entry_contract env" and inv: "os_inv s" and f: "current_task s = Some f"
    and t: "t < MAX_TASKS"
  shows "(case switch_refusal (Some f) (Some t) s of
      Some e \<Rightarrow> \<exists>s'. dispatcher_switch_to env (Some f) (Some t) s = Some (e, s') \<and> core s' = core s \<and>
        dispatch_pending_state s' = dispatch_pending_state s
    | None \<Rightarrow> \<exists>r s'. dispatcher_switch_to env (Some f) (Some t) s = Some (r, s') \<and> os_inv s' \<and>
        (valid_stack f s \<and> valid_stack t s \<longrightarrow> r = DISPATCHER_OK)) \<and>
    (\<exists>s'. dispatcher_switch_to env None (Some t) s = Some (DISPATCHER_ERR_INVAL, s') \<and> core s' = core s) \<and>
    (\<exists>s'. dispatcher_switch_to env (Some f) None s = Some (DISPATCHER_ERR_INVAL, s') \<and> core s' = core s)"
proof (cases "switch_refusal (Some f) (Some t) s")
  case None
  then have "f \<noteq> t" "switchable (tstate (tcb_at f s))" "tstate (tcb_at t s) = TASK_STATE_READY"
    by (auto simp: switch_refusal_def split: if_splits)
  with entry_contract.dispatcher_switch_returns[OF env inv f t] None show ?thesis
    by (auto simp: dispatcher_switch_to_def[of env None] dispatcher_switch_to_def[of env "Some f" None])
next
  case (Some e)
  then show ?thesis by (auto simp: switch_refusal_def dispatcher_switch_to_def switchable_def)
qed

lemma switch_refuses_or_returns_witness:
  "\<exists>s'. dispatcher_switch_to demo_env (Some 0) (Some 6) busy = Some (DISPATCHER_OK, s') \<and> os_inv s'"
proof -
  have t: "tcb_at 0 busy = sample_task 1 5 TASK_STATE_RUNNING 0 TASK_WAIT_REASON_NONE 0"
    "tcb_at 6 busy = sample_task 7 5 TASK_STATE_READY 0 TASK_WAIT_REASON_NONE 0"
    by (simp_all add: tcb_at_def busy_tcb) (simp_all add: sample_tasks_def)
  have "switch_refusal (Some 0) (Some 6) busy = None" "valid_stack 0 busy" "valid_stack 6 busy"
    by (simp_all add: t switch_refusal_def switchable_def valid_stack_def context_validate_task_def sample_task_def)
  with switch_refuses_or_returns[OF demo_env_contract busy_os_inv busy_views(5), of 6] show ?thesis by auto
qed

text \<open>
  C28. A switch does not suspend a task: it runs the entry of the target to its end and, unless the task
  it leaves waits, the entry of that task too, from its beginning. With entries that keep the states
  of the tasks, as all entries of \<open>kernel.c\<close> do, a successful switch between READY or RUNNING tasks
  ends with both tasks DORMANT, the target being the current one; no other task changes state.
\<close>

theorem switch_ends_both_tasks:
  assumes "entry_contract env" and "entries_keep_states env" and "os_inv s" and "current_task s = Some f"
    and "switchable (tstate (tcb_at f s))" and "valid_stack f s"
    and "t < MAX_TASKS" and "tstate (tcb_at t s) = TASK_STATE_READY" and "valid_stack t s" and "t \<noteq> f"
  shows "\<exists>s'. dispatcher_switch_to env (Some f) (Some t) s = Some (DISPATCHER_OK, s') \<and>
    current_task s' = Some t \<and> tstate (tcb_at t s') = TASK_STATE_DORMANT \<and>
    tstate (tcb_at f s') = (if tstate (tcb_at f s) = TASK_STATE_WAITING then TASK_STATE_WAITING else TASK_STATE_DORMANT) \<and>
    (\<forall>i. i \<noteq> f \<longrightarrow> i \<noteq> t \<longrightarrow> tstate (tcb_at i s') = tstate (tcb_at i s))"
proof -
  from entry_contract.dispatcher_switch_view[OF assms] obtain s' where
    s': "dispatcher_switch_to env (Some f) (Some t) s = Some (DISPATCHER_OK, s')"
    and view: "run_view s' = ended (entered_tasks f t s) (Some t, snd (run_view s))" by blast
  have "current_task s' = Some t" using arg_cong[OF view, of fst] by (simp add: run_view_def ended_def)
  moreover have "tstate (tcb_at i s') = (if i \<in> entered_tasks f t s then TASK_STATE_DORMANT else tstate (tcb_at i s))" for i
    using arg_cong[OF view, of "\<lambda>v. snd v i"] by (simp add: run_view_def ended_def)
  ultimately show ?thesis using s' assms(10) by (auto simp: entered_tasks_def)
qed

lemma boot_env_keeps_states: "entries_keep_states (boot_env placed tramp base live)"
  by (simp add: entries_keep_states_def kernel_entry_run_def)

lemma switch_ends_both_tasks_witness:
  "\<exists>s'. dispatcher_switch_to demo_env (Some 0) (Some 6) busy = Some (DISPATCHER_OK, s') \<and>
    tstate (tcb_at 0 s') = TASK_STATE_DORMANT \<and> tstate (tcb_at 6 s') = TASK_STATE_DORMANT"
proof -
  have t: "tcb_at 0 busy = sample_task 1 5 TASK_STATE_RUNNING 0 TASK_WAIT_REASON_NONE 0"
    "tcb_at 6 busy = sample_task 7 5 TASK_STATE_READY 0 TASK_WAIT_REASON_NONE 0"
    by (simp_all add: tcb_at_def busy_tcb) (simp_all add: sample_tasks_def)
  have keep: "entries_keep_states (demo_env :: pending_module kernel_env)"
    unfolding demo_env_def by (rule boot_env_keeps_states)
  have "switchable (tstate (tcb_at 0 busy))" "tstate (tcb_at 6 busy) = TASK_STATE_READY" "valid_stack 0 busy" "valid_stack 6 busy"
    by (simp_all add: t switchable_def valid_stack_def context_validate_task_def sample_task_def)
  with switch_ends_both_tasks[OF demo_env_contract keep busy_os_inv busy_views(5), of 6] show ?thesis
    by (auto simp: t sample_task_def)
qed

subsection \<open>The switch between two tasks\<close>

text \<open>
  \<open>task_context_switch\<close> refuses invalid contexts without a change; between two valid contexts with
  a prepared target it does not come back: the target runs, and the boot side goes on.
\<close>

lemma task_context_switch_refuses:
  assumes "context_validate_task from s \<noteq> TASK_CONTEXT_OK \<or> context_validate_task to s \<noteq> TASK_CONTEXT_OK"
  shows "\<exists>s'. task_context_switch env from to s = Some (Returned TASK_CONTEXT_ERR_INVAL s') \<and> core s' = core s"
  using assms by (auto simp: task_context_switch_def)

lemma task_context_switch_to_itself:
  assumes "valid_stack f s" and "sys_inv s"
  shows "\<exists>s'. task_context_switch env (Some f) (Some f) s = Some (Returned TASK_CONTEXT_OK s') \<and> sys_inv s'"
  using assms by (simp add: task_context_switch_def valid_stack_def task_context_switch_resumed_def sys_inv_save_context Let_def)

lemma task_context_switch_leaves:
  assumes env: "entry_contract env" and inv: "sys_inv s" and ne: "f \<noteq> t"
    and v: "valid_stack f s" "valid_stack t s"
    and t: "t < MAX_TASKS" "tcb_used (tcb_at t s)" "prepared env t s" and none: "task_to_task_smoke_from s = None"
  shows "\<exists>s'. task_context_switch env (Some f) (Some t) s = Some (At_boot s') \<and> sys_inv s' \<and>
    boot_context s' = boot_context s"
proof -
  have "\<exists>g c. task_context_switch env (Some f) (Some t) s =
      (let s1 = save_context f c (say g s)
       in Option.bind (resume_target env (tcontext (tcb_at t s1)) s1)
           (\<lambda>n. map_option At_boot (task_context_enter env (Some n) s1)))"
    using v ne by (auto simp: task_context_switch_def valid_stack_def Let_def map_conv_bind_option comp_def)
  then obtain g c where step: "task_context_switch env (Some f) (Some t) s =
      (let s1 = save_context f c (say g s)
       in Option.bind (resume_target env (tcontext (tcb_at t s1)) s1)
           (\<lambda>n. map_option At_boot (task_context_enter env (Some n) s1)))" by blast
  define s1 where "s1 = save_context f c (say g s)"
  have at: "tcb_at t s1 = tcb_at t s"
    using ne by (simp add: s1_def save_context_def tcb_at_def task_table_upd_tcb)
  have inv1: "sys_inv s1" using inv by (simp add: s1_def sys_inv_save_context)
  have "prepared env t s1" using t(3) by (simp add: prepared_def at) (simp add: s1_def save_context_def)
  with resume_prepared t(1) have resume: "resume_target env (tcontext (tcb_at t s1)) s1 = Some t" by blast
  have "\<not> (task_to_task_smoke_from s1 = Some t \<and> task_to_task_smoke_to s1 \<noteq> None)"
    using none by (simp add: s1_def save_context_def)
  from switch_contract.enter_back[OF entry_contract_switches[OF env] inv1 t(1) _ this] t(2) at obtain s' where
    "task_context_enter env (Some t) s1 = Some s'" "sys_inv s'" "boot_context s' = boot_context s1" by auto
  moreover have "boot_context s1 = boot_context s" by (simp add: s1_def save_context_def)
  ultimately show ?thesis using step resume by (simp add: s1_def[symmetric])
qed

subsection \<open>Two ways to break the rule of one RUNNING task\<close>

text \<open>
  C34. \<open>dispatcher_commit_current\<close> does not demote the task that was RUNNING: committing a READY task
  while another one is RUNNING leaves both RUNNING, which the invariant of every service excludes.
\<close>

theorem commit_while_running_makes_two:
  assumes inv: "os_inv s" and c: "current_task s = Some c" "tstate (tcb_at c s) = TASK_STATE_RUNNING"
    and k: "lookup_tcb k (task_table s) = Some i" "tstate (tcb_at i s) = TASK_STATE_READY"
  shows "fst (dispatcher_commit_current (Some i) s) = DISPATCHER_OK \<and> i \<noteq> c \<and>
    tstate (tcb_at c (snd (dispatcher_commit_current (Some i) s))) = TASK_STATE_RUNNING \<and>
    tstate (tcb_at i (snd (dispatcher_commit_current (Some i) s))) = TASK_STATE_RUNNING \<and>
    \<not> kernel_inv (snd (dispatcher_commit_current (Some i) s))"
proof -
  let ?s' = "snd (dispatcher_commit_current (Some i) s)"
  have i: "i < length (task_table s)" by (rule tasks.lookup_SomeD(1)[OF k(1)])
  have cl: "c < length (task_table s)" using os_inv_current(1)[OF inv c(1)] os_invD(3)[OF inv] by simp
  have ne: "i \<noteq> c" using c(2) k(2) by auto
  note spec = commit_current_spec[OF k(1) k(2)[unfolded tcb_at_def]]
  have tt: "task_table ?s' = (task_table s)[i := tcb_enter TASK_STATE_RUNNING 0 TASK_WAIT_REASON_NONE 0 (task_table s ! i)]"
    by (simp add: spec task_table_upd_tcb)
  have run: "tstate (tcb_at c ?s') = TASK_STATE_RUNNING" "tstate (tcb_at i ?s') = TASK_STATE_RUNNING"
    using i ne c(2) by (simp_all add: tcb_at_def tt)
  have "\<not> kernel_inv ?s'"
  proof
    assume "kernel_inv ?s'"
    from run_ok_unique[OF kernel_invD(2)[OF this], of c i] run i cl ne show False by (simp add: tcb_at_def tt)
  qed
  with spec ne run show ?thesis by simp
qed

lemma commit_while_running_makes_two_witness: "\<not> kernel_inv (snd (dispatcher_commit_current (Some 6) busy))"
proof -
  have "lookup_tcb 7 (task_table busy) = Some 6" unfolding busy_lookup(2) by code_simp
  moreover have "tstate (tcb_at 6 busy) = TASK_STATE_READY"
    by (simp add: tcb_at_def busy_tcb) (simp add: sample_tasks_def sample_task_def)
  ultimately show ?thesis
    using commit_while_running_makes_two[OF busy_os_inv busy_views(5) busy_running] by blast
qed

text \<open>
  C33. A yield that finds no other READY task reports success and leaves the caller READY, although it
  goes on running: afterwards no task at all is RUNNING, and the next service of the caller that
  asks for a RUNNING current task is refused.
\<close>

theorem lonely_yield_loses_running:
  fixes s :: "'a pending_module_scheme"
  assumes inv: "os_inv s" and c: "current_task s = Some c" "tstate (tcb_at c s) = TASK_STATE_RUNNING"
    and alone: "ready_slots (task_table s) = {}"
  shows "\<exists>s'. yield_tsk env s = Some (E_OK, s') \<and> current_task s' = Some c \<and>
    tstate (tcb_at c s') = TASK_STATE_READY \<and> idle s' \<and>
    (\<exists>s''. yield_tsk env s' = Some (E_CTX, s''))"
proof -
  let ?k = "tid (tcb_at c s)" and ?ready = "tcb_enter TASK_STATE_READY 0 TASK_WAIT_REASON_NONE 0"
  note cu = os_inv_current[OF inv c(1)]
  note slot = tasks.lookup_SomeD[OF cu(3)]
  define s0 where "s0 = tcb_say c (\<lambda>t. [''[yield] called: current''] @ itron_api_log_task_identity t @ [''\<newline>'']) s"
  have s0: "os_inv s0" "tcb_at c s0 = tcb_at c s" "task_table s0 = task_table s" "current_task s0 = Some c"
    using inv c by (simp_all add: s0_def)
  have mark: "task_mark_ready_from_running ?k s0 = (0, upd_tcb c ?ready s0)"
    using mark_ready_spec[OF os_invD(1)[OF s0(1)] cu(1)] c(2) s0(2) by simp
  define s1 where "s1 = upd_tcb c ?ready s0"
  have idle1: "idle s1" using idle_mark_ready[OF s0(1), of ?k] mark by (simp add: s1_def)
  have tt1: "task_table s1 = (task_table s)[c := ?ready (tcb_at c s)]"
    by (simp add: s1_def task_table_upd_tcb s0(3) tcb_at_def)
  have at1: "tcb_at c s1 = ?ready (tcb_at c s)" using slot(1) by (simp add: tcb_at_def tt1)
  define s2 where "s2 = tcb_say c (\<lambda>t. [''[yield] state transition: current'']
      @ itron_api_log_task_id_name t @ ['' RUNNING->READY\<newline>'']) s1"
  have "ready_slots (task_table s2) = {c}"
    using alone slot(1) by (auto simp: s2_def tt1 ready_slots_def nth_list_update)
  then have sel: "scheduler_select_next s2 = Some c"
    using sched.select_eqI[of "task_table s2" c] os_invD(3)[OF inv]
    by (simp add: scheduler_select_next_table s2_def tt1)
  then have sel1: "scheduler_select_next s1 = Some c" by (simp add: s2_def)
  have "\<exists>f g. yield_tsk env s = Some (E_OK, say g (say f s2))"
    using c mark[folded s1_def] s0 sel1
    unfolding yield_tsk_def dispatcher_get_current_def c(1) option.case Let_def s0_def[symmetric]
    by (auto simp: yield_tsk_switch_def completed_def s2_def[symmetric])
  then obtain f g where y: "yield_tsk env s = Some (E_OK, say g (say f s2))" by blast
  define s3 where "s3 = say g (say f s2)"
  have s3: "current_task s3 = Some c" "tcb_at c s3 = tcb_at c s1" "idle s3"
    using idle1 s0(4) by (simp_all add: s3_def s2_def) (simp add: s1_def)
  have "\<exists>s''. yield_tsk env s3 = Some (E_CTX, s'')"
    using s3(1,2) at1 by (simp add: yield_tsk_def dispatcher_get_current_def)
  with y[folded s3_def] s3 at1 show ?thesis by auto
qed

text \<open>A state whose only task is RUNNING.\<close>

definition solo :: pending_module where
  "solo = sample_state [sample_task 1 5 TASK_STATE_RUNNING 0 TASK_WAIT_REASON_NONE 0] [] [] (Some 0)"

lemma solo_os_inv: "os_inv solo"
  unfolding solo_def by (rule os_inv_sample) code_simp+

lemma solo_fields:
  "current_task solo = Some 0" "tstate (tcb_at 0 solo) = TASK_STATE_RUNNING" "ready_slots (task_table solo) = {}"
  by (simp_all add: solo_def sample_state_def tcb_at_def padded_tasks_def sample_task_def ready_slots_def
      nth_append nth_Cons split: nat.split)

lemma lonely_yield_loses_running_witness: "\<exists>s'. yield_tsk demo_env solo = Some (E_OK, s') \<and> idle s'"
  using lonely_yield_loses_running[OF solo_os_inv solo_fields, of demo_env] by blast

end
