(* ===== verification/Preempt_Props.thy ===== *)
theory Preempt_Props
  imports Task_Props Dispatch_Props
begin

section \<open>From the request to the switch\<close>

text \<open>
  The components that together make a task preempt another: a service or a tick makes it READY, the
  request is recorded, the exit of the timer interrupt consumes it and the dispatcher switches. Two
  properties follow an urgent task along this chain.
\<close>

subsection \<open>Consuming a request that is still good\<close>

text \<open>The request to switch from the RUNNING task in slot \<open>c\<close> to the READY task in slot \<open>i\<close>.\<close>

definition requests_switch :: "nat \<Rightarrow> nat \<Rightarrow> 'a pending_module_scheme \<Rightarrow> bool" where
  "requests_switch c i s \<longleftrightarrow> requested (dispatch_pending_state s) \<and>
     current_id (dispatch_pending_state s) = tid (tcb_at c s) \<and>
     candidate_id (dispatch_pending_state s) = tid (tcb_at i s)"

text \<open>The RUNNING task in slot \<open>c\<close> can be left for the READY task in slot \<open>i\<close>.\<close>

definition can_switch :: "nat \<Rightarrow> nat \<Rightarrow> 'a dispatcher_module_scheme \<Rightarrow> bool" where
  "can_switch c i s \<longleftrightarrow> current_task s = Some c \<and> tstate (tcb_at c s) = TASK_STATE_RUNNING \<and> valid_stack c s \<and>
     i < MAX_TASKS \<and> tstate (tcb_at i s) = TASK_STATE_READY \<and> valid_stack i s"

lemma valid_stack_cong: "tcb_at i s' = tcb_at i s \<Longrightarrow> valid_stack i s' = valid_stack i s"
  by (simp add: valid_stack_def context_validate_task_def)

lemma switch_cong:
  assumes "task_table s' = task_table s" and "current_task s' = current_task s"
  shows "can_switch c i s' = can_switch c i s"
    and "dispatch_pending_state s' = dispatch_pending_state s \<Longrightarrow> requests_switch c i s' = requests_switch c i s"
  using assms by (simp_all add: can_switch_def requests_switch_def tcb_at_def valid_stack_def context_validate_task_def)

lemma switch_say [simp]:
  "can_switch c i (say f s) = can_switch c i s" "requests_switch c i (say f s) = requests_switch c i s"
  by (simp_all add: switch_cong[of "say f s" s])

context entry_contract
begin

lemma consume_switches:
  assumes keep: "entries_keep_states env" and inv: "os_inv s" and can: "can_switch c i s" and req: "requests_switch c i s"
  shows "\<exists>s'. dispatch_pending_consume_at_deferred_boundary env s = Some (DISPATCHER_OK, s') \<and> os_inv s' \<and>
    \<not> requested (dispatch_pending_state s') \<and> run_view s' = ended {i, c} (Some i, snd (run_view s))"
proof -
  note c = can[unfolded can_switch_def] and r = req[unfolded requests_switch_def]
  define snap where "snap = \<lparr>snapshot_reason = pending_reason (dispatch_pending_state s),
    from_task_id = tid (tcb_at c s), to_task_id = tid (tcb_at i s)\<rparr>"
  have take: "dispatch_pending_take_snapshot s = Some snap"
    using r by (simp add: dispatch_pending_take_snapshot_def snap_def Let_def)
  have ids: "from_task_id snap = tid (tcb_at c s)" "to_task_id snap = tid (tcb_at i s)" by (simp_all add: snap_def)
  define s1 where "s1 = dispatch_pending_log_consumed snap s"
  have s1: "os_inv s1" "can_switch c i s1" "tcb_at j s1 = tcb_at j s" "run_view s1 = run_view s" for j
    using inv can by (simp_all add: s1_def dispatch_pending_log_consumed_def)
  note c1 = s1(2)[unfolded can_switch_def]
  have "lookup_tcb (tid (tcb_at i s)) (task_table s1) = Some i"
    using sys_inv_lookup[OF os_invD(1)[OF s1(1)], of i] c1 s1(3) by (simp add: tcb_used_def)
  moreover have "lookup_tcb (tid (tcb_at c s)) (task_table s1) = Some c"
    using os_inv_current(3)[OF s1(1)] c1 s1(3) by simp
  moreover have "i \<noteq> c" using c by auto
  then obtain s2 where s2: "dispatcher_switch_to env (Some c) (Some i) s1 = Some (DISPATCHER_OK, s2)" "os_inv s2"
    "run_view s2 = ended (entered_tasks c i s1) (Some i, snd (run_view s1))"
    using dispatcher_switch_view[OF keep s1(1), of c i] c1 by (auto simp: switchable_def)
  ultimately have "dispatch_pending_consume_at_deferred_boundary env s
      = Some (DISPATCHER_OK, dispatch_pending_clear_with_reason (Some ''dispatch-completed'') s2)"
    using c1 take ids by (simp add: dispatch_pending_consume_at_deferred_boundary_def s1_def[symmetric]
        task_get_mutable_by_id_def Let_def)
  moreover have "run_view (dispatch_pending_clear_with_reason l s2) = run_view s2" for l
    by (simp add: dispatch_pending_clear_with_reason_def run_view_def tcb_at_def Let_def split: option.split)
  moreover have "entered_tasks c i s1 = {i, c}" using c1 by (simp add: entered_tasks_def)
  ultimately show ?thesis using s2(2,3) s1(4) by simp
qed

end

text \<open>The interrupt switches when its tick and its evaluation leave a good request.\<close>

lemma timer_irq_switches:
  fixes s :: "'a pic_module_scheme"
  assumes env: "entry_contract env" and keep: "entries_keep_states env" and inv: "os_inv s"
    and tick: "s1 = timer_tick (say (\<lambda>s. [''[timer-irq] entry reached: vector=32 irq=0\<newline>'']) s)"
    and can: "can_switch c i s1" and req: "requests_switch c i (snd (preemption_evaluate_from_irq s1))"
  shows "\<exists>s'. arch_timer_irq_handle env s = Some s' \<and> os_inv s' \<and> \<not> dispatch_pending_is_requested s' \<and>
    run_view s' = ended {i, c} (Some i, snd (run_view s1))"
proof -
  obtain nr s2 where s2: "preemption_evaluate_from_irq s1 = (nr, s2)" by fastforce
  define s3 where "s3 = dispatch_pending_log_state_from_irq nr s2"
  have inv1: "os_inv s1" using inv by (simp add: tick os_inv_timer_tick)
  then have inv3: "os_inv s3" using os_inv_preemption[of s1] s2 by (simp add: s3_def)
  have "core s3 = core s1" using core_preemption[of s1] s2 by (simp add: s3_def)
  note core3 = core_eqD[OF this]
  have can3: "can_switch c i s3" using can switch_cong(1)[OF core3(1)] core3 by simp
  have view3: "run_view s3 = run_view s1" using core3 by (simp add: run_view_def tcb_at_def)
  have req3: "requests_switch c i s3"
    using req s2 by (auto simp: s3_def requests_switch_def dispatch_pending_log_state_from_irq_def Let_def tcb_at_def)
  define t where "t = say (\<lambda>s. [''requested action=deferred-dispatch\<newline>''])
    (say (\<lambda>s. [''[timer-irq] exit boundary: dispatch-pending='']) s3)"
  have "os_inv t" "can_switch c i t" "requests_switch c i t" "run_view t = run_view s1"
    using inv3 can3 req3 view3 by (simp_all add: t_def)
  from entry_contract.consume_switches[OF env keep this(1-3)] this(4) obtain s4 where
    s4: "dispatch_pending_consume_at_deferred_boundary env t = Some (DISPATCHER_OK, s4)" "os_inv s4"
      "\<not> requested (dispatch_pending_state s4)" "run_view s4 = ended {i, c} (Some i, snd (run_view s1))" by auto
  have "arch_timer_irq_exit_observe_boundary env s3 = Some s4"
    using s4(1) req3
    by (simp add: arch_timer_irq_exit_observe_boundary_def dispatch_pending_is_requested_def requests_switch_def
        t_def Let_def)
  then have "arch_timer_irq_handle env s
      = Some (say (\<lambda>s. [''[timer-irq] eoi sent: irq=0\<newline>'']) (arch_pic_send_eoi ARCH_TIMER_IRQ_LINE s4))"
    using s2 by (simp add: arch_timer_irq_handle_def tick[symmetric] s3_def[symmetric] Let_def)
  moreover have "run_view (arch_pic_send_eoi irq s4) = run_view s4"
    "dispatch_pending_state (arch_pic_send_eoi irq s4) = dispatch_pending_state s4" for irq
    by (simp_all add: arch_pic_send_eoi_def arch_pic_outb_def run_view_def tcb_at_def)
  ultimately show ?thesis using s4 by (simp add: dispatch_pending_is_requested_def)
qed

subsection \<open>What a tick leaves of the request\<close>

text \<open>A task without a time limit is not touched by a tick, in particular no task that is not WAITING.\<close>

lemma tick_keeps:
  fixes s :: "'a pending_module_scheme"
  assumes inv: "os_inv s" and i: "i < MAX_TASKS" "tstate (tcb_at i s) \<noteq> TASK_STATE_WAITING"
  shows "tcb_at i (timer_tick s) = tcb_at i s"
proof -
  have len: "i < length (task_table s)" using i(1) os_invD(3)[OF inv] by simp
  then have "task_table s ! i \<in> set (task_table s)" by simp
  then have "wait_data_ok (task_table s ! i)"
    using kernel_invD(1)[OF os_invD(2)[OF inv]] by (simp add: wait_inv_def tasks_inv_def tasks_ok_def)
  then have "\<not> timed_reason (wait_reason (task_table s ! i))"
    using i(2) by (simp add: wait_data_ok_def tcb_at_def timed_reason_def)
  with len show ?thesis by (simp add: tcb_at_def timer_tick_refines(3)[OF os_invD(2)[OF inv]] tick_tcb_def)
qed

lemma can_switch_tick:
  fixes s :: "'a pending_module_scheme"
  assumes inv: "os_inv s" and can: "can_switch c i s"
  shows "can_switch c i (timer_tick s)"
proof -
  note d = can[unfolded can_switch_def]
  have "c < MAX_TASKS" using os_inv_current(1)[OF inv] d by simp
  then have at: "tcb_at c (timer_tick s) = tcb_at c s" "tcb_at i (timer_tick s) = tcb_at i s"
    using tick_keeps[OF inv] d by simp_all
  with d timer_tick_refines(6)[OF os_invD(2)[OF inv]] valid_stack_cong[OF at(1)] valid_stack_cong[OF at(2)]
  show ?thesis by (simp add: can_switch_def)
qed

text \<open>A request of the task API survives the tick and the evaluation of the interrupt.\<close>

lemma task_request_survives:
  fixes s :: "'a pic_module_scheme"
  assumes inv: "os_inv s" and can: "can_switch c i s" and req: "requests_switch c i s"
    and task: "source (dispatch_pending_state s) = DISPATCH_PENDING_SOURCE_TASK"
    and tick: "s1 = timer_tick (say f s)"
  shows "can_switch c i s1 \<and> requests_switch c i (snd (preemption_evaluate_from_irq s1)) \<and>
    tcb_at c s1 = tcb_at c s \<and> tcb_at i s1 = tcb_at i s"
proof -
  have say: "os_inv (say f s)" "can_switch c i (say f s)" using inv can by simp_all
  have can1: "can_switch c i s1" unfolding tick by (rule can_switch_tick[OF say])
  have "c < MAX_TASKS" using os_inv_current(1)[OF inv] can by (simp add: can_switch_def)
  then have at: "tcb_at c s1 = tcb_at c s" "tcb_at i s1 = tcb_at i s"
    using tick_keeps[OF say(1)] can by (simp_all add: tick can_switch_def)
  have "dispatch_pending_state s1 = dispatch_pending_state s"
    using timer_tick_refines(7)[OF os_invD(2)[OF say(1)]] by (simp add: tick)
  moreover from this task req have "evaluated_request s1 = dispatch_pending_state s1"
    by (simp add: evaluated_request_def kept_request_def requests_switch_def Let_def split: option.split)
  moreover have "tcb_at j (snd (preemption_evaluate_from_irq s1)) = tcb_at j s1" for j
    using core_eqD(1)[OF core_preemption[of s1]] by (simp add: tcb_at_def)
  ultimately have "requests_switch c i (snd (preemption_evaluate_from_irq s1))"
    using req at by (simp add: requests_switch_def preemption_evaluated)
  with can1 at show ?thesis by simp
qed

lemma run_view_ended:
  assumes "run_view s' = ended {i, c} (Some i, snd (run_view s))"
  shows "current_task s' = Some i" and "tstate (tcb_at i s') = TASK_STATE_DORMANT"
    and "tstate (tcb_at c s') = TASK_STATE_DORMANT"
    and "j \<noteq> i \<Longrightarrow> j \<noteq> c \<Longrightarrow> tstate (tcb_at j s') = tstate (tcb_at j s)"
  using assms by (auto simp: run_view_def ended_def fun_eq_iff)

subsection \<open>A service that starts or wakes an urgent task\<close>

text \<open>What \<open>sta_tsk\<close> and \<open>wup_tsk\<close> have done to a task that they made READY.\<close>

lemma made_ready_requests:
  fixes s :: "'a pending_module_scheme"
  assumes inv: "os_inv s" and c: "current_task s = Some c" "tstate (tcb_at c s) = TASK_STATE_RUNNING" "valid_stack c s"
    and i: "lookup_tcb k (task_table s) = Some i" "valid_stack i s" "i \<noteq> c" "priority (tcb_at i s) < priority (tcb_at c s)"
    and core: "core s1 = core (upd_tcb i (tcb_enter TASK_STATE_READY 0 TASK_WAIT_REASON_NONE 0) s)"
    and req: "dispatch_pending_state s1 = ready_request r (current_task s) i s"
  shows "can_switch c i s1 \<and> requests_switch c i s1 \<and>
    source (dispatch_pending_state s1) = DISPATCH_PENDING_SOURCE_TASK"
proof -
  note core1 = core_eqD[OF core]
  have len: "i < length (task_table s)" using tasks.lookup_SomeD(1)[OF i(1)] .
  then have at: "tcb_at i s1 = tcb_enter TASK_STATE_READY 0 TASK_WAIT_REASON_NONE 0 (tcb_at i s)" "tcb_at c s1 = tcb_at c s"
    using core1(1) i(3) by (simp_all add: tcb_at_def task_table_upd_tcb)
  then have "valid_stack i s1 = valid_stack i s" "valid_stack c s1 = valid_stack c s"
    by (simp_all add: valid_stack_def context_validate_task_def tcb_enter_def)
  moreover have "current_task s1 = Some c" using core_eqD[OF core] c(1) by simp
  moreover have "i < MAX_TASKS" using len os_invD(3)[OF inv] by simp
  ultimately show ?thesis
    using at c i req by (simp add: can_switch_def requests_switch_def ready_request_def tcb_enter_def)
qed

text \<open>
  C6. Preemption, from the service to the switch: when a RUNNING task starts a DORMANT task of higher
  priority, or wakes a sleeping one, the service returns to the caller with the task READY, and the
  next timer interrupt switches to it. The interrupt returns in a state of the invariant with no
  request pending, the urgent task is the current one and its entry has run to its end, and so has
  that of the preempted task.
\<close>

theorem urgent_task_runs_at_next_interrupt:
  fixes s :: "'a pic_module_scheme"
  assumes env: "entry_contract env" and keep: "entries_keep_states env" and inv: "os_inv s"
    and c: "current_task s = Some c" "tstate (tcb_at c s) = TASK_STATE_RUNNING" "valid_stack c s"
    and i: "lookup_tcb k (task_table s) = Some i" "valid_stack i s" "priority (tcb_at i s) < priority (tcb_at c s)"
    and call: "call = Sta_tsk k \<and> tstate (tcb_at i s) = TASK_STATE_DORMANT \<or>
      call = Wup_tsk k \<and> tstate (tcb_at i s) = TASK_STATE_WAITING \<and> wait_reason (tcb_at i s) = TASK_WAIT_REASON_SLEEP"
  shows "\<exists>s1 s2. run_call env call s = Some (E_OK, s1) \<and> current_task s1 = Some c \<and>
    tstate (tcb_at i s1) = TASK_STATE_READY \<and>
    arch_timer_irq_handle env s1 = Some s2 \<and> os_inv s2 \<and> \<not> dispatch_pending_is_requested s2 \<and>
    current_task s2 = Some i \<and> tstate (tcb_at i s2) = TASK_STATE_DORMANT \<and> tstate (tcb_at c s2) = TASK_STATE_DORMANT"
proof -
  have ne: "i \<noteq> c" using call c(2) by auto
  obtain s1 r where s1: "run_call env call s = Some (E_OK, s1)" "os_inv s1"
    "core s1 = core (upd_tcb i (tcb_enter TASK_STATE_READY 0 TASK_WAIT_REASON_NONE 0) s)"
    "dispatch_pending_state s1 = ready_request r (current_task s) i s"
    using call
  proof
    assume "call = Sta_tsk k \<and> tstate (tcb_at i s) = TASK_STATE_DORMANT"
    with that[of "snd (sta_tsk k s)" DISPATCH_PENDING_TASK_START] sta_tsk_result[of k s] i(1) os_inv_sta_tsk[OF inv]
    show thesis by (simp add: prod_eq_iff)
  next
    assume "call = Wup_tsk k \<and> tstate (tcb_at i s) = TASK_STATE_WAITING \<and> wait_reason (tcb_at i s) = TASK_WAIT_REASON_SLEEP"
    with that[of "snd (wup_tsk k s)" DISPATCH_PENDING_TASK_WAKEUP] wup_tsk_result[of k s] i(1) os_inv_wup_tsk[OF inv]
    show thesis by (simp add: prod_eq_iff)
  qed
  have good: "can_switch c i s1" "requests_switch c i s1" "source (dispatch_pending_state s1) = DISPATCH_PENDING_SOURCE_TASK"
    using made_ready_requests[OF inv c i(1,2) ne i(3) s1(3,4)] by simp_all
  note tick = task_request_survives[OF s1(2) good refl]
  obtain s2 where s2: "arch_timer_irq_handle env s1 = Some s2" "os_inv s2" "\<not> dispatch_pending_is_requested s2"
    "run_view s2 = ended {i, c} (Some i, snd (run_view (timer_tick
      (say (\<lambda>s. [''[timer-irq] entry reached: vector=32 irq=0\<newline>'']) s1))))"
    using timer_irq_switches[OF env keep s1(2) refl] tick by blast
  with s1(1) good(1) run_view_ended(1-3)[OF s2(4)] show ?thesis by (auto simp: can_switch_def)
qed

text \<open>Task 1 starts task 9, of priority 1.\<close>

lemma urgent_task_runs_at_next_interrupt_witness:
  "\<exists>s1 s2. run_call demo_env (Sta_tsk 9) (machine_of busy) = Some (E_OK, s1) \<and>
    arch_timer_irq_handle demo_env s1 = Some s2 \<and> current_task s2 = Some 8"
proof -
  have t: "tcb_at 0 busy = sample_task 1 5 TASK_STATE_RUNNING 0 TASK_WAIT_REASON_NONE 0"
    "tcb_at 8 busy = sample_task 9 1 TASK_STATE_DORMANT 0 TASK_WAIT_REASON_NONE 0"
    by (simp_all add: tcb_at_def busy_tcb) (simp_all add: sample_tasks_def)
  have keep: "entries_keep_states (demo_env :: interrupt_module kernel_env)"
    unfolding demo_env_def by (rule boot_env_keeps_states)
  have "valid_stack 0 (machine_of busy)" "valid_stack 8 (machine_of busy)"
    by (simp_all add: valid_stack_def context_validate_task_def t) (simp_all add: sample_task_def)
  moreover have "lookup_tcb 9 (task_table busy) = Some 8"
    by (simp add: busy_lookup(2) sample_tasks_def sample_task_def)
  ultimately show ?thesis
    using urgent_task_runs_at_next_interrupt[OF demo_env_contract keep, of "machine_of busy" 0 9 8 "Sta_tsk 9"]
    by (auto simp: busy_os_inv busy_views t sample_task_def)
qed

subsection \<open>A time limit that ends\<close>

text \<open>The task in slot \<open>i\<close> is more urgent than every other task.\<close>

definition most_urgent :: "nat \<Rightarrow> 'a task_module_scheme \<Rightarrow> bool" where
  "most_urgent i s \<longleftrightarrow> (\<forall>j < length (task_table s). j \<noteq> i \<longrightarrow> tcb_used (tcb_at j s) \<longrightarrow>
     priority (tcb_at i s) < priority (tcb_at j s))"

lemma select_most_urgent:
  assumes "length (task_table s) = MAX_TASKS" and "i < MAX_TASKS" and "tstate (tcb_at i s) = TASK_STATE_READY"
    and "most_urgent i s"
  shows "scheduler_select_next s = Some i"
  unfolding scheduler_select_next_table
proof (rule sched.select_eqI[OF assms(1)])
  show "i \<in> ready_slots (task_table s)" using assms(1-3) by (simp add: ready_slots_def tcb_at_def)
  fix j assume "j \<in> ready_slots (task_table s)"
  with assms(4) show "urgency_at (task_table s) i \<le> urgency_at (task_table s) j"
    by (cases "j = i") (auto simp: ready_slots_def most_urgent_def urgency_at_def urgency_le tcb_at_def tcb_used_def)
qed

text \<open>The evaluation asks for the switch, unless a request of the task API is in the way.\<close>

lemma evaluation_requests:
  fixes s :: "'a pending_module_scheme"
  assumes can: "can_switch c i s" and sel: "scheduler_select_next s = Some i"
    and prio: "priority (tcb_at i s) < priority (tcb_at c s)"
    and free: "\<not> (requested (dispatch_pending_state s) \<and> source (dispatch_pending_state s) = DISPATCH_PENDING_SOURCE_TASK)"
  shows "requests_switch c i (snd (preemption_evaluate_from_irq s))"
proof -
  have "requested (evaluated_request s) \<and> current_id (evaluated_request s) = tid (tcb_at c s) \<and>
      candidate_id (evaluated_request s) = tid (tcb_at i s)"
    using can sel prio free
    by (auto simp: evaluated_request_def kept_request_def no_pending_def can_switch_def
        scheduler_select_preemption_candidate_def Let_def)
  moreover have "tcb_at j (snd (preemption_evaluate_from_irq s)) = tcb_at j s" for j
    using core_eqD(1)[OF core_preemption[of s]] by (simp add: tcb_at_def)
  ultimately show ?thesis by (simp add: requests_switch_def preemption_evaluated)
qed

lemma tick_tcb_priority [simp]: "priority (tick_tcb t) = priority t"
  by (simp add: tick_tcb_def tcb_enter_def)

text \<open>
  C7. Preemption, from the clock to the switch, within one interrupt: when the last tick of a delay or
  of a timed wait ends for the most urgent task while another task is RUNNING and no request of the
  task API is pending, that timer interrupt makes the task READY, finds that it should preempt, and
  switches to it before it returns.
\<close>

theorem ended_wait_preempts_in_same_interrupt:
  fixes s :: "'a pic_module_scheme"
  assumes env: "entry_contract env" and keep: "entries_keep_states env" and inv: "os_inv s"
    and c: "current_task s = Some c" "tstate (tcb_at c s) = TASK_STATE_RUNNING" "valid_stack c s"
    and i: "i < MAX_TASKS" "timed_wait (tcb_at i s) = Some 1" "valid_stack i s" "most_urgent i s"
    and free: "\<not> (requested (dispatch_pending_state s) \<and> source (dispatch_pending_state s) = DISPATCH_PENDING_SOURCE_TASK)"
  shows "\<exists>s'. arch_timer_irq_handle env s = Some s' \<and> os_inv s' \<and> \<not> dispatch_pending_is_requested s' \<and>
    current_task s' = Some i \<and> tstate (tcb_at i s') = TASK_STATE_DORMANT \<and> tstate (tcb_at c s') = TASK_STATE_DORMANT"
proof -
  define s0 where "s0 = say (\<lambda>s. [''[timer-irq] entry reached: vector=32 irq=0\<newline>'']) s"
  define s1 where "s1 = timer_tick s0"
  have s0: "os_inv s0" "task_table s0 = task_table s" "current_task s0 = Some c" "tcb_at j s0 = tcb_at j s"
    "dispatch_pending_state s0 = dispatch_pending_state s" for j
    using inv c(1) by (simp_all add: s0_def)
  note tick = timer_tick_refines[OF os_invD(2)[OF s0(1)]]
  have len: "length (task_table s) = MAX_TASKS" by (rule os_invD(3)[OF inv])
  have cl: "c < MAX_TASKS" by (rule os_inv_current(1)[OF inv c(1)])
  have at: "tcb_at j s1 = tick_tcb (tcb_at j s)" if "j < MAX_TASKS" for j
    using that len tick(3) by (simp add: s1_def tcb_at_def s0)
  have ci: "tcb_at c s1 = tcb_at c s" using tick_keeps[OF s0(1) cl] c(2) s0(4) by (simp add: s1_def)
  have ii: "tcb_at i s1 = tcb_enter TASK_STATE_READY 0 TASK_WAIT_REASON_NONE 0 (tcb_at i s)"
    using at[OF i(1)] i(2) by (simp add: tick_tcb_def timed_wait_def split: if_splits)
  have used: "tcb_used (tick_tcb (tcb_at j s)) = tcb_used (tcb_at j s)" if "j < MAX_TASKS" for j
    using tick_tcb_state(1)[of "tcb_at j s"] kernel_invD(1)[OF os_invD(2)[OF inv]] that len
    by (simp add: wait_inv_def tasks_inv_def tasks_ok_def tcb_at_def)
  have "valid_stack i s1 = valid_stack i s" "valid_stack c s1 = valid_stack c s"
    using ii ci by (simp_all add: valid_stack_def context_validate_task_def tcb_enter_def)
  then have can: "can_switch c i s1"
    using c i ii ci tick(6) s0(3) by (simp add: can_switch_def s1_def[symmetric] tcb_enter_def)
  have len1: "length (task_table s1) = MAX_TASKS" using tick(3) len s0(2) by (simp add: s1_def)
  have "most_urgent i s1"
    using i(1,4) len len1 at used by (simp add: most_urgent_def)
  then have sel: "scheduler_select_next s1 = Some i"
    using len1 i(1) ii by (intro select_most_urgent) (simp_all add: tcb_enter_def)
  have "c \<noteq> i" using can by (auto simp: can_switch_def)
  then have "priority (tcb_at i s) < priority (tcb_at c s)"
    using i(4) cl len c(2) by (simp add: most_urgent_def tcb_used_def)
  then have "requests_switch c i (snd (preemption_evaluate_from_irq s1))"
    using evaluation_requests[OF can sel] at[OF i(1)] ci free tick(7) s0(5) by (simp add: s1_def[symmetric])
  then obtain s' where "arch_timer_irq_handle env s = Some s'" "os_inv s'" "\<not> dispatch_pending_is_requested s'"
    "run_view s' = ended {i, c} (Some i, snd (run_view s1))"
    using timer_irq_switches[OF env keep inv s1_def[unfolded s0_def] can] by blast
  with run_view_ended(1-3) show ?thesis by blast
qed

text \<open>Task 1 is RUNNING, task 2 has one tick of its delay left.\<close>

definition waking :: pending_module where
  "waking = sample_state [sample_task 1 5 TASK_STATE_RUNNING 0 TASK_WAIT_REASON_NONE 0,
     sample_task 2 3 TASK_STATE_WAITING 0 TASK_WAIT_REASON_DELAY 1] [] [(2, 1)] (Some 0)"

lemma waking_os_inv: "os_inv waking"
  unfolding waking_def by (rule os_inv_sample) code_simp+

lemma ended_wait_preempts_in_same_interrupt_witness:
  "\<exists>s'. arch_timer_irq_handle demo_env (machine_of waking) = Some s' \<and> current_task s' = Some 1 \<and>
    tstate (tcb_at 1 s') = TASK_STATE_DORMANT"
proof -
  have t: "tcb_at 0 waking = sample_task 1 5 TASK_STATE_RUNNING 0 TASK_WAIT_REASON_NONE 0"
    "tcb_at 1 waking = sample_task 2 3 TASK_STATE_WAITING 0 TASK_WAIT_REASON_DELAY 1"
    by (simp_all add: waking_def sample_state_def tcb_at_def padded_tasks_def)
  note t = t t(2)[unfolded One_nat_def]
  have keep: "entries_keep_states (demo_env :: interrupt_module kernel_env)"
    unfolding demo_env_def by (rule boot_env_keeps_states)
  have "valid_stack 0 (machine_of waking)" "valid_stack 1 (machine_of waking)"
    by (simp_all add: valid_stack_def context_validate_task_def t) (simp_all add: sample_task_def)
  moreover have "most_urgent 1 (machine_of waking)"
    by (auto simp: most_urgent_def tcb_at_def waking_def sample_state_def padded_tasks_def nth_append nth_Cons
        tcb_used_def zero_tcb_def sample_task_def split: nat.splits)
  moreover have "current_task waking = Some 0" "\<not> requested (dispatch_pending_state waking)"
    by (simp_all add: waking_def sample_state_def no_pending_def)
  ultimately show ?thesis
    using ended_wait_preempts_in_same_interrupt[OF demo_env_contract keep, of "machine_of waking" 0 1]
    by (auto simp: waking_os_inv t sample_task_def timed_wait_def timed_reason_def)
qed

end
