(* ===== verification/Liveness.thy ===== *)
theory Liveness
  imports System Boot_Inv
begin

section \<open>What the services need to return\<close>

text \<open>
  To come back, the kernel needs much less than its invariant: the task table has its length, every
  task has an entry, and no pair of tasks is reserved (\<open>live\<close>). Every operation keeps this, whatever
  the other tables hold, so that the results below hold in every state of the boot sequence, also
  in those that break the invariant of the kernel. \<open>replies r\<close> says that the call comes back with a
  result in such a state, \<open>survives r\<close> the same of a step without result; the rules for them follow
  the shape of the definitions.
\<close>

subsection \<open>The weak invariant\<close>

definition live_inv :: "'a task_module_scheme \<Rightarrow> bool" where
  "live_inv s \<longleftrightarrow> length (task_table s) = MAX_TASKS \<and> entries_ok (task_table s)"

definition live :: "'a context_module_scheme \<Rightarrow> bool" where
  "live s \<longleftrightarrow> live_inv s \<and> no_reservation s"

lemma live_frame:
  "task_table s' = task_table s \<Longrightarrow> task_to_task_smoke_from s' = task_to_task_smoke_from s \<Longrightarrow> live s' = live s"
  by (simp add: live_def live_inv_def no_reservation_def)

lemma os_inv_live: "os_inv s \<Longrightarrow> live s"
  using os_invD[of s] sys_inv_entries[of s] by (simp add: live_def live_inv_def)

lemma live_inv_kview: "kview s' = kview s \<Longrightarrow> live_inv s \<Longrightarrow> live_inv s'"
proof -
  assume eq: "kview s' = kview s" and inv: "live_inv s"
  have views: "map tcb_view (task_table s') = map tcb_view (task_table s)"
    "map entry (task_table s') = map entry (task_table s)"
    using eq by (simp_all add: kview_def)
  then have len: "length (task_table s') = length (task_table s)" using map_eq_imp_length_eq by blast
  have "tcb_view (task_table s' ! i) = tcb_view (task_table s ! i)" and "entry (task_table s' ! i) = entry (task_table s ! i)"
    if "i < length (task_table s)" for i
    using arg_cong[OF views(1), of "\<lambda>xs. xs ! i"] arg_cong[OF views(2), of "\<lambda>xs. xs ! i"] that len
    by simp_all
  note this(2) tcb_viewD(3)[OF this(1)]
  moreover have "entry (task_table s ! i) \<noteq> 0" if "i < length (task_table s)" "tcb_used (task_table s ! i)" for i
    using inv that entries_ok_nth by (simp add: live_inv_def)
  ultimately have "entries_ok (task_table s')"
    using len by (auto simp: entries_ok_def in_set_conv_nth)
  with inv len show "live_inv s'" by (simp add: live_inv_def)
qed

lemma live_inv_mark_dormant: "live_inv s \<Longrightarrow> live_inv (snd (task_mark_dormant_from_entry_return k s))"
  by (auto simp: live_inv_def entries_ok_marks)
    (auto simp: task_mark_dormant_from_entry_return_def task_table_upd_tcb split: option.split)

interpretation live: switch_inv live_inv
proof
  show "live_inv s' = live_inv s" if "core s' = core s" for s s' :: "'a pending_module_scheme"
    using core_eqD(1)[OF that] by (simp add: live_inv_def)
qed (auto simp: live_inv_mark_dormant live_inv_kview[OF kview_save_context], auto simp: live_inv_def)

subsection \<open>The operations keep it\<close>

lemma live_say [simp]: "live (say f s) = live s"
  by (rule live_frame) simp_all

lemma live_upd_sem [simp]: "live (upd_sem i f s) = live s"
  by (rule live_frame) (simp_all add: upd_sem_def)

lemma live_completed [simp]: "live (completed op e a s) = live s"
  by (simp add: completed_def)

lemma live_current [simp]: "live (s\<lparr>current_task := c\<rparr>) = live s"
  by (rule live_frame) simp_all

lemma live_enter:
  assumes "live s" and "tcb_used (tcb_at i s) \<or> \<not> i < length (task_table s)"
  shows "live (upd_tcb i (tcb_enter st m r d) s)"
proof -
  have "entries_ok (task_table (upd_tcb i (tcb_enter st m r d) s))"
    using assms by (intro entries_ok_upd_tcb)
      (auto simp: live_def live_inv_def tcb_at_def tcb_enter_def dest: entries_ok_nth)
  with assms(1) show ?thesis by (simp add: live_def live_inv_def no_reservation_def task_table_upd_tcb)
qed

lemma live_remaining [simp]: "live s \<Longrightarrow> live (upd_tcb i (\<lambda>t. t\<lparr>delay_ticks_remaining := d\<rparr>) s)"
proof -
  assume live: "live s"
  then have "entries_ok (task_table (upd_tcb i (\<lambda>t. t\<lparr>delay_ticks_remaining := d\<rparr>) s))"
    by (intro entries_ok_upd_tcb) (auto simp: live_def live_inv_def tcb_used_def dest: entries_ok_nth)
  with live show ?thesis by (simp add: live_def live_inv_def no_reservation_def task_table_upd_tcb)
qed

lemma scan_used: "scan_task_id k (task_table s) = Some i \<Longrightarrow> tcb_used (tcb_at i s)"
  using first_index_SomeD[of _ "task_table s" i] by (auto simp: scan_task_id_def tcb_at_def)

lemma lookup_used: "task_get_mutable_by_id k s = Some i \<Longrightarrow> i < length (task_table s) \<and> tcb_used (tcb_at i s)"
  using tasks.lookup_SomeD[of k "task_table s" i] by (simp add: task_get_mutable_by_id_def tcb_at_def)

lemma live_marks [simp]:
  assumes "live s"
  shows "live (snd (task_mark_dormant_from_entry_return k s))" "live (snd (task_mark_ready_from_running k s))"
    "live (snd (task_mark_running k s))" "live (snd (task_start_dormant k s))"
    "live (snd (task_mark_waiting_on_sem k m s))" "live (snd (task_mark_waiting_on_sem_timeout k m d s))"
    "live (snd (task_mark_waiting_on_delay k d s))" "live (snd (task_mark_waiting_on_sleep k s))"
    "live (snd (task_wake_waiting_on_sem_by_id k m s))" "live (snd (task_wake_waiting_on_delay_by_id k s))"
    "live (snd (task_wake_waiting_on_sem_timeout_by_id k m s))" "live (snd (task_wake_waiting_on_sleep_by_id k s))"
  using assms
  by (auto simp: task_op_defs Let_def dest: scan_used lookup_used intro!: live_enter split: option.split)


lemma live_task_register [simp]:
  assumes "live s"
  shows "live (snd (task_register name ent prio base sz s))"
    and "live (snd (task_create_dormant k name ent prio base sz s))"
proof -
  have len: "length (task_table (snd (task_register name ent prio base sz s))) = length (task_table s)"
    "length (task_table (snd (task_create_dormant k name ent prio base sz s))) = length (task_table s)"
    by (simp_all add: task_register_def task_create_dormant_def allocate_task_id_def Let_def task_table_upd_tcb
        split: option.split)
  from assms entries_ok_created[of s] show "live (snd (task_register name ent prio base sz s))"
    "live (snd (task_create_dormant k name ent prio base sz s))"
    by (simp_all add: live_def live_inv_def no_reservation_def len)
qed

text \<open>Semaphores, delays, requests and logs do not touch the tasks.\<close>

lemma live_fold: "(\<And>x s. live (f x s) = live s) \<Longrightarrow> live (fold f xs s) = live s"
  by (induction xs arbitrary: s) simp_all

lemma live_dumps [simp]:
  "live (sem_dump s) = live s" "live (delay_queue_dump s) = live s" "live (task_dump s) = live s"
proof -
  show "live (sem_dump s) = live s" unfolding sem_dump_def Let_def live_say
    by (subst live_fold) simp_all
  show "live (delay_queue_dump s) = live s" unfolding delay_queue_dump_def Let_def live_say
    by (subst live_fold) (simp_all split: option.split)
  show "live (task_dump s) = live s" unfolding task_dump_def Let_def live_say
    by (subst live_fold) simp_all
qed

lemma live_semaphores [simp]:
  "live (snd (sem_create name init mx s)) = live s" "live (snd (sem_init s)) = live s"
  "live (snd (sem_take_if_available m s)) = live s" "live (snd (sem_increment_count m s)) = live s"
  "live (snd (sem_enqueue_waiter m k s)) = live s" "live (snd (sem_dequeue_waiter m s)) = live s"
  "live (snd (sem_remove_waiter m k s)) = live s"
  by (rule live_frame;
      simp add: sem_create_def sem_init_def sem_take_if_available_def sem_increment_count_def
        sem_enqueue_waiter_def sem_dequeue_waiter_def sem_remove_waiter_def allocate_sem_id_def
        upd_sem_def Let_def split: option.split)+

lemma live_set_dq [simp]: "live (set_dq i e s) = live s" "live (s\<lparr>delay_queue_count := n\<rparr>) = live s"
  by (rule live_frame; simp add: set_dq_def)+

lemma live_delays [simp]:
  "live (delay_queue_remove_at i s) = live s" "live (snd (delay_queue_enqueue k d s)) = live s"
  "live (snd (delay_queue_remove_sem_timeout_waiter k s)) = live s"
proof -
  show remove: "live (delay_queue_remove_at i s) = live s" for i s
    by (simp add: delay_queue_remove_at_def dq_shift_def live_fold Let_def)
  show "live (snd (delay_queue_enqueue k d s)) = live s"
    by (simp add: delay_queue_enqueue_def dq_append_def Let_def split: option.split)
  show "live (snd (delay_queue_remove_sem_timeout_waiter k s)) = live s"
    by (simp add: delay_queue_remove_sem_timeout_waiter_def remove Let_def split: option.split)
qed

lemma live_ticks [simp]: "live (s\<lparr>system_ticks := t\<rparr>) = live s"
  by (rule live_frame) simp_all

lemma live_pending_state [simp]: "live (s\<lparr>dispatch_pending_state := p\<rparr>) = live s"
  by (rule live_frame) simp_all

lemma live_pending [simp]:
  "live (dispatch_pending_clear_with_reason l s) = live s"
  "live (dispatch_pending_clear_for_test_or_later_boundary s) = live s"
  "live (dispatch_pending_clear_irq_for_evaluation s) = live s"
  "live (dispatch_request_from_irq cu ca s) = live s"
  "live (dispatch_request_from_task_start cu ca s) = live s"
  "live (dispatch_request_from_task_wakeup cu ca s) = live s"
  "live (dispatch_pending_log_state_from_irq nr s) = live s"
  "live (dispatch_pending_log_consumed sn s) = live s"
  by (simp_all add: dispatch_pending_clear_with_reason_def dispatch_pending_clear_for_test_or_later_boundary_def
      dispatch_pending_clear_irq_for_evaluation_def dispatch_request_from_irq_def pending_request_def
      dispatch_request_from_task_start_def dispatch_request_from_task_wakeup_def
      dispatch_pending_log_state_from_irq_def dispatch_pending_log_consumed_def Let_def split: option.split)

lemma live_preemption [simp]: "live (snd (preemption_evaluate_from_irq s)) = live s"
  by (simp add: preemption_evaluate_from_irq_def preemption_irq_log_task_def preemption_irq_log_decision_def
      Let_def split: option.split)

subsection \<open>The tick\<close>

lemma live_expire: "live s \<Longrightarrow> live (delay_queue_expire t r k s)"
  by (simp add: delay_queue_expire_def Let_def case_prod_beta split: option.split)

lemma live_tick_entry: "live s \<Longrightarrow> delay_queue_tick_entry i e s = (i', e', s') \<Longrightarrow> live s'"
  by (auto simp: delay_queue_tick_entry_def delay_queue_tick_down_def delay_queue_timeout_def live_expire Let_def
      split: option.splits if_splits)

lemma live_tick_loop: "live s \<Longrightarrow> live (snd (delay_queue_tick_loop i e s))"
proof (induction i e s rule: delay_queue_tick_loop.induct)
  case (1 i e s)
  show ?case
  proof (cases "i < delay_queue_count s")
    case True
    obtain i' e' s' where step: "delay_queue_tick_entry i e s = (i', e', s')" by (metis prod_cases3)
    with 1(1)[OF True step[symmetric]] live_tick_entry[OF 1(2) step] True show ?thesis
      by (simp add: delay_queue_tick_loop.simps[of i e s])
  next
    case False
    with 1(2) show ?thesis by (simp add: delay_queue_tick_loop.simps[of i e s])
  qed
qed

lemma live_timer_tick [simp]: "live s \<Longrightarrow> live (timer_tick s)"
  by (simp add: timer_tick_def delay_queue_tick_def live_tick_loop Let_def case_prod_beta)

subsection \<open>Returning\<close>

definition survives :: "'a context_module_scheme option \<Rightarrow> bool" where
  "survives r \<longleftrightarrow> (\<exists>s. r = Some s \<and> live s)"

definition replies :: "('b \<times> 'a context_module_scheme) option \<Rightarrow> bool" where
  "replies r \<longleftrightarrow> (\<exists>x s. r = Some (x, s) \<and> live s)"

lemma survives_Some [simp]: "survives (Some s) = live s"
  by (simp add: survives_def)

lemma replies_Some [simp]: "replies (Some p) = live (snd p)"
  by (cases p) (simp add: replies_def)

lemma survives_bind:
  "survives m \<Longrightarrow> (\<And>s. live s \<Longrightarrow> survives (f s)) \<Longrightarrow> survives (Option.bind m f)"
  by (auto simp: survives_def)

lemma replies_bind:
  "replies m \<Longrightarrow> (\<And>x s. live s \<Longrightarrow> replies (f (x, s))) \<Longrightarrow> replies (Option.bind m f)"
  by (auto simp: replies_def)

lemma survives_call:
  "replies m \<Longrightarrow> (\<And>x s. live s \<Longrightarrow> survives (f (x, s))) \<Longrightarrow> survives (Option.bind m f)"
  by (auto simp: survives_def replies_def)

lemma replies_after:
  "survives m \<Longrightarrow> (\<And>s. live s \<Longrightarrow> replies (f s)) \<Longrightarrow> replies (Option.bind m f)"
  by (auto simp: survives_def)

lemma transitions_live:
  assumes "live s"
  shows "live (snd (dispatcher_transitions f t s))"
  using assms by (simp add: dispatcher_transitions_def Let_def case_prod_beta)

lemma used_upd_enter:
  "tcb_used (tcb_at i s) \<Longrightarrow> st \<noteq> TASK_STATE_UNUSED \<Longrightarrow> tcb_used (tcb_at i (upd_tcb j (tcb_enter st m r d) s))"
  by (cases "j < length (task_table s)")
    (auto simp: tcb_at_def task_table_upd_tcb nth_update_eq_if list_update_beyond tcb_used_def tcb_enter_def)

lemma transitions_used:
  assumes "tcb_used (tcb_at i s)"
  shows "tcb_used (tcb_at i (snd (dispatcher_transitions f t s)))"
proof -
  have marks: "tcb_used (tcb_at i (snd (task_mark_ready_from_running k s)))"
    "tcb_used (tcb_at i (snd (task_mark_running k s)))" if "tcb_used (tcb_at i s)" for k and s :: "'a dispatcher_module_scheme"
    using that by (auto simp: task_op_defs Let_def used_upd_enter split: option.split)
  have current: "tcb_at i (s\<lparr>current_task := c\<rparr>) = tcb_at i s" for c and s :: "'a dispatcher_module_scheme"
    by (simp add: tcb_at_def)
  show ?thesis using assms by (simp add: dispatcher_transitions_def Let_def case_prod_beta marks current)
qed

locale live_contract = switch_contract live_inv env for env :: "'a pending_module_scheme kernel_env"
begin

lemma switch_live:
  assumes "live s" and "f < MAX_TASKS" "tcb_used (tcb_at f s)" and "t < MAX_TASKS" "tcb_used (tcb_at t s)"
  shows "replies (dispatcher_switch_to env (Some f) (Some t) s)"
proof -
  have enter: "replies (dispatcher_enter env f t s')"
    if "live s'" "tcb_used (tcb_at f s')" "tcb_used (tcb_at t s')" "t \<noteq> f" for s'
    using dispatcher_enter_returns[OF _ assms(2) that(2) assms(4) that(3,4)] that(1) by (auto simp: live_def replies_def)
  have "replies (case fst p of Some e \<Rightarrow> Some (e, snd p) | None \<Rightarrow> dispatcher_enter env f t (snd p))"
    if p: "p = dispatcher_transitions f t (say g s)" "t \<noteq> f" for p g
    using p enter[of "snd p"] assms transitions_live[of "say g s" f t] transitions_used[of _ "say g s" f t]
    by (auto split: option.split)
  with assms(1) show ?thesis
    by (auto simp: dispatcher_switch_to_def Let_def case_prod_beta)
qed

lemma switch_found:
  assumes "live s" and "task_get_mutable_by_id j s = Some f" and "task_get_mutable_by_id k s = Some t"
  shows "replies (dispatcher_switch_to env (Some f) (Some t) s)"
  using switch_live[OF assms(1)] lookup_used[OF assms(2)] lookup_used[OF assms(3)] assms(1)
  by (simp add: live_def live_inv_def)

text \<open>The services that switch.\<close>

lemma wait_switch_live:
  assumes "live s"
  shows "replies (wait_switch env op nf fl sw c s)"
  using assms
  by (auto simp: wait_switch_def Let_def intro!: replies_bind[OF switch_found] split: option.split)

lemma slp_tsk_live:
  assumes "live s"
  shows "replies (slp_tsk env s)"
proof -
  have switch: "replies (slp_tsk_switch env c s')" if "live s'" for c s'
    using that
    by (auto simp: slp_tsk_switch_def Let_def intro!: replies_bind[OF switch_found] split: option.split)
  have "live s'" if "task_mark_waiting_on_sleep k (say g s) = (r, s')" for k g r s'
    using live_marks(8)[of "say g s" k] that assms by simp
  with assms switch show ?thesis
    by (auto simp: slp_tsk_def Let_def split: option.split prod.split)
qed

lemma yield_tsk_live:
  assumes "live s"
  shows "replies (yield_tsk env s)"
proof -
  have switch: "replies (yield_tsk_switch env c n s')" if "live s'" for c n s'
    using that
    by (auto simp: yield_tsk_switch_def Let_def intro!: replies_bind[OF switch_found] split: option.split)
  have "live s'" if "task_mark_ready_from_running k (say g s) = (r, s')" for k g r s'
    using live_marks(2)[of "say g s" k] that assms by simp
  with assms switch show ?thesis
    by (auto simp: yield_tsk_def Let_def split: option.split prod.split)
qed

lemma wai_sem_live:
  assumes "live s"
  shows "replies (wai_sem env m s)"
proof -
  have block: "replies (wai_sem_block env m n c s')" if "live s'" for n c s'
    using that wait_switch_live
    by (auto simp: wai_sem_block_def Let_def case_prod_beta)
  show ?thesis
    using assms block
    by (auto simp: wai_sem_def Let_def case_prod_beta split: option.split)
qed

lemma twai_sem_live:
  assumes "live s"
  shows "replies (twai_sem env m d s)"
proof -
  have wait: "replies (twai_sem_wait env m d c s')" if "live s'" for c s'
    using that wait_switch_live
    by (auto simp: twai_sem_wait_def Let_def case_prod_beta)
  have block: "replies (twai_sem_block env m d c s')" if "live s'" for c s'
    using that wait
    by (auto simp: twai_sem_block_def log_delay_queue_refusal_def Let_def)
  show ?thesis
    using assms block
    by (auto simp: twai_sem_def Let_def case_prod_beta split: option.split)
qed

lemma dly_tsk_live:
  assumes "live s"
  shows "replies (dly_tsk env d s)"
proof -
  have wait: "replies (dly_tsk_wait env d c s')" if "live s'" for c s'
    using that wait_switch_live
    by (auto simp: dly_tsk_wait_def Let_def case_prod_beta)
  show ?thesis
    using assms wait
    by (auto simp: dly_tsk_def log_delay_queue_refusal_def Let_def split: option.split)
qed

lemma consume_live:
  assumes "live s"
  shows "replies (dispatch_pending_consume_at_deferred_boundary env s)"
  using assms
  by (auto simp: dispatch_pending_consume_at_deferred_boundary_def Let_def
      intro!: replies_bind[OF switch_found] split: option.split)

end

subsection \<open>The services that do not switch\<close>

text \<open>They come back in every environment: that they keep \<open>live\<close> is all there is to show.\<close>

lemma live_pol_sem [simp]: "live s \<Longrightarrow> live (snd (pol_sem m s))"
  by (simp add: pol_sem_def Let_def case_prod_beta split: option.split)

lemma live_sig_sem [simp]:
  assumes "live s"
  shows "live (snd (sig_sem m s))"
proof -
  have ready: "live (snd (sig_sem_ready cur k w r s'))" if "live s'" for cur k w r and s' :: "'a pending_module_scheme"
    using that by (simp add: sig_sem_ready_def Let_def split: option.split)
  have wake: "live (snd (sig_sem_wake cur m k s'))" if "live s'" for cur k and s' :: "'a pending_module_scheme"
    using that ready by (simp add: sig_sem_wake_def Let_def case_prod_beta split: option.split)
  show ?thesis using assms wake by (simp add: sig_sem_def Let_def case_prod_beta split: option.split)
qed

lemma live_wup_tsk [simp]:
  assumes "live s"
  shows "live (snd (wup_tsk k s))"
proof -
  have ready: "live (snd (wup_tsk_ready cur k s'))" if "live s'" for cur and s' :: "'a pending_module_scheme"
    using that by (simp add: wup_tsk_ready_def Let_def split: option.split)
  show ?thesis using assms ready by (simp add: wup_tsk_def Let_def case_prod_beta split: option.split)
qed

lemma live_sta_tsk [simp]:
  assumes "live s"
  shows "live (snd (sta_tsk k s))"
proof -
  have ready: "live (snd (sta_tsk_ready cur k s'))" if "live s'" for cur and s' :: "'a pending_module_scheme"
    using that by (simp add: sta_tsk_ready_def Let_def split: option.split)
  show ?thesis using assms ready by (simp add: sta_tsk_def Let_def case_prod_beta split: option.split)
qed

lemma live_cre_tsk [simp]:
  fixes s :: "'a context_module_scheme"
  shows "live s \<Longrightarrow> live (snd (cre_tsk k pk s))"
  by (simp add: cre_tsk_def Let_def case_prod_beta split: option.split)

end
