(* ===== verification/Boot_Live.thy ===== *)
theory Boot_Live
  imports Liveness
begin

section \<open>The boot sequence comes back\<close>

text \<open>
  Every step of the boot sequence keeps the weak invariant \<open>live\<close> of \<open>Liveness\<close> and returns, when the
  entries do. The lemmas are proved for any environment of a \<open>live_contract\<close>; the entries of
  \<open>kernel.c\<close>, which only print, are one.
\<close>

subsection \<open>Steps that cannot fail to return\<close>

lemma live_boot_logs [simp]:
  "live (kernel_log_scheduler_selection l t s) = live s" "live (kernel_log_task_register_result nm r s) = live s"
  "live (kernel_log_dispatcher_commit_result r s) = live s" "live (kernel_log_preemption_decision l d s) = live s"
  "live (kernel_log_entry_call i s) = live s" "live (kernel_log_entry_return i s) = live s"
  "live (kernel_log_cooperative_iteration n s) = live s" "live (kernel_log_cooperative_return i s) = live s"
  "live (kernel_log_ready_recandidacy t r s) = live s" "live (kernel_log_cooperative_stop l s) = live s"
  "live (kernel_log_entry_skip l t s) = live s"
  by (simp_all add: kernel_log_scheduler_selection_def kernel_log_task_register_result_def
      kernel_log_dispatcher_commit_result_def kernel_log_preemption_decision_def kernel_log_entry_call_def
      kernel_log_entry_return_def kernel_log_cooperative_iteration_def kernel_log_cooperative_return_def
      kernel_log_ready_recandidacy_def kernel_log_cooperative_stop_def kernel_log_entry_skip_def Let_def
      split: option.split)

lemma live_kernel_register [simp]:
  fixes s :: "'a dispatcher_module_scheme"
  shows "live s \<Longrightarrow> live (snd (kernel_register img e nm p s))"
  by (simp add: kernel_register_def case_prod_beta Let_def)

lemma live_commit [simp]: "live s \<Longrightarrow> live (snd (dispatcher_commit_current t s))"
  by (simp add: dispatcher_commit_current_def case_prod_beta Let_def split: option.split)

lemma live_kernel_commit [simp]: "live s \<Longrightarrow> live (snd (kernel_commit k s))"
  by (simp add: kernel_commit_def)

lemma live_or_else:
  "live (snd r) \<Longrightarrow> (\<And>s. live s \<Longrightarrow> live (snd (f s))) \<Longrightarrow> live (snd (or_else r f))"
  by (cases r) (simp add: or_else_def)

lemma live_preemption_smoke [simp]: "live s \<Longrightarrow> live (kernel_run_preemption_smoke l h s)"
  by (simp add: kernel_run_preemption_smoke_def kernel_run_preemption_decision_smoke_def kernel_preemption_case_def
      Let_def case_prod_beta)

lemma live_semaphore_signals [simp]: "live s \<Longrightarrow> live (kernel_semaphore_signals m s)"
  by (simp add: kernel_semaphore_signals_def Let_def)

lemma live_tick_smoke [simp]: "live s \<Longrightarrow> live (kernel_run_tick_ready_wakeup_smoke d t c s)"
  by (simp add: kernel_run_tick_ready_wakeup_smoke_def kernel_tick_delay_setup_def kernel_tick_twai_setup_def
      kernel_tick_and_dump_def live_or_else Let_def case_prod_beta)

lemma live_sleep_refusal [simp]:
  "(\<And>k s. live s \<Longrightarrow> live (snd (mark k s))) \<Longrightarrow> live s \<Longrightarrow> live (kernel_sleep_refusal img e nm mark s)"
  by (simp add: kernel_sleep_refusal_def live_or_else Let_def case_prod_beta)

lemma live_sleep_wakeups [simp]: "live s \<Longrightarrow> live (kernel_sleep_wakeups img k s)"
  by (simp add: kernel_sleep_wakeups_def Let_def)

text \<open>The hardware around the kernel.\<close>

lemma live_hardware [simp]:
  "live (arch_pic_outb a v s) = live s" "live (arch_pic_io_wait s) = live s" "live (arch_pic_write_masks s) = live s"
  "live (snd (arch_pic_init s)) = live s" "live (arch_pic_unmask_irq irq s) = live s"
  "live (arch_pic_send_eoi irq s) = live s"
proof -
  have outb [simp]: "live (arch_pic_outb a v s) = live s" for a v and s :: "'a pic_module_scheme"
    by (rule live_frame) (simp_all add: arch_pic_outb_def)
  have masks [simp]: "live (s\<lparr>pic_master_mask := a\<rparr>) = live s" "live (s\<lparr>pic_slave_mask := b\<rparr>) = live s"
    "live (s\<lparr>pic_master_mask := a, pic_slave_mask := b\<rparr>) = live s" for a b and s :: "'a pic_module_scheme"
    by (rule live_frame; simp)+
  show "live (arch_pic_outb a v s) = live s" by simp
  show [simp]: "live (arch_pic_io_wait s) = live s" for s :: "'a pic_module_scheme" by (simp add: arch_pic_io_wait_def)
  show [simp]: "live (arch_pic_write_masks s) = live s" for s :: "'a pic_module_scheme"
    by (simp add: arch_pic_write_masks_def Let_def)
  show "live (snd (arch_pic_init s)) = live s" by (simp add: arch_pic_init_def Let_def)
  show "live (arch_pic_unmask_irq irq s) = live s" by (simp add: arch_pic_unmask_irq_def Let_def)
  show "live (arch_pic_send_eoi irq s) = live s" by (simp add: arch_pic_send_eoi_def Let_def)
qed

lemma live_enable_timer [simp]: "live (hal_interrupt_enable_timer_entry_validation s) = live s"
proof -
  have flag: "live (s\<lparr>interrupt_flag := b\<rparr>) = live s" for b and s :: "'a interrupt_module_scheme"
    by (rule live_frame) simp_all
  show ?thesis
    by (simp add: hal_interrupt_enable_timer_entry_validation_def arch_interrupt_enable_timer_entry_validation_def
        flag Let_def)
qed

subsection \<open>The smokes that switch\<close>

context live_contract
begin

lemma yield_smoke_live: "live s \<Longrightarrow> replies (kernel_run_yield_running_smoke env t s)"
  by (auto simp: kernel_run_yield_running_smoke_def Let_def case_prod_beta intro!: replies_bind[OF yield_tsk_live])

lemma context_smoke_live: "live s \<Longrightarrow> replies (kernel_run_minimal_context_switch_smoke env i j s)"
  by (auto simp: kernel_run_minimal_context_switch_smoke_def Let_def case_prod_beta
      intro!: replies_bind[OF switch_found] split: option.split)

lemma main_context_smoke_live:
  assumes "live s"
  shows "survives (kernel_main_context_smoke env k l s)"
proof -
  have "survives (Option.bind (kernel_run_minimal_context_switch_smoke env i j s') (\<lambda>(r, s). Some s))"
    if "live s'" for i j s'
    using that by (intro survives_call[OF context_smoke_live]) simp_all
  with assms show ?thesis by (simp add: kernel_main_context_smoke_def Let_def split: option.split)
qed

lemma entry_live:
  assumes "live s" and "a \<noteq> 0"
  shows "survives (entry_body env a s)"
proof -
  obtain s' where s': "entry_body env a s = Some s'" "live_inv s'" "switch_frame s s'"
    using entry_returns[of s a] assms by (auto simp: live_def)
  then have "no_reservation s'" using assms(1) by (simp add: live_def no_reservation_def switch_frame_def)
  with s' show ?thesis by (simp add: live_def)
qed

lemma cooperative_iteration_live:
  assumes "live s"
  shows "replies (kernel_cooperative_iteration env n s)"
  using assms
  by (auto simp: kernel_cooperative_iteration_def kernel_log_entry_call_def Let_def case_prod_beta
      intro!: replies_after[OF entry_live] split: option.split)

lemma cooperative_loop_live: "live s \<Longrightarrow> survives (kernel_cooperative_loop env k n s)"
proof (induction k arbitrary: n s)
  case 0
  then show ?case by simp
next
  case (Suc k)
  obtain b s1 where "kernel_cooperative_iteration env n s = Some (b, s1)" "live s1"
    using cooperative_iteration_live[OF Suc.prems] unfolding replies_def by blast
  with Suc.IH[of s1 "n + 1"] show ?case by simp
qed

text \<open>The services in the form in which the smokes use them, whatever the result.\<close>

lemmas service_calls = survives_call[OF yield_tsk_live] survives_call[OF slp_tsk_live] survives_call[OF wai_sem_live]
  survives_call[OF twai_sem_live] survives_call[OF dly_tsk_live] survives_call[OF consume_live]

lemma semaphore_smoke_live: "live s \<Longrightarrow> survives (kernel_run_semaphore_smoke img env k s)"
  by (auto simp: kernel_run_semaphore_smoke_def Let_def case_prod_beta intro!: service_calls)

lemma delay_smoke_live: "live s \<Longrightarrow> survives (kernel_run_delay_smoke env k s)"
  by (auto simp: kernel_run_delay_smoke_def Let_def case_prod_beta intro!: service_calls)

lemma twai_smoke_live: "live s \<Longrightarrow> survives (kernel_run_twai_sem_smoke env k s)"
  by (auto simp: kernel_run_twai_sem_smoke_def Let_def case_prod_beta intro!: service_calls)

lemma create_start_smoke_live: "live s \<Longrightarrow> survives (kernel_run_create_start_task_api_smoke img env s)"
  by (auto simp: kernel_run_create_start_task_api_smoke_def Let_def case_prod_beta intro!: service_calls)

lemma sleep_smoke_live: "live s \<Longrightarrow> survives (kernel_run_sleep_wakeup_task_api_smoke img env s)"
  by (auto simp: kernel_run_sleep_wakeup_task_api_smoke_def Let_def case_prod_beta intro!: service_calls)

lemma main_switches_live:
  assumes "live s"
  shows "survives (kernel_main_switches img env a b c s)"
proof -
  have yield: "replies (if x then kernel_run_yield_running_smoke env t s' else Some (0, s'))"
    if "live s'" for x t s'
    using yield_smoke_live[OF that] that by simp
  have loop: "survives (kernel_run_cooperative_entries env s')" if "live s'" for s'
    using cooperative_loop_live[OF that] by (simp add: kernel_run_cooperative_entries_def)
  show ?thesis
    using assms
    by (auto simp: kernel_main_switches_def Let_def case_prod_beta
        intro!: survives_bind[OF main_context_smoke_live] survives_call[OF yield_tsk_live] survives_call[OF yield] loop)
qed

lemma main_services_live:
  assumes "live s"
  shows "survives (kernel_main_services img env s)"
proof -
  have smokes: "survives (if x then kernel_run_semaphore_smoke img env k s' else Some s')"
    "survives (if x then kernel_run_delay_smoke env k s' else Some s')"
    "survives (if x then kernel_run_twai_sem_smoke env k s' else Some s')" if "live s'" for x k s'
    using semaphore_smoke_live[OF that] delay_smoke_live[OF that] twai_smoke_live[OF that] that by simp_all
  show ?thesis
    using assms unfolding kernel_main_services_def Let_def case_prod_beta
    by (intro survives_bind smokes create_start_smoke_live sleep_smoke_live) simp_all
qed

end

subsection \<open>The timer interrupt and \<open>kernel_main\<close>\<close>

text \<open>The environments of the higher layers: \<open>live_contract\<close> is stated for the state of the kernel.\<close>

lemma timer_irq_live:
  fixes env :: "'a pic_module_scheme kernel_env"
  assumes env: "live_contract env" and s: "live s"
  shows "survives (arch_timer_irq_handle env s)"
  using s
  by (auto simp: arch_timer_irq_handle_def arch_timer_irq_exit_observe_boundary_def Let_def case_prod_beta
      intro!: survives_bind survives_call[OF live_contract.consume_live[OF env]])

lemma irq_validation_live:
  fixes env :: "'a interrupt_module_scheme kernel_env"
  assumes env: "live_contract env" and s: "live s"
  shows "survives (kernel_main_irq_validation env a b s)"
  using s
  by (auto simp: kernel_main_irq_validation_def Let_def case_prod_beta
      intro!: survives_call[OF live_contract.consume_live[OF env]])

lemma main_init_live:
  fixes s :: "'a dispatcher_module_scheme"
  assumes "length (task_table s) = MAX_TASKS" and "task_to_task_smoke_from s = None"
  shows "live (kernel_main_init s)"
proof -
  have "live (task_init s)"
    using assms by (simp add: task_init_def live_def live_inv_def entries_ok_def no_reservation_def cleared_tcb_zero)
  moreover have "live (snd (delay_queue_init s'))" "live (dispatcher_init s')" "live (timer_init s')"
    if "live s'" for s' :: "'a dispatcher_module_scheme"
    using that live_frame[of s' "s'\<lparr>delay_queue_entries := e\<rparr>" for e]
    by (simp_all add: delay_queue_init_def dispatcher_init_def timer_init_def Let_def)
  ultimately show ?thesis
    by (simp add: kernel_main_init_def kernel_run_timer_smoke_def scheduler_init_def Let_def)
qed

lemma main_tasks_live:
  fixes env :: "'a interrupt_module_scheme kernel_env"
  assumes env: "live_contract env" and "length (task_table s) = MAX_TASKS" and "task_to_task_smoke_from s = None"
  shows "survives (kernel_main_tasks build img env s)"
  using main_init_live[OF assms(2,3)]
  by (auto simp: kernel_main_tasks_def Let_def case_prod_beta
      intro!: survives_bind[OF live_contract.main_switches_live[OF env]]
        live_contract.main_services_live[OF env] irq_validation_live[OF env])

text \<open>The controllers do not touch the tasks.\<close>

lemma hardware_init_frame:
  "task_table (snd (arch_interrupt_init ie s)) = task_table s"
  "task_to_task_smoke_from (snd (arch_interrupt_init ie s)) = task_to_task_smoke_from s"
  "task_table (snd (arch_pic_init s)) = task_table s"
  "task_to_task_smoke_from (snd (arch_pic_init s)) = task_to_task_smoke_from s"
proof -
  have gates: "task_table (snd (set_gates gs s)) = task_table s \<and>
      task_to_task_smoke_from (snd (set_gates gs s)) = task_to_task_smoke_from s" for gs and s :: "'a interrupt_module_scheme"
    by (induction gs s rule: set_gates.induct) (auto simp: arch_idt_set_gate_def)
  show "task_table (snd (arch_interrupt_init ie s)) = task_table s"
    "task_to_task_smoke_from (snd (arch_interrupt_init ie s)) = task_to_task_smoke_from s"
    by (simp_all add: arch_interrupt_init_def arch_idt_clear_def arch_idt_install_exception_gates_def
        arch_idt_install_timer_irq_gate_def arch_idt_set_gate_def arch_lidt_def gates Let_def case_prod_beta
        del: set_gates.simps)
  show "task_table (snd (arch_pic_init s)) = task_table s"
    "task_to_task_smoke_from (snd (arch_pic_init s)) = task_to_task_smoke_from s"
    by (simp_all add: arch_pic_init_def arch_pic_write_masks_def arch_pic_io_wait_def arch_pic_outb_def Let_def)
qed

lemma main_live:
  fixes env :: "'a machine_scheme kernel_env"
  assumes env: "live_contract env" and s: "static_state s" and build: "\<not> ARCH_INTERRUPT_VALIDATE_EXCEPTION build"
  shows "survives (kernel_main build ie img env s)"
proof -
  define s1 where "s1 = snd (hal_interrupt_init ie (say (\<lambda>s. [''itron-rtos booting...\<newline>'', ''kernel_main reached\<newline>'']) (hal_console_init s)))"
  define s2 where "s2 = snd (hal_interrupt_controller_init s1)"
  have s1: "task_table s1 = replicate MAX_TASKS zero_tcb" "task_to_task_smoke_from s1 = None"
    using s by (simp_all add: s1_def hal_interrupt_init_def hal_console_init_def hardware_init_frame static_state_def)
  have s2: "task_table s2 = replicate MAX_TASKS zero_tcb" "task_to_task_smoke_from s2 = None"
    using s1 by (simp_all add: s2_def hal_interrupt_controller_init_def hardware_init_frame)
  have "live s1" "live s2"
    using s1 s2 by (simp_all add: live_def live_inv_def entries_ok_def no_reservation_def)
  moreover have "survives (kernel_main_tasks build img env s2)"
    using s2 by (intro main_tasks_live[OF env]) simp_all
  ultimately show ?thesis
    using build unfolding kernel_main_def Let_def case_prod_beta s1_def[symmetric] s2_def[symmetric] by simp
qed

subsection \<open>The entries of \<open>kernel.c\<close>\<close>

interpretation boot_live: live_contract "boot_env placed tramp base cxt"
  for placed tramp base cxt
  by unfold_locales (simp_all add: kernel_entry_run_def switch_frame_say live_inv_kview[OF kview_save_context])

lemma boot_env_live: "live_contract (boot_env placed tramp base cxt)"
  by (rule boot_live.live_contract_axioms)

end
