(* ===== verification/Service_Codes.thy ===== *)
theory Service_Codes
  imports Boot_Live
begin

section \<open>The result codes of the services (\<open>include/itron_api.h\<close>)\<close>

text \<open>
  The header gives every service its own set of results, as aliases of the common error codes:
  \<open>declared_codes\<close> is this table, the type of each service as its callers see it. A call that comes
  back in a state of the invariant answers one of its codes; several internal failures that the code
  tests for cannot happen there.
\<close>

text \<open>
  \<open>None\<close> for the kernel functions that are no services. \<open>cre_tsk\<close> has no alias for \<open>E_ID\<close>, which its
  \<open>@return\<close> declares.
\<close>

fun declared_codes :: "kernel_call \<Rightarrow> int list option" where
  "declared_codes Yield_tsk = Some [E_OK, E_CTX]"
| "declared_codes (Wai_sem m) = Some [E_OK, E_CTX, E_ID, E_OBJ]"
| "declared_codes (Pol_sem m) = Some [E_OK, E_TMOUT, E_CTX, E_ID]"
| "declared_codes (Sig_sem m) = Some [E_OK, E_ID, E_OBJ, E_QOVR]"
| "declared_codes (Dly_tsk d) = Some [E_OK, E_PAR, E_CTX, E_OBJ]"
| "declared_codes (Twai_sem m d) = Some [E_OK, E_PAR, E_CTX, E_ID, E_QOVR, E_OBJ]"
| "declared_codes (Cre_tsk k pk) = Some [E_OK, E_ID, E_PAR, E_OBJ]"
| "declared_codes (Sta_tsk k) = Some [E_OK, E_ID, E_OBJ]"
| "declared_codes Slp_tsk = Some [E_OK, E_CTX, E_OBJ]"
| "declared_codes (Wup_tsk k) = Some [E_OK, E_ID, E_OBJ]"
| "declared_codes (Register_task nm e p b z) = None"
| "declared_codes (Create_sem nm i mx) = None"
| "declared_codes (Commit_current k) = None"
| "declared_codes Consume_pending = None"
| "declared_codes Timer_irq = None"

subsection \<open>Calls and their answers\<close>

text \<open>\<open>answers C r\<close>: if the call comes back, then with a result in \<open>C\<close>.\<close>

definition answers :: "int set \<Rightarrow> (int \<times> 's) option \<Rightarrow> bool" where
  "answers C r \<longleftrightarrow> (\<forall>x s. r = Some (x, s) \<longrightarrow> x \<in> C)"

lemma answers_simps [simp]: "answers C None" "answers C (Some p) \<longleftrightarrow> fst p \<in> C"
  by (cases p; auto simp: answers_def)+

lemma answers_bind: "(\<And>x s. answers C (f (x, s))) \<Longrightarrow> answers C (Option.bind m f)"
  by (cases m) auto

lemma answersD: "answers C r \<Longrightarrow> r = Some (x, s) \<Longrightarrow> x \<in> C"
  by (simp add: answers_def)

lemma answers_mono: "answers C r \<Longrightarrow> C \<subseteq> D \<Longrightarrow> answers D r"
  by (auto simp: answers_def)

lemma wait_switch_codes: "answers {E_OK, E_OBJ} (wait_switch env op nf fl sw c s)"
  by (auto simp: wait_switch_def Let_def intro!: answers_bind split: option.split)

lemma slp_tsk_codes: "answers {E_OK, E_CTX, E_OBJ} (slp_tsk env s)"
  by (auto simp: slp_tsk_def slp_tsk_switch_def Let_def case_prod_beta intro!: answers_bind split: option.split)

lemma yield_tsk_codes: "answers {E_OK, E_CTX} (yield_tsk env s)"
  by (auto simp: yield_tsk_def yield_tsk_switch_def Let_def case_prod_beta intro!: answers_bind split: option.split)

lemma wai_sem_codes: "answers {E_OK, E_CTX, E_ID, E_OBJ} (wai_sem env m s)"
proof -
  have "answers {E_OK, E_CTX, E_ID, E_OBJ} (wait_switch env op nf fl sw c s')" for op nf fl sw c s'
    by (rule answers_mono[OF wait_switch_codes]) auto
  then show ?thesis
    by (auto simp: wai_sem_def wai_sem_block_def Let_def case_prod_beta split: option.split)
qed

text \<open>The services whose answer needs the invariant: a delay queue with room for the caller.\<close>

lemma dly_tsk_codes:
  assumes "os_inv s"
  shows "answers {E_OK, E_PAR, E_CTX, E_OBJ} (dly_tsk env d s)"
proof (cases "\<exists>c. current_task s = Some c \<and> tstate (tcb_at c s) = TASK_STATE_RUNNING \<and> d \<noteq> 0")
  case True
  then obtain c where c: "current_task s = Some c" "tstate (tcb_at c s) = TASK_STATE_RUNNING" "d \<noteq> 0" by blast
  obtain s' where "dly_tsk env d s = wait_switch env ''dly-tsk'' ''delay-switch-failed'' ''delay-switch-failed''
      ''delay-queued-switch'' c s'"
    using dly_tsk_begins[OF assms c, of env] by blast
  then show ?thesis by (auto intro: answers_mono[OF wait_switch_codes])
next
  case False
  then show ?thesis by (auto simp: dly_tsk_def dispatcher_get_current_def Let_def split: option.split)
qed

lemma twai_sem_codes:
  assumes "os_inv s"
  shows "answers {E_OK, E_PAR, E_CTX, E_ID, E_OBJ} (twai_sem env m d s)"
proof (cases "\<exists>c j. current_task s = Some c \<and> tstate (tcb_at c s) = TASK_STATE_RUNNING \<and>
    find_semaphore_by_id m s = Some j \<and> d \<noteq> 0")
  case True
  then obtain c j where c: "current_task s = Some c" "tstate (tcb_at c s) = TASK_STATE_RUNNING"
    and j: "find_semaphore_by_id m s = Some j" and d: "d \<noteq> 0" by blast
  let ?s0 = "tcb_say c (\<lambda>t. [''[twai-sem] called: sem id='', mag_str m,
      '' timeout_ticks='', u32_str d, '' current''] @ itron_api_log_task_identity t @ [''\<newline>'']) s"
  have s0: "os_inv ?s0" "find_semaphore_by_id m ?s0 = Some j" using assms j by simp_all
  from take_cases[OF s0] show ?thesis
  proof cases
    case 1
    with c j d show ?thesis by (simp add: twai_sem_def dispatcher_get_current_def sem_get_by_id_def)
  next
    case 2
    then have zero: "sem_count (sem_at j s) = 0" by simp
    obtain s' where "twai_sem env m d s = wait_switch env ''twai-sem'' ''timeout-wait-switch-failed''
        ''timeout-wait-switch-failed'' ''timeout-wait-queued-switch'' c s'"
      using twai_sem_begins[OF assms c j zero d, of env] by blast
    then show ?thesis by (auto intro: answers_mono[OF wait_switch_codes])
  qed
next
  case False
  then show ?thesis
    by (auto simp: twai_sem_def dispatcher_get_current_def Let_def sem_get_by_id_def split: option.split)
qed

lemma sig_sem_codes:
  assumes "os_inv s"
  shows "fst (sig_sem m s) \<in> {E_OK, E_ID, E_QOVR}"
proof (cases "sem_view m (semaphore_table s)")
  case None
  with sig_sem_unknown(1) show ?thesis by auto
next
  case (Some v)
  then obtain c mx q where v: "sem_view m (semaphore_table s) = Some (c, mx, q)" by (metis prod_cases3)
  show ?thesis
  proof (cases q)
    case Nil
    with sig_sem_counts[OF os_invD(2)[OF assms], of m c mx] v show ?thesis by (auto split: if_splits)
  next
    case (Cons k ks)
    with sig_sem_wakes[OF os_invD(2)[OF assms], of m c mx k ks] v show ?thesis by auto
  qed
qed

text \<open>The others, in any state.\<close>

lemma pol_sem_codes: "fst (pol_sem m s) \<in> {E_OK, E_TMOUT, E_CTX, E_ID}"
  by (auto simp: pol_sem_def Let_def case_prod_beta split: option.split)

lemma wup_tsk_codes: "fst (wup_tsk k s) \<in> {E_OK, E_ID, E_OBJ}"
proof -
  have "fst (wup_tsk_ready cur k s') = E_OK" for cur and s' :: "'a pending_module_scheme"
    by (simp add: wup_tsk_ready_def Let_def split: option.split)
  then show ?thesis by (auto simp: wup_tsk_def Let_def case_prod_beta split: option.split)
qed

lemma sta_tsk_codes: "fst (sta_tsk k s) \<in> {E_OK, E_ID, E_OBJ}"
proof -
  have "fst (sta_tsk_ready cur k s') = E_OK" for cur and s' :: "'a pending_module_scheme"
    by (simp add: sta_tsk_ready_def Let_def split: option.split)
  then show ?thesis by (auto simp: sta_tsk_def Let_def case_prod_beta split: option.split)
qed

lemma cre_tsk_codes: "fst (cre_tsk k pk s) \<in> {E_OK, E_ID, E_PAR, E_OBJ}"
  by (auto simp: cre_tsk_def Let_def case_prod_beta split: option.split)

text \<open>
  All of them together. \<open>refused_codes\<close> are the declared codes that a state of the invariant rules out.
\<close>

fun refused_codes :: "kernel_call \<Rightarrow> int set" where
  "refused_codes (Twai_sem m d) = {E_QOVR}"
| "refused_codes (Sig_sem m) = {E_OBJ}"
| "refused_codes call = {}"

lemma service_codes:
  fixes s :: "'a pic_module_scheme"
  assumes inv: "os_inv s" and codes: "declared_codes call = Some codes"
  shows "answers (set codes - refused_codes call) (run_call env call s)"
proof (cases call)
  case (Cre_tsk k pk)
  then show ?thesis using codes cre_tsk_codes[of k pk s] by auto
next
  case (Sta_tsk k)
  then show ?thesis using codes sta_tsk_codes[of k s] by auto
next
  case (Wup_tsk k)
  then show ?thesis using codes wup_tsk_codes[of k s] by auto
next
  case (Pol_sem m)
  then show ?thesis using codes pol_sem_codes[of m s] by auto
next
  case (Sig_sem m)
  then show ?thesis using codes sig_sem_codes[OF inv, of m] by auto
next
  case Slp_tsk
  then show ?thesis using codes by (auto intro: answers_mono[OF slp_tsk_codes])
next
  case Yield_tsk
  then show ?thesis using codes by (auto intro: answers_mono[OF yield_tsk_codes])
next
  case (Wai_sem m)
  then show ?thesis using codes by (auto intro: answers_mono[OF wai_sem_codes])
next
  case (Twai_sem m d)
  then show ?thesis using codes by (auto intro: answers_mono[OF twai_sem_codes[OF inv]])
next
  case (Dly_tsk d)
  then show ?thesis using codes by (auto intro: answers_mono[OF dly_tsk_codes[OF inv]])
qed (use codes in simp_all)

end
