(* ===== verification/Service_Props.thy ===== *)
theory Service_Props
  imports Service_Codes
begin

section \<open>Properties of the services and of the boot sequence\<close>

text \<open>
  The results of the services as \<open>itron_api.h\<close> declares them, and the return of the whole of
  \<open>kernel_main\<close>, whose smokes call every service in states that the invariant does not cover.
\<close>

text \<open>
  C8. Every service comes back with one of the codes that the header declares for it, a code with a name
  of its own. Moreover the failures that would leave a service half done do not happen: \<open>twai_sem\<close>
  never reports a delay queue without room, nor \<open>sig_sem\<close> a waiter that cannot be woken, and \<open>dly_tsk\<close>
  never the code \<open>E_QOVR\<close> that its code could answer and its header does not declare.
\<close>

theorem services_answer_declared_codes:
  fixes s :: "'a pic_module_scheme"
  assumes "entry_contract env" and inv: "os_inv s" and "call_allowed call s"
    and codes: "declared_codes call = Some codes"
  shows "\<exists>r s'. run_call env call s = Some (r, s') \<and> os_inv s' \<and> r \<in> set codes \<and>
    itron_error_name r \<noteq> ''E_UNKNOWN'' \<and>
    (\<forall>m d. call = Twai_sem m d \<longrightarrow> r \<noteq> E_QOVR) \<and> (\<forall>m. call = Sig_sem m \<longrightarrow> r \<noteq> E_OBJ)"
proof -
  obtain r s' where call: "run_call env call s = Some (r, s')" "os_inv s'"
    using run_call_returns[OF assms(1-3)] by blast
  have "r \<in> set codes - refused_codes call" by (rule answersD[OF service_codes[OF inv codes] call(1)])
  moreover have "\<forall>x \<in> set codes. itron_error_name x \<noteq> ''E_UNKNOWN''"
    using codes by (cases call) (auto simp: itron_error_name_def)
  ultimately show ?thesis using call by (intro exI[of _ r] exI[of _ s']) auto
qed

lemma services_answer_declared_codes_witness:
  "\<exists>r s'. run_call demo_env (Twai_sem 1 5) (machine_of busy) = Some (r, s') \<and> r \<in> {E_OK, E_PAR, E_CTX, E_ID, E_OBJ}"
  using services_answer_declared_codes[OF demo_env_contract, of "machine_of busy" "Twai_sem 1 5"]
  by (auto simp: busy_os_inv)

text \<open>
  The stacks of \<open>kernel.c\<close> are static arrays, so the linker keeps them apart. The model has the words that
  the kernel puts on a stack, not those that a running task puts there: it speaks for images with
  separate stacks only.
\<close>

definition stack_bytes :: "kernel_image \<Rightarrow> kernel_entry \<Rightarrow> nat set" where
  "stack_bytes img e = {unat (stack_address img e) ..< unat (stack_address img e) + unat TASK_STACK_SIZE}"

definition stacks_apart :: "kernel_image \<Rightarrow> bool" where
  "stacks_apart img \<longleftrightarrow> (\<forall>d e. d \<noteq> e \<longrightarrow> stack_bytes img d \<inter> stack_bytes img e = {})"

text \<open>
  C5. On a serial device that is ready again and again, \<open>kernel_main\<close> comes back from every smoke of the
  boot sequence to its last loop, for every image with separate stacks and whatever the interrupt stubs
  are, in both builds of the timer entry, and has sent its log. In the build that validates the timer
  entry, the one interrupt that then arrives comes back from its C handler as well, in its first
  occurrence: the stub halts after it. (The build that raises the validation exception stops there on
  purpose.)
\<close>

theorem kernel_main_completes:
  fixes s :: "'a machine_scheme"
  assumes "static_state s" and "con s = []" and "\<not> ARCH_INTERRUPT_VALIDATE_EXCEPTION build"
    and "stacks_apart img" and "live_device lsr"
  shows "\<exists>s' p. on_line lsr (serial_init (com1 s)) (kernel_main build ie img (boot_env placed tramp base cxt) s) = Some (s', p) \<and>
    out_ports p = out_ports (serial_init (com1 s)) @ com1_bytes (con s') \<and>
    (ARCH_TIMER_IRQ_ENTRY_VALIDATE build \<longrightarrow>
      (\<exists>s'' p'. on_line lsr (serial_init (com1 s)) (arch_timer_irq_handle (boot_env placed tramp base cxt) s') = Some (s'', p') \<and>
         out_ports p' = out_ports (serial_init (com1 s)) @ com1_bytes (con s'')))"
proof -
  have line: "\<exists>p'. on_line lsr p (Some u) = Some (u, p') \<and> out_ports p' = out_ports p @ com1_bytes (con u)"
    for p and u :: "'a machine_scheme"
    using on_line_live[OF assms(5)] by metis
  obtain s' where s': "kernel_main build ie img (boot_env placed tramp base cxt) s = Some s'" "live s'"
    using main_live[OF boot_env_live assms(1,3), of ie img placed tramp base cxt] by (auto simp: survives_def)
  obtain s'' where "arch_timer_irq_handle (boot_env placed tramp base cxt) s' = Some s''"
    using timer_irq_live[OF boot_env_live s'(2), of placed tramp base cxt] unfolding survives_def by blast
  with s'(1) line[of "serial_init (com1 s)" s'] line[of "serial_init (com1 s)" s''] show ?thesis by auto
qed

text \<open>A machine that has been switched on, with its serial port, and an image with one stack after the other.\<close>

definition power_on_machine :: machine where
  "power_on_machine = interrupt_module.extend power_on (machine.fields \<lparr>out_ports = [], status_reads = 0\<rparr>)"

definition entry_list :: "kernel_entry list" where
  "entry_list = [Task_a, Task_b, Task_c, Task_yield_from, Task_yield_to, Task_wai_sem_from, Task_wai_sem_to,
     Task_dly_from, Task_dly_to, Task_twai_from, Task_twai_to, Task_tick_delay, Task_tick_twai,
     Task_tick_current, Task_api_current, Task_api_created, Task_api_high, Task_sleep_current,
     Task_sleep_next, Task_sleep_waker, Task_sleep_sem_wait, Task_sleep_delay_wait, Task_sleep_twai_wait]"

definition entry_rank :: "kernel_entry \<Rightarrow> nat" where
  "entry_rank e = the (first_index (\<lambda>d. d = e) entry_list)"

definition demo_image :: kernel_image where
  "demo_image = \<lparr>entry_address = (\<lambda>e. 4096 + 64 * of_nat (entry_rank e)),
     stack_address = (\<lambda>e. 65536 + 1024 * of_nat (entry_rank e))\<rparr>"

lemma entry_rank: "entry_rank e < 23" "entry_list ! entry_rank e = e"
proof -
  have "e \<in> set entry_list" by (cases e) (simp_all add: entry_list_def)
  then obtain i where i: "first_index (\<lambda>d. d = e) entry_list = Some i"
    by (cases "first_index (\<lambda>d. d = e) entry_list") auto
  from first_index_SomeD[OF this] i show "entry_rank e < 23" "entry_list ! entry_rank e = e"
    by (simp_all add: entry_rank_def entry_list_def)
qed

lemma demo_image_apart: "stacks_apart demo_image"
  unfolding stacks_apart_def
proof (intro allI impI)
  fix d e :: kernel_entry
  assume "d \<noteq> e"
  then have "entry_rank d \<noteq> entry_rank e" using entry_rank(2) by metis
  moreover have "unat (stack_address demo_image e) = 65536 + 1024 * entry_rank e" for e
  proof -
    have "unat (stack_address demo_image e) = unat (of_nat (65536 + 1024 * entry_rank e) :: u64)"
      by (simp add: demo_image_def)
    also have "\<dots> = take_bit 64 (65536 + 1024 * entry_rank e)" by (simp only: unsigned_of_nat) simp
    also have "\<dots> = 65536 + 1024 * entry_rank e"
      using entry_rank(1)[of e] by (intro take_bit_nat_eq_self) simp
    finally show ?thesis .
  qed
  ultimately show "stack_bytes demo_image d \<inter> stack_bytes demo_image e = {}"
    by (cases "entry_rank d" "entry_rank e" rule: linorder_cases) (auto simp: stack_bytes_def)
qed

lemma kernel_main_completes_witness:
  "\<exists>s' p. on_line (\<lambda>n. 0x20) (serial_init (com1 power_on_machine))
      (kernel_main \<lparr>ARCH_INTERRUPT_VALIDATE_EXCEPTION = False, ARCH_TIMER_IRQ_ENTRY_VALIDATE = True\<rparr>
      \<lparr>stub_divide_error = 1, stub_breakpoint = 2, stub_invalid_opcode = 3, stub_general_protection = 4,
       stub_page_fault = 5, stub_timer_irq = 6, idt_address = 4096\<rparr> demo_image
      (boot_env (\<lambda>a. Task_a) 1 2 (\<lambda>site s. tcontext zero_tcb)) power_on_machine) = Some (s', p)"
proof -
  have static: "static_state power_on_machine"
    using power_on_static by (simp add: static_state_def power_on_machine_def interrupt_module.extend_def machine.fields_def)
  have "con power_on_machine = []"
    by (simp add: power_on_machine_def interrupt_module.extend_def machine.fields_def power_on_def machine_of_def sample_state_def)
  moreover have "live_device (\<lambda>n. 0x20)" by (auto simp: live_device_def transmitter_ready_def)
  ultimately show ?thesis
    using kernel_main_completes[OF static _ _ demo_image_apart,
      of "\<lparr>ARCH_INTERRUPT_VALIDATE_EXCEPTION = False, ARCH_TIMER_IRQ_ENTRY_VALIDATE = True\<rparr>"]
    by simp blast
qed

end
