(* ===== verification/Formatters.thy ===== *)
theory Formatters
  imports Itron_API
begin

section \<open>The formatters of the modules, statement by statement\<close>

text \<open>
  The log lines of the modules are modelled with the texts of Console. This theory has the C
  functions behind these texts: every module has private copies, with a local buffer of its own
  size, a loop that fills it from the lowest digit and a loop that prints it backwards. A store
  beyond the end of the buffer is the value \<open>None\<close>.
\<close>

subsection \<open>The loops\<close>

text \<open>\<open>while (value > 0) { buffer[index++] = '0' + value % 10; value /= 10; }\<close> with a buffer of \<open>n\<close>
  characters, for a 64-bit and a 32-bit value. The list holds the \<open>index\<close> characters stored so far.\<close>

function fill64 :: "nat \<Rightarrow> string \<Rightarrow> u64 \<Rightarrow> string option" where
  "fill64 n buffer value =
     (if 0 < value
      then if length buffer < n then fill64 n (buffer @ [digit_char (unat (value mod 10))]) (value div 10) else None
      else Some buffer)"
  by pat_completeness auto

lemma div_10_less: "0 < v \<Longrightarrow> unat (v div 10) < unat v" for v :: u64
  by (simp add: unat_div_distrib word_less_nat_alt)

lemma div_10_less32: "0 < v \<Longrightarrow> unat (v div 10) < unat v" for v :: u32
  by (simp add: unat_div_distrib word_less_nat_alt)

termination fill64
  by (relation "measure (\<lambda>(n, b, v). unat v)") (simp_all add: div_10_less)

function fill32 :: "nat \<Rightarrow> string \<Rightarrow> u32 \<Rightarrow> string option" where
  "fill32 n buffer value =
     (if 0 < value
      then if length buffer < n then fill32 n (buffer @ [digit_char (unat (value mod 10))]) (value div 10) else None
      else Some buffer)"
  by pat_completeness auto

termination fill32
  by (relation "measure (\<lambda>(n, b, v). unat v)") (simp_all add: div_10_less32)

text \<open>The loop with the bound in its condition: \<open>while (magnitude > 0U && index < (int)sizeof(buffer))\<close>.\<close>

function fill32_bounded :: "nat \<Rightarrow> string \<Rightarrow> u32 \<Rightarrow> string" where
  "fill32_bounded n buffer value =
     (if 0 < value \<and> length buffer < n
      then fill32_bounded n (buffer @ [digit_char (unat (value mod 10))]) (value div 10)
      else buffer)"
  by pat_completeness auto

termination fill32_bounded
  by (relation "measure (\<lambda>(n, b, v). unat v)") (simp_all add: div_10_less32)

declare fill64.simps [simp del] fill32.simps [simp del] fill32_bounded.simps [simp del]

text \<open>\<open>while (index > 0) { hal_console_putc(buffer[--index]); }\<close>\<close>

fun emit_back :: "string \<Rightarrow> nat \<Rightarrow> 'a console_scheme \<Rightarrow> 'a console_scheme" where
  "emit_back buffer 0 s = s"
| "emit_back buffer (Suc index) s = emit_back buffer index (hal_console_putc (buffer ! index) s)"

text \<open>The loop of the hexadecimal writers, \<open>shift = 4 * (k - 1)\<close> down to 0.\<close>

fun hex_loop :: "u64 \<Rightarrow> bool \<Rightarrow> nat \<Rightarrow> 'a console_scheme \<Rightarrow> 'a console_scheme" where
  "hex_loop value started 0 s = s"
| "hex_loop value started (Suc k) s =
     (let nibble = and (drop_bit (4 * k) value) 15
      in if nibble \<noteq> 0 \<or> started then hex_loop value True k (hal_console_putc (hex_digit (unat nibble)) s)
         else hex_loop value started k s)"

subsection \<open>The bodies\<close>

definition write_ulong :: "nat \<Rightarrow> u64 \<Rightarrow> 'a console_scheme \<Rightarrow> 'a console_scheme option" where
  "write_ulong cap value s =
     (if value = 0 then Some (hal_console_putc (CHR ''0'') s)
      else case fill64 cap [] value of None \<Rightarrow> None | Some buffer \<Rightarrow> Some (emit_back buffer (length buffer) s))"

definition write_uint :: "nat \<Rightarrow> u32 \<Rightarrow> 'a console_scheme \<Rightarrow> 'a console_scheme option" where
  "write_uint cap value s =
     (if value = 0 then Some (hal_console_putc (CHR ''0'') s)
      else case fill32 cap [] value of None \<Rightarrow> None | Some buffer \<Rightarrow> Some (emit_back buffer (length buffer) s))"

text \<open>The sign and the unsigned writer: \<open>(unsigned long)(-value)\<close>.\<close>

definition write_signed ::
  "(u64 \<Rightarrow> 'a console_scheme \<Rightarrow> 'a console_scheme option) \<Rightarrow> int \<Rightarrow> 'a console_scheme \<Rightarrow> 'a console_scheme option" where
  "write_signed write_unsigned value s =
     (if value < 0 then write_unsigned (word_of_int (wrap_int (- value))) (hal_console_putc (CHR ''-'') s)
      else write_unsigned (word_of_int value) s)"

text \<open>The sign and the magnitude: \<open>magnitude = (unsigned int)(-value)\<close>.\<close>

definition write_magnitude ::
  "(u32 \<Rightarrow> 'a console_scheme \<Rightarrow> 'a console_scheme option) \<Rightarrow> int \<Rightarrow> 'a console_scheme \<Rightarrow> 'a console_scheme option" where
  "write_magnitude write_unsigned value s =
     (let (magnitude, s) =
            (if value < 0 then (word_of_int (wrap_int (- value)), hal_console_putc (CHR ''-'') s)
             else (word_of_int value, s))
      in write_unsigned magnitude s)"

definition write_hex :: "u64 \<Rightarrow> 'a console_scheme \<Rightarrow> 'a console_scheme" where
  "write_hex value s =
     (let s = hal_console_write (Some ''0x'') s
      in if value = 0 then hal_console_putc (CHR ''0'') s else hex_loop value False 16 s)"

subsection \<open>The copies\<close>

definition task_write_uint :: "u64 \<Rightarrow> 'a console_scheme \<Rightarrow> 'a console_scheme option" where
  "task_write_uint = write_ulong 20"

definition task_write_int :: "int \<Rightarrow> 'a console_scheme \<Rightarrow> 'a console_scheme option" where
  "task_write_int = write_signed task_write_uint"

definition task_write_hex :: "u64 \<Rightarrow> 'a console_scheme \<Rightarrow> 'a console_scheme" where
  "task_write_hex = write_hex"

definition sem_write_uint :: "u64 \<Rightarrow> 'a console_scheme \<Rightarrow> 'a console_scheme option" where
  "sem_write_uint = write_ulong 20"

definition sem_write_int :: "int \<Rightarrow> 'a console_scheme \<Rightarrow> 'a console_scheme option" where
  "sem_write_int = write_signed sem_write_uint"

definition delay_queue_write_uint :: "u64 \<Rightarrow> 'a console_scheme \<Rightarrow> 'a console_scheme option" where
  "delay_queue_write_uint = write_ulong 20"

definition delay_queue_write_int :: "int \<Rightarrow> 'a console_scheme \<Rightarrow> 'a console_scheme option" where
  "delay_queue_write_int = write_signed delay_queue_write_uint"

definition context_write_uint :: "u64 \<Rightarrow> 'a console_scheme \<Rightarrow> 'a console_scheme option" where
  "context_write_uint = write_ulong 20"

definition context_write_int :: "int \<Rightarrow> 'a console_scheme \<Rightarrow> 'a console_scheme option" where
  "context_write_int = write_signed context_write_uint"

definition context_write_hex :: "u64 \<Rightarrow> 'a console_scheme \<Rightarrow> 'a console_scheme" where
  "context_write_hex = write_hex"

definition kernel_write_uint :: "u64 \<Rightarrow> 'a console_scheme \<Rightarrow> 'a console_scheme option" where
  "kernel_write_uint = write_ulong 20"

definition kernel_write_int :: "int \<Rightarrow> 'a console_scheme \<Rightarrow> 'a console_scheme option" where
  "kernel_write_int = write_signed kernel_write_uint"

definition timer_write_uint :: "u64 \<Rightarrow> 'a console_scheme \<Rightarrow> 'a console_scheme option" where
  "timer_write_uint = write_ulong 20"

definition arch_write_uint :: "u64 \<Rightarrow> 'a console_scheme \<Rightarrow> 'a console_scheme option" where
  "arch_write_uint = write_ulong 20"

definition dispatcher_write_int :: "int \<Rightarrow> 'a console_scheme \<Rightarrow> 'a console_scheme option" where
  "dispatcher_write_int = write_magnitude (write_uint 20)"

definition preemption_irq_write_int :: "int \<Rightarrow> 'a console_scheme \<Rightarrow> 'a console_scheme option" where
  "preemption_irq_write_int = write_magnitude (write_uint 20)"

definition itron_api_write_int :: "int \<Rightarrow> 'a console_scheme \<Rightarrow> 'a console_scheme option" where
  "itron_api_write_int = write_magnitude (write_uint 20)"

definition itron_api_write_uint32 :: "u32 \<Rightarrow> 'a console_scheme \<Rightarrow> 'a console_scheme option" where
  "itron_api_write_uint32 = write_uint 10"

definition itron_api_write_er :: "int \<Rightarrow> 'a console_scheme \<Rightarrow> 'a console_scheme" where
  "itron_api_write_er ercd = hal_console_write (Some (itron_error_name ercd))"

text \<open>The writer of the dispatch requests has 12 characters and stops at the end of its buffer.\<close>

definition dispatch_pending_write_int :: "int \<Rightarrow> 'a console_scheme \<Rightarrow> 'a console_scheme option" where
  "dispatch_pending_write_int =
     write_magnitude (\<lambda>magnitude s.
       if magnitude = 0 then Some (hal_console_putc (CHR ''0'') s)
       else let buffer = fill32_bounded 12 [] magnitude in Some (emit_back buffer (length buffer) s))"

subsection \<open>They print the texts of the models\<close>

lemma emit_back_writes: "n \<le> length b \<Longrightarrow> emit_back b n s = writes [rev (take n b)] s"
  by (induction n arbitrary: s) (simp_all add: writes_def hal_console_putc_def take_Suc_conv_app_nth)

lemma digit_buffer_step: "0 < v \<Longrightarrow> digit_buffer v = digit_char (v mod 10) # digit_buffer (v div 10)"
  by (subst digit_buffer.simps) simp

lemma digit_buffer_0 [simp]: "digit_buffer 0 = []"
  by (subst digit_buffer.simps) simp

lemma fill64_digits:
  "length b + length (digit_buffer (unat v)) \<le> n \<Longrightarrow> fill64 n b v = Some (b @ digit_buffer (unat v))"
proof (induction n b v rule: fill64.induct)
  case (1 n b v)
  show ?case
  proof (cases "0 < v")
    case True
    then have d: "digit_buffer (unat v) = digit_char (unat (v mod 10)) # digit_buffer (unat (v div 10))"
      by (simp add: digit_buffer_step unat_mod_distrib unat_div_distrib word_less_nat_alt)
    with True 1 show ?thesis by (subst fill64.simps) simp
  qed (simp add: fill64.simps word_gt_0)
qed

lemma fill32_digits:
  "length b + length (digit_buffer (unat v)) \<le> n \<Longrightarrow> fill32 n b v = Some (b @ digit_buffer (unat v))"
proof (induction n b v rule: fill32.induct)
  case (1 n b v)
  show ?case
  proof (cases "0 < v")
    case True
    then have d: "digit_buffer (unat v) = digit_char (unat (v mod 10)) # digit_buffer (unat (v div 10))"
      by (simp add: digit_buffer_step unat_mod_distrib unat_div_distrib word_less_nat_alt)
    with True 1 show ?thesis by (subst fill32.simps) simp
  qed (simp add: fill32.simps word_gt_0)
qed

text \<open>With room for all digits the bound never stops the loop.\<close>

lemma fill32_bounded_fill32: "fill32 n b v = Some c \<Longrightarrow> fill32_bounded n b v = c"
proof (induction n b v rule: fill32.induct)
  case (1 n b v)
  then show ?case by (subst fill32_bounded.simps) (auto simp: fill32.simps[of n b v] split: if_splits)
qed

lemma digits_fit: "length (digit_buffer (unat v)) \<le> 20" "length (digit_buffer (unat w)) \<le> 10"
  for v :: u64 and w :: u32
proof -
  have "unat v < 10 ^ 20" using unsigned_less[where 'a = nat, of v] by simp
  then show "length (digit_buffer (unat v)) \<le> 20" by (rule digit_buffer_length)
  have "unat w < 10 ^ 10" using unsigned_less[where 'a = nat, of w] by simp
  then show "length (digit_buffer (unat w)) \<le> 10" by (rule digit_buffer_length)
qed

lemma putc_writes: "hal_console_putc c s = writes [[c]] s"
  by (simp add: hal_console_putc_def writes_def)

lemma digit_char_0: "digit_char 0 = CHR ''0''"
  by code_simp

lemma write_ulong_prints: "write_ulong 20 v s = Some (writes [text_of_ulong v] s)"
  using fill64_digits[of "[]" v 20] digits_fit(1)[of v]
  by (simp add: write_ulong_def text_of_ulong_def decimal_def putc_writes emit_back_writes digit_char_0 unat_eq_zero)

lemma write_uint_prints: "10 \<le> n \<Longrightarrow> write_uint n w s = Some (writes [decimal (unat w)] s)"
  using fill32_digits[of "[]" w n] digits_fit(2)[of w]
  by (simp add: write_uint_def decimal_def putc_writes emit_back_writes digit_char_0 unat_eq_zero)

lemma write_signed_prints:
  "write_signed (write_ulong 20) v s = Some (writes [text_of_int_via_ulong v] s)"
  by (simp add: write_signed_def write_ulong_prints text_of_int_via_ulong_def putc_writes writes_append)
    (simp add: writes_def)

lemma write_magnitude_prints:
  assumes "\<And>w s. f w s = Some (writes [decimal (unat w)] s)"
  shows "write_magnitude f v s = Some (writes [text_of_int_via_uint v] s)"
  by (simp add: write_magnitude_def assms text_of_int_via_uint_def Let_def putc_writes writes_append)
    (simp add: writes_def)

lemma hex_loop_prints: "hex_loop v st k s = writes [hex_nibbles v st k] s"
proof (induction k arbitrary: st s)
  case (Suc k)
  then show ?case by (simp add: Let_def putc_writes writes_append unat_eq_zero) (simp add: writes_def)
qed (simp add: writes_def)

lemma write_hex_prints: "write_hex v s = writes [text_of_hex v] s"
  by (simp add: write_hex_def hex_loop_prints hal_console_write_text name_text_def text_of_hex_def putc_writes
      writes_append) (simp add: writes_def)

lemma pending_write_prints: "dispatch_pending_write_int v s = Some (writes [text_of_int_via_uint v] s)"
proof -
  have "fill32_bounded 12 [] w = digit_buffer (unat w)" for w
    using fill32_digits[of "[]" w 12] digits_fit(2)[of w] by (intro fill32_bounded_fill32) simp
  then show ?thesis
    unfolding dispatch_pending_write_int_def
    by (intro write_magnitude_prints)
      (simp add: Let_def decimal_def putc_writes emit_back_writes digit_char_0 unat_eq_zero)
qed

lemmas formatter_defs =
  task_write_uint_def task_write_int_def task_write_hex_def sem_write_uint_def sem_write_int_def
  delay_queue_write_uint_def delay_queue_write_int_def context_write_uint_def context_write_int_def
  context_write_hex_def kernel_write_uint_def kernel_write_int_def timer_write_uint_def arch_write_uint_def
  dispatcher_write_int_def preemption_irq_write_int_def itron_api_write_int_def itron_api_write_uint32_def
  itron_api_write_er_def

lemmas formatter_prints =
  write_ulong_prints write_uint_prints write_signed_prints write_magnitude_prints write_hex_prints pending_write_prints

end
