(* ===== verification/Hardware_Props.thy ===== *)
theory Hardware_Props
  imports Boot_Inv Serial Formatters
begin

section \<open>Properties of the formatters and of the drivers\<close>

text \<open>
  The texts of the log as the numbers they stand for, the gates of the IDT, the masks of the
  interrupt controllers, and the serial line.
\<close>

subsection \<open>Decimal texts\<close>

text \<open>
  C38. Every formatter of every module puts exactly the text on the console that the models of its log
  lines use, and none stores a character beyond its local buffer, for any value: 20 characters for
  \<open>unsigned long\<close>, 20, 12 or 10 for 32 bits. The text of an unsigned value reads back as this value.
\<close>

theorem formatters_stay_in_buffer:
  "read_decimal (text_of_ulong v) = unat v \<and>
   (\<forall>write \<in> {task_write_uint, sem_write_uint, delay_queue_write_uint, context_write_uint,
      kernel_write_uint, timer_write_uint, arch_write_uint}. write v s = Some (writes [text_of_ulong v] s)) \<and>
   (\<forall>write \<in> {task_write_int, sem_write_int, delay_queue_write_int, context_write_int, kernel_write_int}.
      write n s = Some (writes [text_of_int_via_ulong n] s)) \<and>
   (\<forall>write \<in> {dispatcher_write_int, preemption_irq_write_int, itron_api_write_int, dispatch_pending_write_int}.
      write n s = Some (writes [text_of_int_via_uint n] s)) \<and>
   itron_api_write_uint32 w s = Some (writes [text_of_ulong (ucast w)] s) \<and>
   itron_api_write_er n s = writes [itron_error_name n] s \<and>
   task_write_hex v s = writes [text_of_hex v] s \<and> context_write_hex v s = writes [text_of_hex v] s"
proof -
  have "unat (ucast w :: u64) = unat w"
    using unsigned_less[where 'a = nat, of w] by (simp add: unsigned_ucast_eq take_bit_nat_eq_self)
  then have "text_of_ulong (ucast w) = decimal (unat w)" by (simp add: text_of_ulong_def)
  then show ?thesis
    by (simp add: formatter_defs formatter_prints hal_console_write_text name_text_def)
      (simp add: text_of_ulong_def read_decimal_decimal)
qed

lemma formatters_stay_in_buffer_witness:
  "task_write_uint 18446744073709551615 \<lparr>con = ''v=''\<rparr>
     = Some (writes [text_of_ulong 18446744073709551615] \<lparr>con = ''v=''\<rparr>) \<and>
   dispatch_pending_write_int (- 25) \<lparr>con = ''v=''\<rparr> = Some (writes [text_of_int_via_uint (- 25)] \<lparr>con = ''v=''\<rparr>)"
  using formatters_stay_in_buffer[of 18446744073709551615 "\<lparr>con = ''v=''\<rparr>" "- 25"] by simp

text \<open>
  C37. Both signed formatters print an \<open>int\<close> as a text that reads back as this \<open>int\<close>, but for the smallest
  one: the negation in \<open>int\<close> overflows (it wraps on a two's complement machine), and the formatter that
  widens the result to \<open>unsigned long\<close> prints \<open>- (2 ^ 64 - 2 ^ 31)\<close>; the one with an \<open>unsigned int\<close>
  magnitude prints the right number.
\<close>

theorem int_text_roundtrip:
  assumes "c_int v"
  shows "read_int (text_of_int_via_uint v) = v \<and>
    read_int (text_of_int_via_ulong v) = (if v = INT_MIN then - (2 ^ 64 - 2 ^ 31) else v)"
proof -
  have "unat (word_of_int (wrap_int (- INT_MIN)) :: u64) = 2 ^ 64 - 2 ^ 31"
    by (simp add: wrap_int_def unat_eq_nat_uint uint_word_of_int)
  then have "read_int (text_of_int_via_ulong INT_MIN) = - (2 ^ 64 - 2 ^ 31)"
    by (simp add: text_of_int_via_ulong_def text_of_ulong_def)
  with read_int_via_uint[OF assms] read_int_via_ulong[OF assms] show ?thesis by auto
qed

lemma int_text_roundtrip_witness:
  "read_int (text_of_int_via_ulong (- 25)) = - 25 \<and> read_int (text_of_int_via_uint INT_MIN) = INT_MIN"
  using int_text_roundtrip[of "- 25"] int_text_roundtrip[of INT_MIN] by (simp add: c_int_def)

subsection \<open>Hexadecimal texts\<close>

lemma nibble_value: "unat (and (drop_bit (4 * k) v) 15) = unat v div 16 ^ k mod 16" for v :: u64
proof -
  have "(15 :: u64) = mask 4" by (simp add: mask_eq_exp_minus_1)
  then have "and (drop_bit (4 * k) v) 15 = take_bit 4 (drop_bit (4 * k) v)" by (simp add: take_bit_eq_mask)
  moreover have "take_bit LENGTH(64) (unat v) = unat v"
    using unsigned_less[where 'a = nat, of v] by (simp add: take_bit_nat_eq_self)
  ultimately have "unat (and (drop_bit (4 * k) v) 15) = take_bit 4 (drop_bit (4 * k) (unat v))"
    by (simp only: unsigned_take_bit_eq unsigned_drop_bit_eq)
  then show ?thesis by (simp add: take_bit_eq_mod drop_bit_eq_div power_mult)
qed

lemma mod_power_step: "v mod 16 ^ Suc k = (v div 16 ^ k mod 16) * 16 ^ k + v mod 16 ^ k" for v :: nat
  using mod_mult2_eq[of v "16 ^ k" 16] by (simp add: mult.commute)

lemma hex_nibbles_value:
  "started \<or> a = 0 \<Longrightarrow>
   foldl (\<lambda>n c. 16 * n + hex_value c) a (hex_nibbles v started k) = a * 16 ^ k + unat v mod 16 ^ k"
proof (induction k arbitrary: a started)
  case 0
  then show ?case by simp
next
  case (Suc k)
  let ?d = "unat v div 16 ^ k mod 16"
  show ?case
  proof (cases "?d \<noteq> 0 \<or> started")
    case True
    have "foldl (\<lambda>n c. 16 * n + hex_value c) (16 * a + ?d) (hex_nibbles v True k)
        = (16 * a + ?d) * 16 ^ k + unat v mod 16 ^ k" by (rule Suc.IH) simp
    with True show ?thesis by (simp add: nibble_value Let_def mod_power_step del: power_Suc) (simp add: algebra_simps)
  next
    case False
    with Suc.IH[of False 0] Suc.prems show ?thesis by (simp add: nibble_value Let_def mod_power_step del: power_Suc)
  qed
qed

lemma unat_mod_all: "unat v mod 16 ^ 16 = unat v" for v :: u64
  using unsigned_less[where 'a = nat, of v] by simp

lemma arch_nibbles_started: "arch_hex_nibbles v True k = hex_nibbles v True k"
  by (induction k) (simp_all add: Let_def)

lemma arch_nibbles_fresh:
  "arch_hex_nibbles v False (Suc k)
     = (if unat v mod 16 ^ Suc k = 0 then [hex_digit 0] else hex_nibbles v False (Suc k))"
proof (induction k)
  case 0
  show ?case using nibble_value[of 0 v] by (auto simp: Let_def)
next
  case (Suc k)
  let ?d = "unat v div 16 ^ Suc k mod 16"
  have split: "unat v mod 16 ^ Suc (Suc k) = ?d * 16 ^ Suc k + unat v mod 16 ^ Suc k" by (rule mod_power_step)
  show ?case
  proof (cases "?d = 0")
    case True
    then have zero: "unat (and (drop_bit (4 * Suc k) v) 15) = 0" by (simp only: nibble_value)
    have "arch_hex_nibbles v False (Suc (Suc k)) = arch_hex_nibbles v False (Suc k)"
      by (subst arch_hex_nibbles.simps) (simp only: zero Let_def, simp)
    moreover have "hex_nibbles v False (Suc (Suc k)) = hex_nibbles v False (Suc k)"
      by (subst hex_nibbles.simps) (simp only: zero Let_def, simp)
    moreover have "(unat v mod 16 ^ Suc (Suc k) = 0) = (unat v mod 16 ^ Suc k = 0)" using split True by simp
    ultimately show ?thesis using Suc.IH by simp
  next
    case False
    then have ne: "unat (and (drop_bit (4 * Suc k) v) 15) \<noteq> 0" by (simp only: nibble_value) simp
    then have "arch_hex_nibbles v False (Suc (Suc k)) = hex_nibbles v False (Suc (Suc k))"
      by (subst arch_hex_nibbles.simps, subst hex_nibbles.simps)
        (simp only: Let_def arch_nibbles_started simp_thms if_True de_Morgan_conj not_False_eq_True)
    moreover have "unat v mod 16 ^ Suc (Suc k) \<noteq> 0" using split False by (metis add_is_0 mult_is_0 power_not_zero zero_neq_numeral)
    ultimately show ?thesis by simp
  qed
qed

text \<open>
  A hexadecimal text reads back as the value, and the two loops that print them, the one of the
  kernel modules and the one of the interrupt code, print the same text for every value.
\<close>

theorem hex_text_roundtrip: "read_hex (text_of_hex v) = unat v \<and> arch_write_hex64 v = text_of_hex v"
proof -
  have zero: "unat v = 0 \<longleftrightarrow> v = 0" by (simp add: word_unat_eq_iff)
  have "read_hex (text_of_hex v) = unat v"
  proof (cases "v = 0")
    case True
    then show ?thesis by (simp add: read_hex_def text_of_hex_def hex_value_def)
  next
    case False
    then show ?thesis
      using hex_nibbles_value[of False 0 v 16] unat_mod_all[of v] by (simp only: read_hex_def text_of_hex_def) simp
  qed
  moreover have "arch_hex_nibbles v False 16 = (if v = 0 then ''0'' else hex_nibbles v False 16)"
    using arch_nibbles_fresh[of v 15] unat_mod_all[of v] zero
    by (simp only: numeral_eq_Suc pred_numeral_simps) (simp add: hex_digit_def)
  then have "arch_write_hex64 v = text_of_hex v" by (simp only: arch_write_hex64_def text_of_hex_def)
  ultimately show ?thesis by blast
qed

subsection \<open>The IDT\<close>

text \<open>The address the processor takes from a gate.\<close>

definition gate_address :: "arch_idt_entry_t \<Rightarrow> u64" where
  "gate_address g = ucast (offset_low g) OR push_bit 16 (ucast (offset_mid g)) OR push_bit 32 (ucast (offset_high g))"

lemma gate_address_of [simp]: "gate_address (gate_of a) = a"
proof (rule bit_eqI)
  have masks: "(0xFFFF :: u64) = mask 16" "(0xFFFFFFFF :: u64) = mask 32"
    by (simp_all add: mask_eq_exp_minus_1)
  fix n
  assume "possible_bit TYPE(u64) n"
  then have n: "n < 64" by simp
  consider "n < 16" | "16 \<le> n" "n < 32" | "32 \<le> n" by linarith
  then show "bit (gate_address (gate_of a)) n = bit a n"
    using n by cases (auto simp: gate_address_def gate_of_def masks bit_simps)
qed

definition gate_list :: "interrupt_env \<Rightarrow> (nat \<times> u64) list" where
  "gate_list ie = [(0, stub_divide_error ie), (3, stub_breakpoint ie), (6, stub_invalid_opcode ie),
     (13, stub_general_protection ie), (14, stub_page_fault ie), (32, stub_timer_irq ie)]"

lemma set_gates_all:
  assumes "\<And>v h. (v, h) \<in> set gs \<Longrightarrow> v < ARCH_IDT_ENTRY_COUNT \<and> h \<noteq> 0"
  shows "set_gates gs s = (ARCH_INTERRUPT_OK, s\<lparr>arch_idt := fold (\<lambda>(v, h) t. t[v := gate_of h]) gs (arch_idt s)\<rparr>)"
  using assms
proof (induction gs arbitrary: s)
  case Nil
  then show ?case by simp
next
  case (Cons p gs)
  obtain v h where p: "p = (v, h)" by (cases p)
  with Cons.prems have "v < ARCH_IDT_ENTRY_COUNT" "h \<noteq> 0" by auto
  moreover have "set_gates gs (s\<lparr>arch_idt := (arch_idt s)[v := gate_of h]\<rparr>)
      = (ARCH_INTERRUPT_OK, s\<lparr>arch_idt := fold (\<lambda>(v, h) t. t[v := gate_of h]) gs ((arch_idt s)[v := gate_of h])\<rparr>)"
    using Cons.IH[of "s\<lparr>arch_idt := (arch_idt s)[v := gate_of h]\<rparr>"] Cons.prems by auto
  ultimately show ?case by (simp add: p arch_idt_set_gate_def)
qed

text \<open>
  C36. \<open>arch_interrupt_init\<close> with non-null stubs loads a table of 256 gates in which exactly the five
  exceptions and the timer interrupt are present, each gate leads to its stub, and all the other
  gates are zero; the limit is the size of the table less one.
\<close>

theorem interrupt_init_installs_gates:
  fixes s :: "'a interrupt_module_scheme"
  assumes stubs: "list_all (\<lambda>(v, h). h \<noteq> 0) (gate_list ie)" and len: "length (arch_idt s) = ARCH_IDT_ENTRY_COUNT"
  shows "\<exists>s'. arch_interrupt_init ie s = (ARCH_INTERRUPT_OK, s') \<and> arch_interrupt_initialized s' \<and>
    idtr s' = Some \<lparr>idtr_limit = 4095, idtr_base = idt_address ie\<rparr> \<and>
    length (arch_idt s') = ARCH_IDT_ENTRY_COUNT \<and>
    list_all (\<lambda>v. case map_of (gate_list ie) v of
        None \<Rightarrow> arch_idt s' ! v = zero_idt_entry
      | Some h \<Rightarrow> gate_address (arch_idt s' ! v) = h \<and> type_attr (arch_idt s' ! v) = 0x8E \<and>
          selector (arch_idt s' ! v) = 0x08) [0..<ARCH_IDT_ENTRY_COUNT]"
proof -
  let ?t = "replicate ARCH_IDT_ENTRY_COUNT zero_idt_entry"
  define u where "u = fold (\<lambda>(v, h) t. t[v := gate_of h]) (gate_list ie) ?t"
  have clear: "map (\<lambda>e. zero_idt_entry) (arch_idt s) = ?t" using len by (simp add: map_replicate_const)
  have ok: "v < ARCH_IDT_ENTRY_COUNT \<and> h \<noteq> 0" if "(v, h) \<in> set (butlast (gate_list ie))" for v h
    using stubs that by (auto simp: gate_list_def)
  have "\<exists>s'. arch_interrupt_init ie s = (ARCH_INTERRUPT_OK, s') \<and> arch_interrupt_initialized s' \<and>
      idtr s' = Some \<lparr>idtr_limit = 4095, idtr_base = idt_address ie\<rparr> \<and> arch_idt s' = u"
    using set_gates_all[OF ok] stubs clear
    by (simp add: arch_interrupt_init_def arch_idt_install_exception_gates_def arch_idt_install_timer_irq_gate_def
        arch_idt_set_gate_def arch_idt_clear_def arch_lidt_def gate_list_def u_def say_def writes_def)
  moreover have "length u = ARCH_IDT_ENTRY_COUNT" by (simp add: u_def gate_list_def)
  moreover have "case map_of (gate_list ie) v of None \<Rightarrow> u ! v = zero_idt_entry
      | Some h \<Rightarrow> gate_address (u ! v) = h \<and> type_attr (u ! v) = 0x8E \<and> selector (u ! v) = 0x08"
    if "v < ARCH_IDT_ENTRY_COUNT" for v
    using that by (simp add: u_def gate_list_def nth_list_update) (simp add: gate_of_def)
  ultimately show ?thesis by (auto simp: list_all_iff)
qed

definition sample_stubs :: interrupt_env where
  "sample_stubs = \<lparr>stub_divide_error = 0xFFFF800000001000, stub_breakpoint = 0x2000, stub_invalid_opcode = 0x3000,
     stub_general_protection = 0x4000, stub_page_fault = 0x5000, stub_timer_irq = 0x6000, idt_address = 0x7000\<rparr>"

lemma interrupt_init_installs_gates_witness:
  "\<exists>s'. arch_interrupt_init sample_stubs (machine_of busy) = (ARCH_INTERRUPT_OK, s') \<and>
     gate_address (arch_idt s' ! 0) = 0xFFFF800000001000 \<and> arch_idt s' ! 1 = zero_idt_entry"
proof -
  have "list_all (\<lambda>(v, h). h \<noteq> 0) (gate_list sample_stubs)" by (simp add: gate_list_def sample_stubs_def)
  from interrupt_init_installs_gates[OF this, of "machine_of busy"] obtain s' where
    "arch_interrupt_init sample_stubs (machine_of busy) = (ARCH_INTERRUPT_OK, s')"
    "\<forall>v < 256. (case map_of (gate_list sample_stubs) v of None \<Rightarrow> arch_idt s' ! v = zero_idt_entry
      | Some h \<Rightarrow> gate_address (arch_idt s' ! v) = h \<and> type_attr (arch_idt s' ! v) = 0x8E \<and> selector (arch_idt s' ! v) = 0x08)"
    by (auto simp: machine_of_def list_all_iff)
  then show ?thesis by (auto simp: gate_list_def sample_stubs_def dest: spec[of _ 0] spec[of _ 1])
qed

subsection \<open>The interrupt controllers\<close>

text \<open>The mask bit of an IRQ line in the two registers.\<close>

definition irq_masked :: "u32 \<Rightarrow> 'a pic_module_scheme \<Rightarrow> bool" where
  "irq_masked irq s =
     (if irq < 8 then bit (pic_master_mask s) (unat irq) else bit (pic_slave_mask s) (unat irq - 8))"

lemma bit_irq_bit: "n < 8 \<Longrightarrow> bit (irq_bit n) i = (i = unat n)"
proof -
  assume "n < 8"
  then have "unat n < 8" by (simp add: word_less_nat_alt)
  then show ?thesis by (auto simp: irq_bit_def bit_simps)
qed

lemma mask_fields:
  "pic_master_mask (arch_pic_write_masks s) = pic_master_mask s" "pic_slave_mask (arch_pic_write_masks s) = pic_slave_mask s"
  "port_writes (arch_pic_write_masks s)
     = port_writes s @ [(ARCH_PIC_MASTER_DATA, pic_master_mask s), (ARCH_PIC_SLAVE_DATA, pic_slave_mask s)]"
  by (simp_all add: arch_pic_write_masks_def arch_pic_outb_def)

lemma irq_line_cases:
  fixes irq :: u32
  assumes "irq < 16"
  shows "irq < 8 \<Longrightarrow> unat irq < 8" and "\<not> irq < 8 \<Longrightarrow> irq - 8 < 8 \<and> unat (irq - 8) = unat irq - 8 \<and> 8 \<le> unat irq \<and> unat irq - 8 < 8"
proof -
  show "irq < 8 \<Longrightarrow> unat irq < 8" by (simp add: word_less_nat_alt)
  assume "\<not> irq < 8"
  then have ge: "8 \<le> irq" by simp
  then have u: "unat (irq - 8) = unat irq - 8" by (simp add: unat_sub)
  have "unat irq < 16" "8 \<le> unat irq" using assms ge by (simp_all add: word_less_nat_alt word_le_nat_alt)
  with u show "irq - 8 < 8 \<and> unat (irq - 8) = unat irq - 8 \<and> 8 \<le> unat irq \<and> unat irq - 8 < 8" by (simp add: word_less_nat_alt)
qed

text \<open>
  Masking or unmasking a valid line changes the mask bit of this line and of no other, and writes
  both registers to the data ports of the two controllers; an invalid line changes nothing.
\<close>

theorem pic_masks_one_line:
  fixes s :: "'a pic_module_scheme"
  assumes j: "j < 16"
  shows "irq_masked j (arch_pic_mask_irq irq s) = (j = irq \<or> irq_masked j s) \<and>
    irq_masked j (arch_pic_unmask_irq irq s) = (j \<noteq> irq \<and> irq_masked j s) \<and>
    (if irq < 16
     then (\<exists>a b. port_writes (arch_pic_mask_irq irq s) = port_writes s @ [(ARCH_PIC_MASTER_DATA, a), (ARCH_PIC_SLAVE_DATA, b)] \<and>
       pic_master_mask (arch_pic_mask_irq irq s) = a \<and> pic_slave_mask (arch_pic_mask_irq irq s) = b)
     else arch_pic_mask_irq irq s = s \<and> arch_pic_unmask_irq irq s = s)"
proof (cases "irq < 16")
  case False
  then have "j \<noteq> irq" using j by auto
  with False show ?thesis
    by (simp add: arch_pic_mask_irq_def arch_pic_unmask_irq_def arch_pic_irq_is_valid_def)
next
  case True
  note i = irq_line_cases[OF True] and jc = irq_line_cases[OF j]
  have eq: "j = irq \<longleftrightarrow> unat j = unat irq" by (simp add: word_unat_eq_iff)
  have "irq_masked j (arch_pic_mask_irq irq s) = (j = irq \<or> irq_masked j s)"
    "irq_masked j (arch_pic_unmask_irq irq s) = (j \<noteq> irq \<and> irq_masked j s)"
    using True i jc
    by (auto simp: irq_masked_def arch_pic_mask_irq_def arch_pic_unmask_irq_def arch_pic_irq_is_valid_def
        mask_fields Let_def bit_simps bit_irq_bit eq)
  moreover have "port_writes (arch_pic_mask_irq irq s) = port_writes s
      @ [(ARCH_PIC_MASTER_DATA, pic_master_mask (arch_pic_mask_irq irq s)), (ARCH_PIC_SLAVE_DATA, pic_slave_mask (arch_pic_mask_irq irq s))]"
    using True by (simp add: arch_pic_mask_irq_def arch_pic_irq_is_valid_def mask_fields Let_def)
  ultimately show ?thesis using True by simp
qed

lemma pic_masks_one_line_witness:
  "\<not> irq_masked 0 (arch_pic_unmask_irq 0 (machine_of busy)) \<and> irq_masked 9 (arch_pic_unmask_irq 0 (machine_of busy))"
proof -
  have "irq_masked 9 (machine_of busy)" by (simp add: irq_masked_def machine_of_def bit_simps)
  with pic_masks_one_line[of 0 0 "machine_of busy"] pic_masks_one_line[of 9 0 "machine_of busy"] show ?thesis by simp
qed

subsection \<open>The serial line\<close>

text \<open>
  C39. On a device that gets ready again and again, \<open>serial_write\<close> returns, and what it has sent is the
  whole message in order, with CR LF for every newline; a null message sends nothing.
\<close>

theorem serial_write_sends_message:
  assumes "live_device lsr"
  shows "\<exists>p'. serial_write lsr message p = Some p' \<and>
    out_ports p' = out_ports p @ map (\<lambda>c. (COM1_PORT, of_char c)) (concat (map crlf (name_text message)))"
  using serial_write_live[OF assms, of message p] by (simp add: com1_bytes_def)

lemma serial_write_sends_message_witness:
  "\<exists>p'. serial_write (\<lambda>n. 0x20) (Some ''a\<newline>'') \<lparr>out_ports = [], status_reads = 0\<rparr> = Some p' \<and>
     out_ports p' = [(COM1_PORT, 97), (COM1_PORT, 13), (COM1_PORT, 10)]"
proof -
  have "live_device (\<lambda>n. 0x20)" by (auto simp: live_device_def transmitter_ready_def)
  from serial_write_sends_message[OF this, of "Some ''a\<newline>''" "\<lparr>out_ports = [], status_reads = 0\<rparr>"] show ?thesis
    by (simp add: name_text_def crlf_def)
qed

lemma serial_wait_needs_ready:
  assumes "serial_wait lsr p = Some p'"
  shows "\<exists>n. transmitter_ready (lsr n)"
proof (rule serial_wait.raw_induct[where P = "\<lambda>lsr p p'. \<exists>n. transmitter_ready (lsr n)", OF _ assms])
  fix rec :: "(nat \<Rightarrow> 8 word) \<Rightarrow> serial_port \<Rightarrow> serial_port option" and l q q'
  assume "\<And>l q q'. rec l q = Some q' \<Longrightarrow> \<exists>n. transmitter_ready (l n)"
    and "(case serial_can_transmit l q of (ready, q) \<Rightarrow> if ready then Some q else rec l q) = Some q'"
  then show "\<exists>n. transmitter_ready (l n)"
    by (auto simp: serial_can_transmit_def transmitter_ready_def split: if_splits)
qed

text \<open>
  C40. The driver has no limit on its polling: on a device whose transmitter never gets ready, writing
  any message but the empty one does not return.
\<close>

theorem serial_write_hangs_on_dead_device:
  assumes dead: "\<And>n. \<not> transmitter_ready (lsr n)" and m: "message = Some (c # cs)"
  shows "serial_write lsr message p = None"
proof -
  have wait: "serial_wait lsr q = None" for q
    using serial_wait_needs_ready[of lsr q] dead by (cases "serial_wait lsr q") auto
  show ?thesis by (simp add: m serial_write_def serial_putc_def serial_write_raw_char_def wait)
qed

lemma serial_write_hangs_on_dead_device_witness:
  "serial_write (\<lambda>n. 0) (Some ''a'') \<lparr>out_ports = [], status_reads = 0\<rparr> = None"
  by (rule serial_write_hangs_on_dead_device) (simp_all add: transmitter_ready_def)

end
