(* ===== verification/Abstract_Kernel.thy ===== *)
theory Abstract_Kernel
  imports System Switch_Trace
begin

section \<open>An abstract kernel\<close>

text \<open>
  What the kernel promises, without its tables: a map from task ids to what each task is doing and how
  urgent it is, a map from semaphore ids to count, limit and waiters, the current task and the
  pending request. There is no delay queue: what is left of a time limit is part of the activity of
  the task. \<open>abst\<close> reads an abstract state off a state of the kernel, and \<open>allows call a r a'\<close> says what
  a call may do. Tasks only run to their end, as the switch of this kernel has it.
\<close>

subsection \<open>States\<close>

datatype activity = Dormant | Ready | Running | Asleep | Delayed u32 | Queued int "u32 option"

record abs_task =
  activity :: activity
  urgency :: urgency

record abs_kernel =
  atasks :: "int \<Rightarrow> abs_task option"
  asems :: "int \<Rightarrow> (int \<times> int \<times> int list) option"
  acurrent :: "int option"
  arequest :: "(dispatch_pending_source_t \<times> int \<times> int) option"

text \<open>The activity in a TCB.\<close>

fun activity_of :: "task_state_t \<Rightarrow> int \<Rightarrow> task_wait_reason_t \<Rightarrow> u32 \<Rightarrow> activity" where
  "activity_of TASK_STATE_READY m r d = Ready"
| "activity_of TASK_STATE_RUNNING m r d = Running"
| "activity_of TASK_STATE_WAITING m TASK_WAIT_REASON_SEMAPHORE d = Queued m None"
| "activity_of TASK_STATE_WAITING m TASK_WAIT_REASON_SEMAPHORE_TIMEOUT d = Queued m (Some d)"
| "activity_of TASK_STATE_WAITING m TASK_WAIT_REASON_DELAY d = Delayed d"
| "activity_of TASK_STATE_WAITING m r d = Asleep"
| "activity_of st m r d = Dormant"

definition abs_task_of :: "nat \<Rightarrow> tcb_t \<Rightarrow> abs_task" where
  "abs_task_of i t =
     \<lparr>activity = activity_of (tstate t) (wait_sem_id t) (wait_reason t) (delay_ticks_remaining t),
      urgency = Urgency (priority t) i\<rparr>"

definition abs_request :: "dispatch_pending_state_t \<Rightarrow> (dispatch_pending_source_t \<times> int \<times> int) option" where
  "abs_request p = (if requested p then Some (source p, current_id p, candidate_id p) else None)"

definition abs_tasks :: "tcb_t list \<Rightarrow> int \<Rightarrow> abs_task option" where
  "abs_tasks tt k = map_option (\<lambda>i. abs_task_of i (tt ! i)) (lookup_tcb k tt)"

definition abst :: "'a pending_module_scheme \<Rightarrow> abs_kernel" where
  "abst s =
     \<lparr>atasks = abs_tasks (task_table s),
      asems = (\<lambda>m. sem_view m (semaphore_table s)),
      acurrent = map_option (\<lambda>c. tid (task_table s ! c)) (current_task s),
      arequest = abs_request (dispatch_pending_state s)\<rparr>"

subsection \<open>What the operations do\<close>

definition doing :: "abs_kernel \<Rightarrow> int \<Rightarrow> activity option" where
  "doing a k = map_option activity (atasks a k)"

definition priority_in :: "abs_kernel \<Rightarrow> int \<Rightarrow> int" where
  "priority_in a k = urgency_priority (urgency (the (atasks a k)))"

definition become :: "int \<Rightarrow> activity \<Rightarrow> abs_kernel \<Rightarrow> abs_kernel" where
  "become k v a = a\<lparr>atasks := (atasks a)(k := map_option (\<lambda>t. t\<lparr>activity := v\<rparr>) (atasks a k))\<rparr>"

text \<open>The task that calls a service, when it may block: the current task, if it is RUNNING.\<close>

definition caller :: "abs_kernel \<Rightarrow> int option" where
  "caller a = (case acurrent a of None \<Rightarrow> None | Some c \<Rightarrow> if doing a c = Some Running then Some c else None)"

text \<open>The choice of the scheduler.\<close>

definition next_ready :: "abs_kernel \<Rightarrow> int \<Rightarrow> bool" where
  "next_ready a k \<longleftrightarrow> (\<exists>t. atasks a k = Some t \<and> activity t = Ready \<and>
     (\<forall>j u. atasks a j = Some u \<longrightarrow> activity u = Ready \<longrightarrow> urgency t \<le> urgency u))"

text \<open>A switch from \<open>c\<close> to \<open>n\<close>: both run to their end, but \<open>c\<close> only if it does not wait.\<close>

definition enter :: "int \<Rightarrow> int \<Rightarrow> abs_kernel \<Rightarrow> abs_kernel" where
  "enter c n a =
     (let a = (if doing a c \<in> {Some Ready, Some Running} then become c Dormant a else a)
      in (become n Dormant a)\<lparr>acurrent := Some n\<rparr>)"

text \<open>\<open>c\<close> has given up the processor; the next task runs, if there is one and it is another one.\<close>

definition gives_way :: "int \<Rightarrow> abs_kernel \<Rightarrow> abs_kernel \<Rightarrow> bool" where
  "gives_way c a a' \<longleftrightarrow>
     (if \<exists>n. next_ready a n then \<exists>n. next_ready a n \<and> a' = (if n = c then a else enter c n a) else a' = a)"

text \<open>A task has become READY: it asks for the processor if it is more urgent than the caller.\<close>

definition urges :: "int \<Rightarrow> abs_kernel \<Rightarrow> abs_kernel" where
  "urges k a =
     (case caller a of
        None \<Rightarrow> a
      | Some c \<Rightarrow> if priority_in a k < priority_in a c
          then a\<lparr>arequest := Some (DISPATCH_PENDING_SOURCE_TASK, c, k)\<rparr> else a)"

text \<open>The deferred boundary.\<close>

definition consumes :: "abs_kernel \<Rightarrow> int \<Rightarrow> abs_kernel \<Rightarrow> bool" where
  "consumes a r a' \<longleftrightarrow>
     (case arequest a of
        None \<Rightarrow> r = DISPATCH_PENDING_CONSUME_NO_PENDING \<and> a' = a
      | Some (src, c, n) \<Rightarrow>
          if doing a c = Some Running \<and> doing a n = Some Ready
          then r = DISPATCHER_OK \<and> a' = (enter c n a)\<lparr>arequest := None\<rparr>
          else r = DISPATCH_PENDING_CONSUME_INVALID \<and> a' = a\<lparr>arequest := None\<rparr>)"

text \<open>One tick: all time limits at once.\<close>

definition runs_out :: "activity option \<Rightarrow> bool" where
  "runs_out v \<longleftrightarrow> v = Some (Delayed 1) \<or> (\<exists>m. v = Some (Queued m (Some 1)))"

fun tick_activity :: "activity \<Rightarrow> activity" where
  "tick_activity (Delayed d) = (if d = 1 then Ready else Delayed (d - 1))"
| "tick_activity (Queued m (Some d)) = (if d = 1 then Ready else Queued m (Some (d - 1)))"
| "tick_activity v = v"

definition tick :: "abs_kernel \<Rightarrow> abs_kernel" where
  "tick a = a\<lparr>atasks := (\<lambda>k. map_option (\<lambda>t. t\<lparr>activity := tick_activity (activity t)\<rparr>) (atasks a k)),
     asems := (\<lambda>m. map_option (\<lambda>(c, mx, q). (c, mx, filter (\<lambda>k. \<not> runs_out (doing a k)) q)) (asems a m))\<rparr>"

text \<open>The evaluation in the interrupt: an older request of its own is forgotten.\<close>

definition evaluates :: "abs_kernel \<Rightarrow> abs_kernel \<Rightarrow> bool" where
  "evaluates a a' \<longleftrightarrow>
     (let from_task = (\<exists>c n. arequest a = Some (DISPATCH_PENDING_SOURCE_TASK, c, n));
          old = (case arequest a of Some (src, x) \<Rightarrow>
                   if src = DISPATCH_PENDING_SOURCE_IRQ then None else arequest a | None \<Rightarrow> None);
          preempts = (\<lambda>c n. caller a = Some c \<and> next_ready a n \<and> priority_in a n < priority_in a c)
      in if \<not> from_task \<and> (\<exists>c n. preempts c n)
         then \<exists>c n. preempts c n \<and> a' = a\<lparr>arequest := Some (DISPATCH_PENDING_SOURCE_IRQ, c, n)\<rparr>
         else a' = a\<lparr>arequest := old\<rparr>)"

subsection \<open>The calls\<close>

text \<open>
  A new task takes a slot that no other task has. The results are those of the header; the errors of
  the creation calls that depend on the room in the tables are left open.
\<close>

definition adds_task :: "int \<Rightarrow> int \<Rightarrow> activity \<Rightarrow> abs_kernel \<Rightarrow> abs_kernel \<Rightarrow> bool" where
  "adds_task k prio v a a' \<longleftrightarrow> atasks a k = None \<and>
     (\<exists>i. (\<forall>j t. atasks a j = Some t \<longrightarrow> urgency_slot (urgency t) \<noteq> i) \<and>
        a' = a\<lparr>atasks := (atasks a)(k \<mapsto> \<lparr>activity = v, urgency = Urgency prio i\<rparr>)\<rparr>)"

definition bad_param :: "itron_task_create_param_t option \<Rightarrow> bool" where
  "bad_param pk = (case pk of None \<Rightarrow> True
     | Some p \<Rightarrow> ctsk_entry p = 0 \<or> ctsk_stack_base p = 0 \<or> ctsk_stack_size p = 0 \<or> ctsk_name p = None)"

definition set_sem :: "int \<Rightarrow> int \<times> int \<times> int list \<Rightarrow> abs_kernel \<Rightarrow> abs_kernel" where
  "set_sem m v a = a\<lparr>asems := (asems a)(m \<mapsto> v)\<rparr>"

fun allows :: "kernel_call \<Rightarrow> abs_kernel \<Rightarrow> int \<Rightarrow> abs_kernel \<Rightarrow> bool" where
  "allows (Register_task nm ent prio base sz) a r a' \<longleftrightarrow>
     (if r < 0 then a' = a else adds_task r prio Ready a a')"
| "allows (Create_sem nm init mx) a r a' \<longleftrightarrow>
     (if r < 0 then a' = a else asems a r = None \<and> 0 \<le> init \<and> init \<le> mx \<and> a' = set_sem r (init, mx, []) a)"
| "allows (Commit_current k) a r a' \<longleftrightarrow>
     (if doing a k = Some Ready then r = DISPATCHER_OK \<and> a' = (become k Running a)\<lparr>acurrent := Some k\<rparr>
      else r = (if doing a k = None then DISPATCHER_ERR_INVAL else DISPATCHER_ERR_BAD_STATE) \<and> a' = a)"
| "allows (Cre_tsk k pk) a r a' \<longleftrightarrow>
     (if k \<le> 0 then r = E_ID \<and> a' = a
      else if bad_param pk then r = E_PAR \<and> a' = a
      else if doing a k \<noteq> None then r = E_OBJ \<and> a' = a
      else r = E_OBJ \<and> a' = a \<or> r = E_OK \<and> adds_task k (ctsk_priority (the pk)) Dormant a a')"
| "allows (Sta_tsk k) a r a' \<longleftrightarrow>
     (case doing a k of
        None \<Rightarrow> r = E_ID \<and> a' = a
      | Some v \<Rightarrow> if v = Dormant then r = E_OK \<and> a' = urges k (become k Ready a) else r = E_OBJ \<and> a' = a)"
| "allows (Wup_tsk k) a r a' \<longleftrightarrow>
     (case doing a k of
        None \<Rightarrow> r = E_ID \<and> a' = a
      | Some v \<Rightarrow> if v = Asleep then r = E_OK \<and> a' = urges k (become k Ready a) else r = E_OBJ \<and> a' = a)"
| "allows Slp_tsk a r a' \<longleftrightarrow>
     (case caller a of
        None \<Rightarrow> r = E_CTX \<and> a' = a
      | Some c \<Rightarrow> r = E_OK \<and> gives_way c (become c Asleep a) a')"
| "allows Yield_tsk a r a' \<longleftrightarrow>
     (case caller a of
        None \<Rightarrow> r = E_CTX \<and> a' = a
      | Some c \<Rightarrow> r = E_OK \<and> gives_way c (become c Ready a) a')"
| "allows (Dly_tsk d) a r a' \<longleftrightarrow>
     (if acurrent a = None then r = E_CTX \<and> a' = a
      else if d = 0 then r = E_PAR \<and> a' = a
      else case caller a of
        None \<Rightarrow> r = E_CTX \<and> a' = a
      | Some c \<Rightarrow> r = E_OK \<and> gives_way c (become c (Delayed d) a) a')"
| "allows (Wai_sem m) a r a' \<longleftrightarrow>
     (case caller a of
        None \<Rightarrow> r = E_CTX \<and> a' = a
      | Some c \<Rightarrow>
          (case asems a m of
             None \<Rightarrow> r = E_ID \<and> a' = a
           | Some (n, mx, q) \<Rightarrow> r = E_OK \<and>
               (if 0 < n then a' = set_sem m (n - 1, mx, q) a
                else gives_way c (become c (Queued m None) (set_sem m (n, mx, q @ [c]) a)) a')))"
| "allows (Twai_sem m d) a r a' \<longleftrightarrow>
     (if acurrent a = None then r = E_CTX \<and> a' = a
      else if d = 0 then r = E_PAR \<and> a' = a
      else case caller a of
        None \<Rightarrow> r = E_CTX \<and> a' = a
      | Some c \<Rightarrow>
          (case asems a m of
             None \<Rightarrow> r = E_ID \<and> a' = a
           | Some (n, mx, q) \<Rightarrow> r = E_OK \<and>
               (if 0 < n then a' = set_sem m (n - 1, mx, q) a
                else gives_way c (become c (Queued m (Some d)) (set_sem m (n, mx, q @ [c]) a)) a')))"
| "allows (Pol_sem m) a r a' \<longleftrightarrow>
     (case caller a of
        None \<Rightarrow> r = E_CTX \<and> a' = a
      | Some c \<Rightarrow>
          (case asems a m of
             None \<Rightarrow> r = E_ID \<and> a' = a
           | Some (n, mx, q) \<Rightarrow>
               if 0 < n then r = E_OK \<and> a' = set_sem m (n - 1, mx, q) a else r = E_TMOUT \<and> a' = a))"
| "allows (Sig_sem m) a r a' \<longleftrightarrow>
     (case asems a m of
        None \<Rightarrow> r = E_ID \<and> a' = a
      | Some (n, mx, k # q) \<Rightarrow> r = E_OK \<and> a' = urges k (become k Ready (set_sem m (n, mx, q) a))
      | Some (n, mx, []) \<Rightarrow>
          if n < mx then r = E_OK \<and> a' = set_sem m (n + 1, mx, []) a else r = E_QOVR \<and> a' = a)"
| "allows Consume_pending a r a' \<longleftrightarrow> consumes a r a'"
| "allows Timer_irq a r a' \<longleftrightarrow> r = 0 \<and> (\<exists>a1 x. evaluates (tick a) a1 \<and> consumes a1 x a')"

subsection \<open>Reading the abstract state\<close>

lemma abs_cong:
  assumes "task_table s' = task_table s" and "semaphore_table s' = semaphore_table s"
    and "current_task s' = current_task s" and "dispatch_pending_state s' = dispatch_pending_state s"
  shows "abst s' = abst s"
  using assms by (simp add: abst_def)

lemma abs_say [simp]: "abst (say f s) = abst s"
  by (rule abs_cong) simp_all

lemma abs_core:
  "core s' = core s \<Longrightarrow> dispatch_pending_state s' = dispatch_pending_state s \<Longrightarrow> abst s' = abst s"
  by (rule abs_cong) (erule core_eqD | assumption)+

lemma atasks_abs: "atasks (abst s) k = map_option (\<lambda>i. abs_task_of i (tcb_at i s)) (lookup_tcb k (task_table s))"
  by (simp add: abst_def abs_tasks_def tcb_at_def)

lemma acurrent_abs: "acurrent (abst s) = map_option (\<lambda>c. tid (tcb_at c s)) (current_task s)"
  by (simp add: abst_def tcb_at_def)

lemma doing_lookup:
  "lookup_tcb k (task_table s) = Some i \<Longrightarrow>
   doing (abst s) k = Some (activity_of (tstate (tcb_at i s)) (wait_sem_id (tcb_at i s))
     (wait_reason (tcb_at i s)) (delay_ticks_remaining (tcb_at i s)))"
  by (simp add: doing_def atasks_abs abs_task_of_def)

lemma doing_none: "doing (abst s) k = None \<longleftrightarrow> lookup_tcb k (task_table s) = None"
  by (simp add: doing_def atasks_abs)

lemma priority_lookup: "lookup_tcb k (task_table s) = Some i \<Longrightarrow> priority_in (abst s) k = priority (tcb_at i s)"
  by (simp add: priority_in_def atasks_abs abs_task_of_def)

lemma activity_simps [simp]:
  "activity_of st m r d = Ready \<longleftrightarrow> st = TASK_STATE_READY"
  "activity_of st m r d = Running \<longleftrightarrow> st = TASK_STATE_RUNNING"
  by (cases "(st, m, r, d)" rule: activity_of.cases; simp)+

lemma activity_dormant: "st \<noteq> TASK_STATE_UNUSED \<Longrightarrow> activity_of st m r d = Dormant \<longleftrightarrow> st = TASK_STATE_DORMANT"
  by (cases "(st, m, r, d)" rule: activity_of.cases) simp_all

lemma activity_asleep:
  "wait_data_ok t \<Longrightarrow> activity_of (tstate t) m (wait_reason t) d = Asleep \<longleftrightarrow>
    tstate t = TASK_STATE_WAITING \<and> wait_reason t = TASK_WAIT_REASON_SLEEP"
  by (cases "tstate t"; cases "wait_reason t") (simp_all add: wait_data_ok_def)

text \<open>A task that changes its state and nothing else.\<close>

lemma abs_tasks_enter:
  assumes "lookup_tcb k tt = Some i" and "st \<noteq> TASK_STATE_UNUSED"
  shows "abs_tasks (tt[i := tcb_enter st m r d (tt ! i)])
    = (abs_tasks tt)(k := map_option (\<lambda>t. t\<lparr>activity := activity_of st m r d\<rparr>) (abs_tasks tt k))"
proof
  fix j
  note i = tasks.lookup_SomeD[OF assms(1)]
  have same: "lookup_tcb j (tt[i := tcb_enter st m r d (tt ! i)]) = lookup_tcb j tt"
    using i assms(2) by (intro tasks.lookup_update_same) simp_all
  show "abs_tasks (tt[i := tcb_enter st m r d (tt ! i)]) j
    = ((abs_tasks tt)(k := map_option (\<lambda>t. t\<lparr>activity := activity_of st m r d\<rparr>) (abs_tasks tt k))) j"
  proof (cases "j = k")
    case True
    with i assms same show ?thesis by (simp add: abs_tasks_def abs_task_of_def tcb_enter_def)
  next
    case False
    then have "lookup_tcb j tt \<noteq> Some i" using i tasks.lookup_SomeD(3)[of j tt i] by auto
    with False same show ?thesis by (cases "lookup_tcb j tt") (auto simp: abs_tasks_def)
  qed
qed

lemma tid_enter_nth: "tid (tt[i := tcb_enter st m r d (tt ! i)] ! c) = tid (tt ! c)"
  by (cases "i < length tt") (auto simp: nth_update_eq_if tcb_enter_def list_update_beyond)

lemma abs_enter:
  assumes "lookup_tcb k (task_table s) = Some i" and "st \<noteq> TASK_STATE_UNUSED"
    and "task_table s' = (task_table s)[i := tcb_enter st m r d (task_table s ! i)]"
    and "current_task s' = current_task s"
  shows "abst s' = (become k (activity_of st m r d) (abst s))
    \<lparr>asems := (\<lambda>m. sem_view m (semaphore_table s')), arequest := abs_request (dispatch_pending_state s')\<rparr>"
  using abs_tasks_enter[OF assms(1,2), of m r d] assms(3,4)
  by (simp add: abst_def become_def tid_enter_nth)

end
