(* ===== verification/Abstract_Switch.thy ===== *)
theory Abstract_Switch
  imports Abstract_Kernel
begin

section \<open>A switch in the abstract kernel\<close>

text \<open>
  With entries that only write to the console, a switch is a step of the abstract kernel: \<open>enter\<close>.
  \<open>table_view\<close> is the part of the state that the abstract kernel is read from; what the switch does
  to it comes from \<open>switch_trace\<close>.
\<close>

subsection \<open>Entries that only print, tasks with stacks\<close>

definition quiet_env :: "'a pending_module_scheme kernel_env \<Rightarrow> bool" where
  "quiet_env env \<longleftrightarrow> (\<forall>a s. \<exists>f. entry_body env a s = Some (say f s)) \<and>
     (\<forall>site s. rsp (live_context env site s) \<noteq> 0)"

definition fit :: "'a task_module_scheme \<Rightarrow> bool" where
  "fit s \<longleftrightarrow> (\<forall>t \<in> set (task_table s). tcb_used t \<longrightarrow> stack_ok t)"

lemma fit_cong: "task_table s' = task_table s \<Longrightarrow> fit s' = fit s"
  by (simp add: fit_def)

lemma fit_say [simp]: "fit (say f s) = fit s"
  by (rule fit_cong) simp

lemma fit_core: "core s' = core s \<Longrightarrow> fit s' = fit s"
  by (rule fit_cong) (rule core_eqD)

lemma fitD: "fit s \<Longrightarrow> i < length (task_table s) \<Longrightarrow> tcb_used (tcb_at i s) \<Longrightarrow> valid_stack i s"
  by (simp add: fit_def valid_stack_iff tcb_at_def)

lemma fit_update:
  "fit s \<Longrightarrow> task_table s' = (task_table s)[i := t] \<Longrightarrow> tcb_used t \<longrightarrow> stack_ok t \<Longrightarrow> fit s'"
  using set_update_subset_insert[of "task_table s" i t] by (auto simp: fit_def)

lemma fit_enter:
  assumes "fit s" and "lookup_tcb k (task_table s) = Some i"
    and "task_table s' = (task_table s)[i := tcb_enter st m r d (task_table s ! i)]"
  shows "fit s'"
  using tasks.lookup_SomeD[OF assms(2)] assms(1)
  by (intro fit_update[OF assms(1,3)]) (simp add: fit_def)

lemma fit_upd_enter:
  assumes "fit s" and "tcb_used (tcb_at i s)"
  shows "fit (upd_tcb i (tcb_enter st m r d) s)"
proof (cases "i < length (task_table s)")
  case True
  with assms show ?thesis
    by (intro fit_update[OF assms(1) task_table_upd_tcb(1)]) (simp add: fit_def tcb_at_def)
next
  case False
  then have "task_table (upd_tcb i (tcb_enter st m r d) s) = task_table s"
    by (simp add: task_table_upd_tcb list_update_beyond)
  with assms(1) show ?thesis by (simp add: fit_def)
qed

lemma quiet_entry: "quiet_env env \<Longrightarrow> \<exists>f. entry_body env a s = Some (say f s)"
  by (simp add: quiet_env_def)

lemma quiet_contract: "quiet_env env \<Longrightarrow> entry_contract env"
  using quiet_entry[of env] by unfold_locales (metis sys_inv_say switch_frame_say)

text \<open>The invariant with the stacks is one more invariant of the switching code.\<close>

interpretation fitted: switch_inv "\<lambda>s. sys_inv s \<and> fit s"
proof
  fix s s' :: "'a pending_module_scheme" and c :: task_context_t and i k
  show "(sys_inv s' \<and> fit s') = (sys_inv s \<and> fit s)" if "core s' = core s"
    using sys_inv_core[OF that] fit_core[OF that] by simp
  assume inv: "sys_inv s \<and> fit s"
  show "length (task_table s) = MAX_TASKS" "entries_ok (task_table s)"
    using inv by (simp_all add: sys_inv_length sys_inv_entries)
  have "tcb_used (tcb_at j s)" if "scan_task_id k (task_table s) = Some j" for j
    using first_index_holds[OF that[unfolded scan_task_id_def]] by (simp add: tcb_at_def)
  then have "fit (snd (task_mark_dormant_from_entry_return k s))"
    using inv by (simp add: task_mark_dormant_from_entry_return_def fit_upd_enter split: option.split)
  then show "sys_inv (snd (task_mark_dormant_from_entry_return k s)) \<and>
    fit (snd (task_mark_dormant_from_entry_return k s))"
    using inv sys_inv_mark_dormant by blast
  show "sys_inv (save_context i c s) \<and> fit (save_context i c s)" if "rsp c \<noteq> 0"
  proof
    show "sys_inv (save_context i c s)" using inv by (simp add: sys_inv_save_context)
    have tt: "task_table (save_context i c s) = (task_table s)[i := (task_table s ! i)\<lparr>tcontext := c\<rparr>]"
      by (simp add: save_context_def task_table_upd_tcb)
    show "fit (save_context i c s)"
    proof (cases "i < length (task_table s)")
      case True
      with inv that show ?thesis by (intro fit_update[OF _ tt]) (auto simp: fit_def stack_ok_def tcb_used_def)
    next
      case False
      then have "task_table (save_context i c s) = task_table s" by (simp add: tt list_update_beyond)
      with inv show ?thesis by (simp add: fit_def)
    qed
  qed
qed

lemma quiet_fitted: "quiet_env env \<Longrightarrow> switch_contract (\<lambda>s. sys_inv s \<and> fit s) env"
proof (unfold_locales)
  assume q: "quiet_env env"
  show "\<exists>s'. entry_body env address s = Some s' \<and> (sys_inv s' \<and> fit s') \<and> switch_frame s s'"
    if "sys_inv s \<and> fit s" "address \<noteq> 0" for s address
    using quiet_entry[OF q, of address s] that by (auto simp: switch_frame_say)
  show "sys_inv (save_context i (live_context env site s') s) \<and> fit (save_context i (live_context env site s') s)"
    if "sys_inv s \<and> fit s" for s s' :: "'a pending_module_scheme" and i site
    using fitted.inv_context[OF that] q by (simp add: quiet_env_def)
qed

subsection \<open>The view\<close>

definition strip :: "tcb_t \<Rightarrow> tcb_t" where
  "strip t = t\<lparr>tcontext := tcontext zero_tcb\<rparr>"

definition table_view ::
  "'a pending_module_scheme \<Rightarrow> tcb_t list \<times> semaphore_t list \<times> nat option \<times> dispatch_pending_state_t" where
  "table_view s = (map strip (task_table s), semaphore_table s, current_task s, dispatch_pending_state s)"

definition stop_task :: "nat \<Rightarrow> tcb_t list \<times> 'b \<Rightarrow> tcb_t list \<times> 'b" where
  "stop_task t v = (apfst (\<lambda>tt. tt[t := tcb_enter TASK_STATE_DORMANT 0 TASK_WAIT_REASON_NONE 0 (tt ! t)]) v)"

lemma nth_beyond: "length xs = length ys \<Longrightarrow> length xs \<le> i \<Longrightarrow> xs ! i = ys ! i"
proof (induction xs ys arbitrary: i rule: list_induct2)
  case (Cons x xs y ys)
  then show ?case by (cases i) simp_all
qed simp

lemma strip_state:
  assumes "map strip tt ! i = map strip uu ! i" and "length tt = length uu"
  shows "tstate (tt ! i) = tstate (uu ! i) \<and> tid (tt ! i) = tid (uu ! i)"
proof (cases "i < length tt")
  case True
  with assms have "strip (tt ! i) = strip (uu ! i)" by simp
  from arg_cong[OF this, of tstate] arg_cong[OF this, of tid] show ?thesis by (simp add: strip_def)
next
  case False
  with nth_beyond[OF assms(2), of i] show ?thesis by simp
qed

lemma strip_enter: "strip (tcb_enter st m r d t) = tcb_enter st m r d (strip t)"
  by (simp add: strip_def tcb_enter_def)

lemma table_view_save: "table_view (save_context i c s) = table_view s"
  by (cases "i < length (task_table s)")
    (simp_all add: table_view_def save_context_def task_table_upd_tcb map_update strip_def list_update_beyond
      list_update_same_conv)

interpretation tables: switch_view table_view stop_task
proof
  fix s :: "'a pending_module_scheme" and t assume t: "t < length (task_table s)"
  then show "table_view (upd_tcb t (tcb_enter TASK_STATE_DORMANT 0 TASK_WAIT_REASON_NONE 0) s)
      = stop_task t (table_view s)"
    by (simp add: table_view_def stop_task_def task_table_upd_tcb map_update strip_enter)
next
  show "tstate (tcb_at i s) = tstate (tcb_at i s')" if "table_view s = table_view s'"
    for s s' :: "'a pending_module_scheme" and i
  proof -
    have eq: "map strip (task_table s) = map strip (task_table s')" using that by (simp add: table_view_def)
    show ?thesis unfolding tcb_at_def
      using strip_state[OF arg_cong[OF eq, of "\<lambda>xs. xs ! i"] map_eq_imp_length_eq[OF eq]] by blast
  qed
next
  show "tstate (tcb_at i s') = tstate (tcb_at i s)" if "table_view s' = stop_task t (table_view s)" "i \<noteq> t"
    for s s' :: "'a pending_module_scheme" and t i
  proof -
    have eq: "map strip (task_table s')
      = (map strip (task_table s))[t := tcb_enter TASK_STATE_DORMANT 0 TASK_WAIT_REASON_NONE 0 (map strip (task_table s) ! t)]"
      using that(1) by (simp add: table_view_def stop_task_def)
    have "map strip (task_table s') ! i = map strip (task_table s) ! i"
      using arg_cong[OF eq, of "\<lambda>xs. xs ! i"] that(2) by simp
    moreover have "length (task_table s') = length (task_table s)" using arg_cong[OF eq, of length] by simp
    ultimately show ?thesis unfolding tcb_at_def using strip_state by blast
  qed
qed (simp_all add: table_view_save, simp_all add: table_view_def)

text \<open>The abstract kernel is read from the view.\<close>

lemma lookup_strip: "lookup_tcb k (map strip tt) = lookup_tcb k tt"
  by (simp add: lookup_tcb_def scan_task_id_def)
    (auto intro!: first_index_cong simp: strip_def tcb_used_def)

lemma abs_tasks_strip: "abs_tasks (map strip tt) = abs_tasks tt"
proof
  fix k
  show "abs_tasks (map strip tt) k = abs_tasks tt k"
    using tasks.lookup_SomeD(1)[of k tt]
    by (cases "lookup_tcb k tt") (simp_all add: abs_tasks_def lookup_strip abs_task_of_def strip_def)
qed

lemma abs_view:
  assumes "table_view s = (map strip tt, st, cur, p)"
  shows "abst s = \<lparr>atasks = abs_tasks tt, asems = (\<lambda>m. sem_view m st),
    acurrent = map_option (\<lambda>c. tid (tt ! c)) cur, arequest = abs_request p\<rparr>"
proof -
  have eq: "map strip (task_table s) = map strip tt" using assms by (simp add: table_view_def)
  have "tid (task_table s ! c) = tid (tt ! c)" for c
    using strip_state[OF arg_cong[OF eq, of "\<lambda>xs. xs ! c"] map_eq_imp_length_eq[OF eq]] by blast
  moreover have "abs_tasks (task_table s) = abs_tasks tt"
    using arg_cong[OF eq, of abs_tasks] by (simp add: abs_tasks_strip)
  ultimately show ?thesis using assms by (simp add: abst_def table_view_def)
qed

subsection \<open>The switch\<close>

lemma quiet_trace:
  fixes env :: "'a pending_module_scheme kernel_env"
  assumes q: "quiet_env env"
  shows "switch_trace env table_view stop_task"
proof -
  have "table_view s' = table_view s" if "entry_body env a s = Some s'" for a s s'
    using quiet_entry[OF q, of a s] that by auto
  with quiet_contract[OF q] tables.switch_view_axioms show ?thesis
    by (simp add: switch_trace_def switch_trace_axioms_def)
qed

lemma stop_tables:
  assumes "t < length tt"
  shows "stop_task t (map strip tt, x)
    = (map strip (tt[t := tcb_enter TASK_STATE_DORMANT 0 TASK_WAIT_REASON_NONE 0 (tt ! t)]), x)"
  using assms by (simp add: stop_task_def map_update strip_enter)

abbreviation dormant :: "tcb_t \<Rightarrow> tcb_t" where
  "dormant t \<equiv> tcb_enter TASK_STATE_DORMANT 0 TASK_WAIT_REASON_NONE 0 t"

text \<open>The table after the two tasks have stopped, whatever they were in between.\<close>

lemma stopped_table:
  assumes "f < length tt" and "t < length tt" and "t \<noteq> f"
  shows "(((tt[f := tcb_enter a b c d (tt ! f)])[t := tcb_enter a' b' c' d' (tt ! t)])
      [f := dormant (tcb_enter a b c d (tt ! f))])[t := dormant (tcb_enter a' b' c' d' (tt ! t))]
    = (tt[f := dormant (tt ! f)])[t := dormant (tt ! t)]"
  using assms by (simp add: list_eq_iff_nth_eq nth_list_update)

lemma stopped_tasks:
  assumes f: "lookup_tcb k tt = Some f" and t: "lookup_tcb n tt = Some t" "t \<noteq> f"
  shows "abs_tasks (tt[t := dormant (tt ! t)])
      = (abs_tasks tt)(n := map_option (\<lambda>t. t\<lparr>activity := Dormant\<rparr>) (abs_tasks tt n))"
    and "abs_tasks ((tt[f := dormant (tt ! f)])[t := dormant (tt ! t)])
      = (let ts = (abs_tasks tt)(k := map_option (\<lambda>t. t\<lparr>activity := Dormant\<rparr>) (abs_tasks tt k))
         in ts(n := map_option (\<lambda>t. t\<lparr>activity := Dormant\<rparr>) (ts n)))"
proof -
  show "abs_tasks (tt[t := dormant (tt ! t)])
      = (abs_tasks tt)(n := map_option (\<lambda>t. t\<lparr>activity := Dormant\<rparr>) (abs_tasks tt n))"
    using abs_tasks_enter[OF t(1), of TASK_STATE_DORMANT] by simp
  let ?u = "tt[f := dormant (tt ! f)]"
  note i = tasks.lookup_SomeD[OF f]
  have n: "lookup_tcb n ?u = Some t"
    using t(1) i by (subst tasks.lookup_update_same) simp_all
  have "?u ! t = tt ! t" using t(2) by simp
  with abs_tasks_enter[OF n, of TASK_STATE_DORMANT 0 TASK_WAIT_REASON_NONE 0]
    abs_tasks_enter[OF f, of TASK_STATE_DORMANT 0 TASK_WAIT_REASON_NONE 0]
  show "abs_tasks (?u[t := dormant (tt ! t)])
      = (let ts = (abs_tasks tt)(k := map_option (\<lambda>t. t\<lparr>activity := Dormant\<rparr>) (abs_tasks tt k))
         in ts(n := map_option (\<lambda>t. t\<lparr>activity := Dormant\<rparr>) (ts n)))"
    by (simp add: Let_def)
qed

lemma switch_abs:
  assumes inv: "os_inv s" and c: "current_task s = Some f" and f: "switchable (tstate (tcb_at f s))"
    and t: "t < MAX_TASKS" "tstate (tcb_at t s) = TASK_STATE_READY" "t \<noteq> f"
    and s2: "core s2 = core (switched f t s)" "dispatcher_module.more s2 = dispatcher_module.more s"
    and view: "table_view s' = (if tstate (tcb_at f s) = TASK_STATE_WAITING then stop_task t (table_view s2)
      else stop_task t (stop_task f (table_view s2)))"
  shows "abst s' = enter (tid (tcb_at f s)) (tid (tcb_at t s)) (abst s)"
proof -
  let ?tt = "task_table s"
  let ?uu = "if tstate (tcb_at f s) = TASK_STATE_WAITING then ?tt[t := dormant (?tt ! t)]
    else (?tt[f := dormant (?tt ! f)])[t := dormant (?tt ! t)]"
  note fu = os_inv_current[OF inv c] and len = os_invD(3)[OF inv]
  have tl: "lookup_tcb (tid (tcb_at t s)) ?tt = Some t"
    using sys_inv_lookup[OF os_invD(1)[OF inv] t(1)] t(2) by (simp add: tcb_used_def)
  have l: "f < length ?tt" "t < length ?tt" using fu(1) t(1) len by simp_all
  have tv2: "table_view s2 = (map strip (task_table (switched f t s)), semaphore_table s, Some t, dispatch_pending_state s)"
    using core_eqD[OF s2(1)] pending_layer[OF s2(2)] by (simp add: table_view_def switched_def)
  have "table_view s' = (map strip ?uu, semaphore_table s, Some t, dispatch_pending_state s)"
    using f l t(3)
    by (cases "tstate (tcb_at f s)")
      (simp_all add: view tv2 stop_tables switched_def switchable_def tcb_at_def task_table_upd_tcb list_eq_iff_nth_eq
        nth_list_update)
  from abs_view[OF this] have abs': "abst s' = \<lparr>atasks = abs_tasks ?uu, asems = (\<lambda>m. sem_view m (semaphore_table s)),
      acurrent = Some (tid (tcb_at t s)), arequest = abs_request (dispatch_pending_state s)\<rparr>"
    using l t(3) by (simp add: tcb_at_def tcb_enter_def)
  have "doing (abst s) (tid (tcb_at f s)) \<in> {Some Ready, Some Running} \<longleftrightarrow> tstate (tcb_at f s) \<noteq> TASK_STATE_WAITING"
    using f by (auto simp: doing_lookup[OF fu(3)] switchable_def)
  then show ?thesis
    using stopped_tasks[OF fu(3) tl t(3)]
    unfolding abs' enter_def Let_def by (auto simp: become_def abst_def[of s])
qed

lemma switch_steps:
  fixes s :: "'a pending_module_scheme"
  assumes q: "quiet_env env" and inv: "os_inv s" "fit s" and c: "current_task s = Some f"
    and f: "switchable (tstate (tcb_at f s))"
    and t: "t < MAX_TASKS" "tstate (tcb_at t s) = TASK_STATE_READY" "t \<noteq> f"
  shows "\<exists>s'. dispatcher_switch_to env (Some f) (Some t) s = Some (DISPATCHER_OK, s') \<and> os_inv s' \<and> fit s' \<and>
    abst s' = enter (tid (tcb_at f s)) (tid (tcb_at t s)) (abst s)"
proof -
  note fu = os_inv_current[OF inv(1) c] and len = os_invD(3)[OF inv(1)]
  have tu: "tcb_used (tcb_at t s)" using t(2) by (simp add: tcb_used_def)
  have stacks: "valid_stack f s" "valid_stack t s" using fitD[OF inv(2)] fu(1,2) t(1) tu len by simp_all
  obtain s' and s2 :: "'a pending_module_scheme" where
    run: "dispatcher_switch_to env (Some f) (Some t) s = Some (DISPATCHER_OK, s')" "os_inv s'"
    and s2: "core s2 = core (switched f t s)" "dispatcher_module.more s2 = dispatcher_module.more s"
    and view: "table_view s' = (if tstate (tcb_at f s) = TASK_STATE_WAITING then stop_task t (table_view s2)
      else stop_task t (stop_task f (table_view s2)))"
    using switch_trace.switch_view_ends[OF quiet_trace[OF q] inv(1) c f stacks(1) t(1,2) stacks(2) t(3)] by blast
  obtain s3 where enters: "dispatcher_switch_to env (Some f) (Some t) s = dispatcher_enter env f t s3"
    and s3: "os_inv s3" "core s3 = core (switched f t s)"
    by (rule switch_enters[OF inv(1) c f t])
  note at3 = switched_core[OF s3(2)[symmetric] len fu(1) t(1,3)]
  have used: "tcb_used (tcb_at f s3)" "tcb_used (tcb_at t s3)" using at3(1,2) fu(2) by simp_all
  have "fit (switched f t s)"
  proof -
    have "tcb_used (tcb_at t (upd_tcb f g s))" for g using t(3) tu len t(1) by (simp add: tcb_at_def task_table_upd_tcb)
    then have "fit (upd_tcb t g' (if tstate (tcb_at f s) = TASK_STATE_RUNNING then upd_tcb f g s else s))"
      if "g = tcb_enter TASK_STATE_READY 0 TASK_WAIT_REASON_NONE 0" "g' = tcb_enter TASK_STATE_RUNNING 0 TASK_WAIT_REASON_NONE 0"
      for g g'
      using that inv(2) fu(2) tu by (simp add: fit_upd_enter)
    from this[OF refl refl] show ?thesis unfolding switched_def by (rule iffD2[OF fit_cong, rotated]) simp
  qed
  then have "sys_inv s3 \<and> fit s3" using s3 os_invD(1) fit_core by blast
  from switch_contract.dispatcher_enter_returns[OF quiet_fitted[OF q] this fu(1) used(1) t(1) used(2) t(3)
      os_invD(4)[OF s3(1)]]
  have "fit s'" using enters run(1) by auto
  with run switch_abs[OF inv(1) c f t s2 view] show ?thesis by blast
qed

end
