(* ===== verification/Refinement.thy ===== *)
theory Refinement
  imports Abstract_Switch Task_Props Semaphore_Props Dispatch_Props
begin

section \<open>The kernel refines the abstract kernel\<close>

text \<open>
  Every call of the kernel, read through \<open>abst\<close>, is a step that the abstract kernel allows. The lemmas
  follow the groups of calls: those that make a task READY, those that give up the processor, the
  semaphores, the creation calls, the deferred boundary and the timer interrupt.
\<close>

subsection \<open>The caller and the next task\<close>

lemma caller_abs:
  assumes "os_inv s"
  shows "caller (abst s) = (case current_task s of None \<Rightarrow> None
    | Some c \<Rightarrow> if tstate (tcb_at c s) = TASK_STATE_RUNNING then Some (tid (tcb_at c s)) else None)"
  using os_inv_current(3)[OF assms] by (auto simp: caller_def acurrent_abs doing_lookup split: option.split)

lemma caller_running:
  "os_inv s \<Longrightarrow> current_task s = Some c \<Longrightarrow> tstate (tcb_at c s) = TASK_STATE_RUNNING \<Longrightarrow>
   caller (abst s) = Some (tid (tcb_at c s))"
  by (simp add: caller_abs)

lemma ready_task:
  assumes "os_inv s" and "atasks (abst s) k = Some t"
  obtains i where "lookup_tcb k (task_table s) = Some i" and "i < MAX_TASKS" and "tid (tcb_at i s) = k"
    and "urgency t = urgency_at (task_table s) i" and "activity t = Ready \<longleftrightarrow> i \<in> ready_slots (task_table s)"
proof -
  from assms(2) obtain i where i: "lookup_tcb k (task_table s) = Some i" "t = abs_task_of i (tcb_at i s)"
    by (auto simp: atasks_abs)
  note slot = tasks.lookup_SomeD[OF i(1)]
  show thesis
    using that[OF i(1)] slot i(2) os_invD(3)[OF assms(1)]
    by (simp add: abs_task_of_def urgency_at_def ready_slots_def tcb_at_def)
qed

lemma next_ready_select:
  assumes inv: "os_inv s"
  shows "next_ready (abst s) k \<longleftrightarrow> (\<exists>n. scheduler_select_next s = Some n \<and> k = tid (tcb_at n s))"
proof
  note len = os_invD(3)[OF inv]
  assume "next_ready (abst s) k"
  then obtain t where t: "atasks (abst s) k = Some t" "activity t = Ready"
    "\<And>j u. atasks (abst s) j = Some u \<Longrightarrow> activity u = Ready \<Longrightarrow> urgency t \<le> urgency u"
    by (auto simp: next_ready_def)
  obtain i where i: "tid (tcb_at i s) = k" "urgency t = urgency_at (task_table s) i" "i \<in> ready_slots (task_table s)"
    using ready_task[OF inv t(1)] t(2) by metis
  have "urgency_at (task_table s) i \<le> urgency_at (task_table s) j" if j: "j \<in> ready_slots (task_table s)" for j
  proof -
    have "j < MAX_TASKS" "tcb_used (tcb_at j s)" using j len by (auto simp: ready_slots_def tcb_at_def tcb_used_def)
    from sys_inv_lookup[OF os_invD(1)[OF inv] this]
    have "atasks (abst s) (tid (tcb_at j s)) = Some (abs_task_of j (tcb_at j s))" by (simp add: atasks_abs)
    moreover have "activity (abs_task_of j (tcb_at j s)) = Ready"
      using j by (simp add: abs_task_of_def ready_slots_def tcb_at_def)
    ultimately have "urgency t \<le> urgency (abs_task_of j (tcb_at j s))" by (rule t(3))
    then show ?thesis by (simp add: i(2) abs_task_of_def urgency_at_def tcb_at_def)
  qed
  with sched.select_eqI[OF len i(3)] i(1) show "\<exists>n. scheduler_select_next s = Some n \<and> k = tid (tcb_at n s)"
    by (auto simp: scheduler_select_next_table)
next
  note len = os_invD(3)[OF inv]
  assume "\<exists>n. scheduler_select_next s = Some n \<and> k = tid (tcb_at n s)"
  then obtain n where n: "select_in (task_table s) = Some n" "k = tid (tcb_at n s)"
    by (auto simp: scheduler_select_next_table)
  note ready = sched.select_ready[OF len n(1)] and least = sched.select_least[OF len n(1)]
  have "n < MAX_TASKS" "tcb_used (tcb_at n s)" using ready len by (auto simp: ready_slots_def tcb_at_def tcb_used_def)
  from sys_inv_lookup[OF os_invD(1)[OF inv] this]
  have k: "atasks (abst s) k = Some (abs_task_of n (tcb_at n s))" by (simp add: n(2) atasks_abs)
  have "urgency (abs_task_of n (tcb_at n s)) \<le> urgency u" if "atasks (abst s) j = Some u" "activity u = Ready" for j u
    using ready_task[OF inv that(1)] that(2) least by (metis abs_task_of_def abs_task.select_convs(2) tcb_at_def urgency_at_def)
  with k ready show "next_ready (abst s) k"
    by (auto simp: next_ready_def abs_task_of_def ready_slots_def tcb_at_def)
qed

lemma no_next_ready: "os_inv s \<Longrightarrow> scheduler_select_next s = None \<Longrightarrow> gives_way k (abst s) (abst s)"
  by (simp add: gives_way_def next_ready_select)

lemma asems_abs: "asems (abst s) m = sem_view m (semaphore_table s)"
  by (simp add: abst_def)

lemma set_sem_same: "asems a m = Some v \<Longrightarrow> set_sem m v a = a"
  by (simp add: set_sem_def fun_upd_idem)

lemma abs_sems:
  assumes "task_table s' = task_table s" and "current_task s' = current_task s"
    and "dispatch_pending_state s' = dispatch_pending_state s"
    and "\<And>m'. sem_view m' (semaphore_table s') = (if m' = m then Some v else sem_view m' (semaphore_table s))"
  shows "abst s' = set_sem m v (abst s)"
  using assms by (auto simp: abst_def set_sem_def)

subsection \<open>A task becomes READY\<close>

lemma caller_become:
  assumes "doing a k \<noteq> Some Running"
  shows "caller (become k Ready a) = caller a"
  using assms by (auto simp: caller_def become_def doing_def split: option.split)

lemma priority_become [simp]: "priority_in (become k v a) j = priority_in a j"
  by (cases "atasks a k") (simp_all add: priority_in_def become_def)

lemma become_asems: "become k v (a\<lparr>asems := f\<rparr>) = (become k v a)\<lparr>asems := f\<rparr>"
  by (simp add: become_def)

lemma doing_asems [simp]: "doing (a\<lparr>asems := f\<rparr>) k = doing a k" "priority_in (a\<lparr>asems := f\<rparr>) k = priority_in a k"
  by (simp_all add: doing_def priority_in_def)

lemma caller_asems [simp]: "caller (a\<lparr>asems := f\<rparr>) = caller a"
  by (simp add: caller_def split: option.split)

lemma urges_ready:
  fixes s s' :: "'a pending_module_scheme"
  assumes inv: "os_inv s" and k: "lookup_tcb k (task_table s) = Some i" "tstate (tcb_at i s) \<noteq> TASK_STATE_RUNNING"
    and tt: "task_table s' = (task_table s)[i := tcb_enter TASK_STATE_READY 0 TASK_WAIT_REASON_NONE 0 (task_table s ! i)]"
    and cur: "current_task s' = current_task s"
    and pend: "dispatch_pending_state s' = ready_request r (current_task s) i s"
  shows "abst s' = urges k (become k Ready ((abst s)\<lparr>asems := (\<lambda>m. sem_view m (semaphore_table s'))\<rparr>))"
proof -
  note a = abs_enter[OF k(1) _ tt cur, simplified]
  have ki: "tid (tcb_at i s) = k" using tasks.lookup_SomeD(3)[OF k(1)] by (simp add: tcb_at_def)
  have "doing (abst s) k \<noteq> Some Running" using k by (simp add: doing_lookup)
  then have caller: "caller (become k Ready (abst s)) = caller (abst s)" by (rule caller_become)
  have prio: "priority_in (abst s) k = priority (tcb_at i s)"
    "current_task s = Some c \<Longrightarrow> priority_in (abst s) (tid (tcb_at c s)) = priority (tcb_at c s)" for c
    using k(1) os_inv_current(3)[OF inv] by (simp_all add: priority_lookup)
  have req: "arequest (become k Ready (abst s)) = abs_request (dispatch_pending_state s)" by (simp add: become_def abst_def)
  show ?thesis
    unfolding a urges_def
    using prio ki req
    by (auto simp: become_asems caller caller_abs[OF inv] pend ready_request_def abs_request_def split: option.split)
qed

lemma made_ready:
  fixes s s' :: "'a pending_module_scheme"
  assumes inv: "os_inv s" and fit: "fit s"
    and k: "lookup_tcb k (task_table s) = Some i" "tstate (tcb_at i s) \<noteq> TASK_STATE_RUNNING"
    and core: "core s' = core (upd_tcb i (tcb_enter TASK_STATE_READY 0 TASK_WAIT_REASON_NONE 0) s)"
    and pend: "dispatch_pending_state s' = ready_request r (current_task s) i s"
  shows "fit s' \<and> abst s' = urges k (become k Ready (abst s))"
proof -
  note c = core_eqD[OF core]
  have tt: "task_table s' = (task_table s)[i := tcb_enter TASK_STATE_READY 0 TASK_WAIT_REASON_NONE 0 (task_table s ! i)]"
    using c(1) by (simp add: task_table_upd_tcb)
  have "abst s' = urges k (become k Ready ((abst s)\<lparr>asems := (\<lambda>m. sem_view m (semaphore_table s'))\<rparr>))"
    using c by (intro urges_ready[OF inv k tt _ pend]) simp_all
  moreover have "(abst s)\<lparr>asems := (\<lambda>m. sem_view m (semaphore_table s'))\<rparr> = abst s"
    using c by (simp add: abst_def)
  ultimately show ?thesis using fit_enter[OF fit k(1) tt] by simp
qed

lemma unchanged:
  "fit s \<Longrightarrow> core s' = core s \<Longrightarrow> dispatch_pending_state s' = dispatch_pending_state s \<Longrightarrow> fit s' \<and> abst s' = abst s"
  using fit_core[of s' s] abs_core[of s' s] by simp

lemma used_lookup: "lookup_tcb k (task_table s) = Some i \<Longrightarrow> tstate (tcb_at i s) \<noteq> TASK_STATE_UNUSED"
  using tasks.lookup_SomeD(2)[of k "task_table s" i] by (simp add: tcb_used_def tcb_at_def)

lemma wait_data_lookup:
  assumes "os_inv s" and "lookup_tcb k (task_table s) = Some i"
  shows "wait_data_ok (tcb_at i s)"
  using wait_inv_data[OF kernel_invD(1)[OF os_invD(2)[OF assms(1)]] assms(2)] by (simp add: tcb_at_def)

lemma sta_tsk_allowed:
  fixes s :: "'a pending_module_scheme"
  assumes inv: "os_inv s" and fit: "fit s"
  shows "fit (snd (sta_tsk k s)) \<and> allows (Sta_tsk k) (abst s) (fst (sta_tsk k s)) (abst (snd (sta_tsk k s)))"
proof (cases "lookup_tcb k (task_table s)")
  case None
  with sta_tsk_result[of k s] unchanged[OF fit, of "snd (sta_tsk k s)"] show ?thesis
    by (simp add: doing_none[THEN iffD2])
next
  case (Some i)
  have dormant: "doing (abst s) k = Some Dormant \<longleftrightarrow> tstate (tcb_at i s) = TASK_STATE_DORMANT"
    using used_lookup[OF Some] by (simp add: doing_lookup[OF Some] activity_dormant)
  show ?thesis
    using Some sta_tsk_result[of k s] unchanged[OF fit, of "snd (sta_tsk k s)"] dormant
      made_ready[OF inv fit Some, of "snd (sta_tsk k s)"]
    by (auto simp: doing_lookup split: if_splits)
qed

lemma wup_tsk_allowed:
  fixes s :: "'a pending_module_scheme"
  assumes inv: "os_inv s" and fit: "fit s"
  shows "fit (snd (wup_tsk k s)) \<and> allows (Wup_tsk k) (abst s) (fst (wup_tsk k s)) (abst (snd (wup_tsk k s)))"
proof (cases "lookup_tcb k (task_table s)")
  case None
  with wup_tsk_result[of k s] unchanged[OF fit, of "snd (wup_tsk k s)"] show ?thesis
    by (simp add: doing_none[THEN iffD2])
next
  case (Some i)
  have asleep: "doing (abst s) k = Some Asleep \<longleftrightarrow>
      tstate (tcb_at i s) = TASK_STATE_WAITING \<and> wait_reason (tcb_at i s) = TASK_WAIT_REASON_SLEEP"
    using activity_asleep[OF wait_data_lookup[OF inv Some]] by (simp add: doing_lookup[OF Some])
  show ?thesis
    using Some wup_tsk_result[of k s] unchanged[OF fit, of "snd (wup_tsk k s)"] asleep
      made_ready[OF inv fit Some, of "snd (wup_tsk k s)"]
    by (auto simp: doing_lookup split: if_splits)
qed

lemma sig_sem_allowed:
  fixes s :: "'a pending_module_scheme"
  assumes inv: "os_inv s" and fit: "fit s"
  shows "fit (snd (sig_sem m s)) \<and> allows (Sig_sem m) (abst s) (fst (sig_sem m s)) (abst (snd (sig_sem m s)))"
proof (cases "sem_view m (semaphore_table s)")
  case None
  with sig_sem_unknown[OF None] unchanged[OF fit, of "snd (sig_sem m s)"] show ?thesis by (simp add: asems_abs)
next
  case (Some v)
  then obtain n mx q where v: "sem_view m (semaphore_table s) = Some (n, mx, q)" by (cases v) auto
  show ?thesis
  proof (cases q)
    case Nil
    obtain s' where s': "sig_sem m s = ((if n < mx then E_OK else E_QOVR), s')" "task_table s' = task_table s"
      "sem_view m (semaphore_table s') = Some (if n < mx then n + 1 else n, mx, [])"
      "\<And>m'. m' \<noteq> m \<Longrightarrow> sem_view m' (semaphore_table s') = sem_view m' (semaphore_table s)"
      "current_task s' = current_task s" "dispatch_pending_state s' = dispatch_pending_state s"
      using sig_sem_counts[OF os_invD(2)[OF inv] v[unfolded Nil]] by blast
    have "abst s' = (if n < mx then set_sem m (n + 1, mx, []) (abst s) else abst s)"
      using abs_sems[OF s'(2,5,6), of m "(if n < mx then n + 1 else n, mx, [])"] s'(3,4) set_sem_same[of "abst s" m] v Nil
      by (auto simp: asems_abs)
    with s' v Nil fit fit_cong[OF s'(2)] show ?thesis by (simp add: asems_abs)
  next
    case (Cons k ks)
    obtain s' i where s': "sig_sem m s = (E_OK, s')" "lookup_tcb k (task_table s) = Some i"
      "task_table s' = (task_table s)[i := woken (task_table s ! i)]"
      "sem_view m (semaphore_table s') = Some (n, mx, ks)"
      "\<And>m'. m' \<noteq> m \<Longrightarrow> sem_view m' (semaphore_table s') = sem_view m' (semaphore_table s)"
      "current_task s' = current_task s"
      "dispatch_pending_state s' = ready_request DISPATCH_PENDING_TASK_WAKEUP (current_task s) i s"
      using sig_sem_wakes[OF os_invD(2)[OF inv] v[unfolded Cons]] by blast
    have "k \<in> set (queue_of m (semaphore_table s))" using v Cons by (simp add: sem_view_queue)
    then have "tstate (tcb_at i s) \<noteq> TASK_STATE_RUNNING"
      using queued_task[OF kernel_invD(1)[OF os_invD(2)[OF inv]]] s'(2) by (metis option.sel task_state_t.distinct(19) tcb_at_def)
    from urges_ready[OF inv s'(2) this s'(3)[unfolded woken_def] s'(6,7)]
    have "abst s' = urges k (become k Ready ((abst s)\<lparr>asems := (\<lambda>m. sem_view m (semaphore_table s'))\<rparr>))" .
    moreover have "(\<lambda>m. sem_view m (semaphore_table s')) = (asems (abst s))(m \<mapsto> (n, mx, ks))"
      using s'(4,5) by (auto simp: asems_abs)
    ultimately have "abst s' = urges k (become k Ready (set_sem m (n, mx, ks) (abst s)))" by (simp only: set_sem_def)
    with s'(1) v Cons fit_enter[OF fit s'(2) s'(3)[unfolded woken_def]] show ?thesis by (simp add: asems_abs)
  qed
qed

subsection \<open>The caller gives up the processor\<close>

lemma switch_gives_way:
  fixes s :: "'a pending_module_scheme"
  assumes q: "quiet_env env" and inv: "os_inv s" and fit: "fit s" and c: "current_task s = Some c"
    and st: "switchable (tstate (tcb_at c s))" and n: "scheduler_select_next s = Some n" "n \<noteq> c"
  shows "\<exists>s'. dispatcher_switch_to env (Some c) (Some n) s = Some (DISPATCHER_OK, s') \<and> fit s' \<and>
    gives_way (tid (tcb_at c s)) (abst s) (abst s')"
proof -
  note ready = select_next_ready[OF inv n(1)]
  have ids: "tid (tcb_at n s) \<noteq> tid (tcb_at c s)" using ready(3) os_inv_current(3)[OF inv c] n(2) by auto
  obtain s' where "dispatcher_switch_to env (Some c) (Some n) s = Some (DISPATCHER_OK, s')" "fit s'"
    "abst s' = enter (tid (tcb_at c s)) (tid (tcb_at n s)) (abst s)"
    using switch_steps[OF q inv fit c st ready(1,2) n(2)] by blast
  then show ?thesis using n(1) ids by (auto simp: gives_way_def next_ready_select[OF inv])
qed

lemma abst_completed [simp]: "abst (completed op e a s) = abst s" "fit (completed op e a s) = fit s"
  by (simp_all add: completed_def)

lemma logged_switch_gives_way:
  fixes s :: "'a pending_module_scheme"
  assumes q: "quiet_env env" and inv: "os_inv s" and fit: "fit s" and c: "current_task s = Some c"
    and st: "switchable (tstate (tcb_at c s))" and n: "scheduler_select_next s = Some n" "n \<noteq> c"
  obtains s' where "dispatcher_switch_to env (Some c) (Some n) (say g (say f s)) = Some (DISPATCHER_OK, s')"
    and "fit s'" and "gives_way (tid (tcb_at c s)) (abst s) (abst s')"
  using switch_gives_way[OF q, of "say g (say f s)" c n] assms by auto

lemma wait_switch_gives_way:
  fixes s :: "'a pending_module_scheme"
  assumes q: "quiet_env env" and inv: "os_inv s" and fit: "fit s"
    and c: "current_task s = Some c" "tstate (tcb_at c s) = TASK_STATE_WAITING"
  shows "\<exists>s'. wait_switch env op nf fl sw c s = Some (E_OK, s') \<and> fit s' \<and>
      gives_way (tid (tcb_at c s)) (abst s) (abst s')"
    and "\<exists>s'. slp_tsk_switch env c s = Some (E_OK, s') \<and> fit s' \<and>
      gives_way (tid (tcb_at c s)) (abst s) (abst s')"
proof -
  have "(\<exists>s'. wait_switch env op nf fl sw c s = Some (E_OK, s') \<and> fit s' \<and>
      gives_way (tid (tcb_at c s)) (abst s) (abst s')) \<and>
    (\<exists>s'. slp_tsk_switch env c s = Some (E_OK, s') \<and> fit s' \<and>
      gives_way (tid (tcb_at c s)) (abst s) (abst s'))"
  proof (cases "scheduler_select_next s")
    case None
    with no_next_ready[OF inv None] fit show ?thesis by (simp add: wait_switch_def slp_tsk_switch_def)
  next
    case (Some n)
    have "n \<noteq> c" using select_next_ready(2)[OF inv Some] c(2) by auto
    note switch = logged_switch_gives_way[OF q inv fit c(1) _ Some this, unfolded switchable_def]
    obtain f g where wait: "wait_switch env op nf fl sw c s =
        Option.bind (dispatcher_switch_to env (Some c) (Some n) (say g (say f s)))
          (\<lambda>(r, s). let s = say (\<lambda>s. [''['', op, ''] switch end: result='', mag_str r, ''\<newline>'']) s in
            if r \<noteq> DISPATCHER_OK then Some (E_OBJ, completed op E_OBJ fl s) else Some (E_OK, completed op E_OK sw s))"
      by (rule wait_switch_step[OF inv c(1) Some])
    obtain f' g' where slp: "slp_tsk_switch env c s =
        Option.bind (dispatcher_switch_to env (Some c) (Some n) (say g' (say f' s)))
          (\<lambda>(r, s). if r \<noteq> DISPATCHER_OK then Some (E_OBJ, completed ''slp-tsk'' E_OBJ ''sleep-switch-failed'' s)
            else Some (E_OK, completed ''slp-tsk'' E_OK ''sleep'' s))"
      by (rule slp_tsk_switch_step[OF inv c(1) Some])
    obtain s1 where "dispatcher_switch_to env (Some c) (Some n) (say g (say f s)) = Some (DISPATCHER_OK, s1)"
      "fit s1" "gives_way (tid (tcb_at c s)) (abst s) (abst s1)"
      by (rule switch) (use c(2) in auto)
    moreover obtain s2 where "dispatcher_switch_to env (Some c) (Some n) (say g' (say f' s)) = Some (DISPATCHER_OK, s2)"
      "fit s2" "gives_way (tid (tcb_at c s)) (abst s) (abst s2)"
      by (rule switch) (use c(2) in auto)
    ultimately show ?thesis using wait slp by (simp add: Let_def)
  qed
  then show "\<exists>s'. wait_switch env op nf fl sw c s = Some (E_OK, s') \<and> fit s' \<and>
      gives_way (tid (tcb_at c s)) (abst s) (abst s')"
    "\<exists>s'. slp_tsk_switch env c s = Some (E_OK, s') \<and> fit s' \<and>
      gives_way (tid (tcb_at c s)) (abst s) (abst s')" by blast+
qed

lemma yield_switch_gives_way:
  fixes s :: "'a pending_module_scheme"
  assumes q: "quiet_env env" and inv: "os_inv s" and fit: "fit s"
    and c: "current_task s = Some c" "tstate (tcb_at c s) = TASK_STATE_READY"
  shows "\<exists>s'. yield_tsk_switch env c (scheduler_select_next s) s = Some (E_OK, s') \<and> fit s' \<and>
    gives_way (tid (tcb_at c s)) (abst s) (abst s')"
proof (cases "scheduler_select_next s")
  case None
  with no_next_ready[OF inv None] fit show ?thesis by (simp add: yield_tsk_switch_def)
next
  case (Some n)
  have same: "tid (tcb_at n s) = tid (tcb_at c s) \<longleftrightarrow> n = c"
    using select_next_ready(3)[OF inv Some] os_inv_current(3)[OF inv c(1)]
    by (metis option.inject)
  show ?thesis
  proof (cases "n = c")
    case True
    then have "next_ready (abst s) (tid (tcb_at c s))"
      unfolding next_ready_select[OF inv] using Some by blast
    then have "gives_way (tid (tcb_at c s)) (abst s) (abst s)" unfolding gives_way_def by auto
    with Some True fit show ?thesis by (simp add: yield_tsk_switch_def)
  next
    case False
    obtain f g where step: "yield_tsk_switch env c (Some n) s =
        Option.bind (dispatcher_switch_to env (Some c) (Some n) (say g (say f s)))
          (\<lambda>(r, s). Some (E_OK, completed ''yield'' E_OK ''switched''
            (say (\<lambda>s. [''[yield] switch end: result='', mag_str r, ''\<newline>'']) s)))"
      by (rule yield_tsk_switch_step[OF inv c(1) Some]) (use same False in simp)
    obtain s' where "dispatcher_switch_to env (Some c) (Some n) (say g (say f s)) = Some (DISPATCHER_OK, s')"
      "fit s'" "gives_way (tid (tcb_at c s)) (abst s) (abst s')"
      by (rule logged_switch_gives_way[OF q inv fit c(1) _ Some False]) (use c(2) in \<open>auto simp: switchable_def\<close>)
    with step Some show ?thesis by simp
  qed
qed

text \<open>A call without a RUNNING caller is refused.\<close>

lemma say_say: "say f (say g s) = say (\<lambda>s. g s @ f (say g s)) s"
  by (simp add: say_def writes_append)

lemma not_running:
  assumes "os_inv s" and "\<not> (\<exists>c. current_task s = Some c \<and> tstate (tcb_at c s) = TASK_STATE_RUNNING)"
  shows "caller (abst s) = None"
  using assms(2) by (auto simp: caller_abs[OF assms(1)] split: option.split)

lemma idle_calls_refused:
  fixes s :: "'a pending_module_scheme"
  assumes "\<not> (\<exists>c. current_task s = Some c \<and> tstate (tcb_at c s) = TASK_STATE_RUNNING)"
  shows "\<exists>f. slp_tsk env s = Some (E_CTX, say f s)" and "\<exists>f. yield_tsk env s = Some (E_CTX, say f s)"
    and "\<exists>f. wai_sem env m s = Some (E_CTX, say f s)" and "\<exists>f. pol_sem m s = (E_CTX, say f s)"
  using assms
  by (auto simp: slp_tsk_def yield_tsk_def wai_sem_def pol_sem_def dispatcher_get_current_def completed_def Let_def
      say_say split: option.split)

text \<open>The caller in its new state.\<close>

lemma caller_enters:
  fixes s s' :: "'a pending_module_scheme"
  assumes inv: "os_inv s" and fit: "fit s" and c: "current_task s = Some c" and st: "st \<noteq> TASK_STATE_UNUSED"
    and s': "task_table s' = (task_table s)[c := tcb_enter st m r d (task_table s ! c)]" "current_task s' = Some c"
      "dispatch_pending_state s' = dispatch_pending_state s"
  shows "fit s'" and "tstate (tcb_at c s') = st" and "tid (tcb_at c s') = tid (tcb_at c s)"
    and "abst s' = become (tid (tcb_at c s)) (activity_of st m r d)
      ((abst s)\<lparr>asems := (\<lambda>m. sem_view m (semaphore_table s'))\<rparr>)"
proof -
  note cu = os_inv_current[OF inv c]
  have l: "c < length (task_table s)" using cu(1) os_invD(3)[OF inv] by simp
  then show "tstate (tcb_at c s') = st" "tid (tcb_at c s') = tid (tcb_at c s)"
    by (simp_all add: tcb_at_def s'(1) tcb_enter_def)
  show "fit s'" by (rule fit_enter[OF fit cu(3) s'(1)])
  have "abst s' = (become (tid (tcb_at c s)) (activity_of st m r d) (abst s))
      \<lparr>asems := (\<lambda>m. sem_view m (semaphore_table s')), arequest := abs_request (dispatch_pending_state s')\<rparr>"
    using s'(2) c by (intro abs_enter[OF cu(3) st s'(1)]) simp
  then show "abst s' = become (tid (tcb_at c s)) (activity_of st m r d)
      ((abst s)\<lparr>asems := (\<lambda>m. sem_view m (semaphore_table s'))\<rparr>)"
    using s'(3) by (simp add: become_def) (simp add: abst_def)
qed

lemma slp_tsk_allowed:
  fixes s :: "'a pending_module_scheme"
  assumes q: "quiet_env env" and inv: "os_inv s" and fit: "fit s"
  shows "\<exists>r s'. slp_tsk env s = Some (r, s') \<and> fit s' \<and> allows Slp_tsk (abst s) r (abst s')"
proof (cases "\<exists>c. current_task s = Some c \<and> tstate (tcb_at c s) = TASK_STATE_RUNNING")
  case False
  from idle_calls_refused(1)[OF False, of env] not_running[OF inv False] fit show ?thesis by auto
next
  case True
  then obtain c where c: "current_task s = Some c" "tstate (tcb_at c s) = TASK_STATE_RUNNING" by blast
  define s1 where "s1 = tcb_say c (\<lambda>t. [''[slp-tsk] called: current''] @ itron_api_log_next_candidate t @ [''\<newline>'']) s"
  have s1: "os_inv s1" "current_task s1 = Some c" "tcb_at c s1 = tcb_at c s" "fit s1" "abst s1 = abst s"
    using inv c fit by (simp_all add: s1_def)
  have "tstate (tcb_at c s1) = TASK_STATE_RUNNING" using s1(3) c(2) by simp
  from mark_sleep_spec[OF s1(1,2) this] s1(3) obtain f where f: "task_mark_waiting_on_sleep (tid (tcb_at c s)) s1
      = (0, say f (upd_tcb c (tcb_enter TASK_STATE_WAITING 0 TASK_WAIT_REASON_SLEEP 0) s1))" by auto
  define s2 where "s2 = say f (upd_tcb c (tcb_enter TASK_STATE_WAITING 0 TASK_WAIT_REASON_SLEEP 0) s1)"
  have s2: "task_table s2 = (task_table s1)[c := tcb_enter TASK_STATE_WAITING 0 TASK_WAIT_REASON_SLEEP 0 (task_table s1 ! c)]"
    "current_task s2 = Some c" "dispatch_pending_state s2 = dispatch_pending_state s1" "semaphore_table s2 = semaphore_table s1"
    using s1(2) by (simp_all add: s2_def task_table_upd_tcb)
  note w = caller_enters[OF s1(1,4,2) _ s2(1-3), simplified]
  have sems: "(abst s1)\<lparr>asems := (\<lambda>m. sem_view m (semaphore_table s2))\<rparr> = abst s1" by (simp add: s2(4) abst_def)
  have inv2: "os_inv s2" using os_inv_mark_sleep[OF s1(1), of "tid (tcb_at c s)"] f by (simp add: s2_def)
  obtain s' where s': "slp_tsk_switch env c s2 = Some (E_OK, s')" "fit s'"
    "gives_way (tid (tcb_at c s2)) (abst s2) (abst s')"
    using wait_switch_gives_way(2)[OF q inv2 w(1) s2(2)] w(2) by blast
  have "slp_tsk env s = slp_tsk_switch env c s2"
    using c f s1(3) by (simp add: slp_tsk_def dispatcher_get_current_def s1_def[symmetric] s2_def[symmetric] Let_def)
  with s' w(3,4) s1(3,5) sems caller_running[OF inv c] show ?thesis by simp
qed

lemma yield_tsk_allowed:
  fixes s :: "'a pending_module_scheme"
  assumes q: "quiet_env env" and inv: "os_inv s" and fit: "fit s"
  shows "\<exists>r s'. yield_tsk env s = Some (r, s') \<and> fit s' \<and> allows Yield_tsk (abst s) r (abst s')"
proof (cases "\<exists>c. current_task s = Some c \<and> tstate (tcb_at c s) = TASK_STATE_RUNNING")
  case False
  from idle_calls_refused(2)[OF False, of env] not_running[OF inv False] fit show ?thesis by auto
next
  case True
  then obtain c where c: "current_task s = Some c" "tstate (tcb_at c s) = TASK_STATE_RUNNING" by blast
  define s1 where "s1 = tcb_say c (\<lambda>t. [''[yield] called: current''] @ itron_api_log_task_identity t @ [''\<newline>'']) s"
  have s1: "os_inv s1" "current_task s1 = Some c" "tcb_at c s1 = tcb_at c s" "fit s1" "abst s1 = abst s"
    using inv c fit by (simp_all add: s1_def)
  have mark: "task_mark_ready_from_running (tid (tcb_at c s)) s1
      = (0, upd_tcb c (tcb_enter TASK_STATE_READY 0 TASK_WAIT_REASON_NONE 0) s1)"
    using mark_ready_spec[OF os_invD(1)[OF s1(1)] os_inv_current(1)[OF s1(1,2)]] s1(3) c(2) by simp
  define s2 where "s2 = tcb_say c (\<lambda>t. [''[yield] state transition: current'']
      @ itron_api_log_task_id_name t @ ['' RUNNING->READY\<newline>''])
    (upd_tcb c (tcb_enter TASK_STATE_READY 0 TASK_WAIT_REASON_NONE 0) s1)"
  have s2: "task_table s2 = (task_table s1)[c := tcb_enter TASK_STATE_READY 0 TASK_WAIT_REASON_NONE 0 (task_table s1 ! c)]"
    "current_task s2 = Some c" "dispatch_pending_state s2 = dispatch_pending_state s1" "semaphore_table s2 = semaphore_table s1"
    using s1(2) by (simp_all add: s2_def task_table_upd_tcb)
  note w = caller_enters[OF s1(1,4,2) _ s2(1-3), simplified]
  have sems: "(abst s1)\<lparr>asems := (\<lambda>m. sem_view m (semaphore_table s2))\<rparr> = abst s1" by (simp add: s2(4) abst_def)
  have inv2: "os_inv s2" using os_inv_mark_ready[OF s1(1), of "tid (tcb_at c s)"] mark by (simp add: s2_def)
  obtain s' where s': "yield_tsk_switch env c (scheduler_select_next s2) s2 = Some (E_OK, s')" "fit s'"
    "gives_way (tid (tcb_at c s2)) (abst s2) (abst s')"
    using yield_switch_gives_way[OF q inv2 w(1) s2(2)] w(2) by blast
  have "yield_tsk env s = yield_tsk_switch env c (scheduler_select_next s2) s2"
    using c mark s1(3)
    unfolding yield_tsk_def dispatcher_get_current_def c(1) option.case Let_def s1_def[symmetric]
    by (simp add: s2_def)
  with s' w(3,4) s1(3,5) sems caller_running[OF inv c] show ?thesis by simp
qed

lemma dly_tsk_allowed:
  fixes s :: "'a pending_module_scheme"
  assumes q: "quiet_env env" and inv: "os_inv s" and fit: "fit s"
  shows "\<exists>r s'. dly_tsk env d s = Some (r, s') \<and> fit s' \<and> allows (Dly_tsk d) (abst s) r (abst s')"
proof (cases "\<exists>c. current_task s = Some c \<and> tstate (tcb_at c s) = TASK_STATE_RUNNING \<and> d \<noteq> 0")
  case False
  then have "\<exists>f. dly_tsk env d s = Some (if current_task s \<noteq> None \<and> d = 0 then E_PAR else E_CTX, say f s)"
    by (auto simp: dly_tsk_def dispatcher_get_current_def completed_def say_say Let_def split: option.split)
  then obtain f where f: "dly_tsk env d s = Some (if current_task s \<noteq> None \<and> d = 0 then E_PAR else E_CTX, say f s)"
    by blast
  have "d = 0 \<or> caller (abst s) = None" using False not_running[OF inv] by (cases "d = 0") simp_all
  then have "allows (Dly_tsk d) (abst s) (if current_task s \<noteq> None \<and> d = 0 then E_PAR else E_CTX) (abst s)"
    by (auto simp: acurrent_abs)
  with f fit show ?thesis by (metis fit_say abs_say)
next
  case True
  then obtain c where c: "current_task s = Some c" "tstate (tcb_at c s) = TASK_STATE_RUNNING" and d: "d \<noteq> 0" by blast
  obtain s1 where s1: "dly_tsk env d s = wait_switch env ''dly-tsk'' ''delay-switch-failed'' ''delay-switch-failed''
      ''delay-queued-switch'' c s1" "os_inv s1"
    "task_table s1 = (task_table s)[c := tcb_enter TASK_STATE_WAITING 0 TASK_WAIT_REASON_DELAY d (task_table s ! c)]"
    "semaphore_table s1 = semaphore_table s" "current_task s1 = Some c" "dispatcher_module.more s1 = dispatcher_module.more s"
    using dly_tsk_begins[OF inv c d] by blast
  note w = caller_enters[OF inv fit c(1) _ s1(3,5) pending_layer[OF s1(6)], simplified]
  have sems: "(abst s)\<lparr>asems := (\<lambda>m. sem_view m (semaphore_table s1))\<rparr> = abst s" by (simp add: s1(4) abst_def)
  obtain s' where "wait_switch env ''dly-tsk'' ''delay-switch-failed'' ''delay-switch-failed''
      ''delay-queued-switch'' c s1 = Some (E_OK, s')" "fit s'" "gives_way (tid (tcb_at c s1)) (abst s1) (abst s')"
    using wait_switch_gives_way(1)[OF q s1(2) w(1) s1(5)] w(2) by blast
  with s1(1) w(3,4) sems caller_running[OF inv c] c(1) d show ?thesis by (simp add: acurrent_abs)
qed

text \<open>A wait for a semaphore, with or without a time limit, that has to block.\<close>

lemma queued_gives_way:
  fixes s s1 :: "'a pending_module_scheme"
  assumes q: "quiet_env env" and inv: "os_inv s" and fit: "fit s"
    and c: "current_task s = Some c" "tstate (tcb_at c s) = TASK_STATE_RUNNING"
    and j: "find_semaphore_by_id m s = Some j" and view: "sem_view m (semaphore_table s) = Some (n, mx, ks)"
    and s1: "os_inv s1" "task_table s1 = (task_table s)[c := tcb_enter TASK_STATE_WAITING m r d (task_table s ! c)]"
      "semaphore_table s1 = (semaphore_table s)[j := ring_put (tid (tcb_at c s)) (semaphore_table s ! j)]"
      "current_task s1 = Some c" "dispatcher_module.more s1 = dispatcher_module.more s"
  shows "\<exists>s'. wait_switch env op nf fl sw c s1 = Some (E_OK, s') \<and> fit s' \<and>
    gives_way (tid (tcb_at c s)) (become (tid (tcb_at c s)) (activity_of TASK_STATE_WAITING m r d)
      (set_sem m (n, mx, ks @ [tid (tcb_at c s)]) (abst s))) (abst s')"
proof -
  note w = caller_enters[OF inv fit c(1) _ s1(2,4) pending_layer[OF s1(5)], simplified]
  have "(\<lambda>m'. sem_view m' (semaphore_table s1)) = (asems (abst s))(m \<mapsto> (n, mx, ks @ [tid (tcb_at c s)]))"
    using sem_view_put[OF inv c j view s1(3)] by (auto simp: asems_abs)
  then have "(abst s)\<lparr>asems := (\<lambda>m'. sem_view m' (semaphore_table s1))\<rparr>
      = set_sem m (n, mx, ks @ [tid (tcb_at c s)]) (abst s)" by (simp add: set_sem_def)
  with wait_switch_gives_way(1)[OF q s1(1) w(1) s1(4) w(2), of op nf fl sw] w(3,4) show ?thesis by simp
qed

lemma wai_sem_allowed:
  fixes s :: "'a pending_module_scheme"
  assumes q: "quiet_env env" and inv: "os_inv s" and fit: "fit s"
  shows "\<exists>r s'. wai_sem env m s = Some (r, s') \<and> fit s' \<and> allows (Wai_sem m) (abst s) r (abst s')"
proof (cases "\<exists>c. current_task s = Some c \<and> tstate (tcb_at c s) = TASK_STATE_RUNNING")
  case False
  from idle_calls_refused(3)[OF False, of env m] not_running[OF inv False] fit show ?thesis by auto
next
  case True
  then obtain c where c: "current_task s = Some c" "tstate (tcb_at c s) = TASK_STATE_RUNNING" by blast
  note caller = caller_running[OF inv c]
  show ?thesis
  proof (cases "sem_view m (semaphore_table s)")
    case None
    then have "\<exists>f. wai_sem env m s = Some (E_ID, say f s)"
      using c by (auto simp: wai_sem_def dispatcher_get_current_def completed_def say_say Let_def sem_get_by_id_def
          sem_view_None)
    with None caller fit show ?thesis by (auto simp: asems_abs)
  next
    case (Some v)
    then obtain n mx ks where v: "sem_view m (semaphore_table s) = Some (n, mx, ks)" by (cases v) auto
    show ?thesis
    proof (cases "0 < n")
      case True
      obtain s' where s': "wai_sem env m s = Some (E_OK, s')" "task_table s' = task_table s"
        "current_task s' = current_task s" "dispatch_pending_state s' = dispatch_pending_state s"
        "\<And>m'. sem_view m' (semaphore_table s')
           = (if m' = m then Some (n - 1, mx, ks) else sem_view m' (semaphore_table s))"
        using wai_sem_takes[OF inv c v True, of env] by blast
      from abs_sems[OF s'(2-5)] s'(1) fit_cong[OF s'(2)] fit caller v True show ?thesis by (simp add: asems_abs)
    next
      case False
      obtain j where j: "find_semaphore_by_id m s = Some j" "sem_count (sem_at j s) = 0"
        using sem_view_lookup[OF inv v] False by (metis linorder_neqE_linordered_idom not_less)
      obtain s1 where s1: "wai_sem env m s = wait_switch env ''wai-sem'' ''switch-task-not-found'' ''wait-switch-failed''
          ''wait-switch'' c s1" "os_inv s1"
        "task_table s1 = (task_table s)[c := tcb_enter TASK_STATE_WAITING m TASK_WAIT_REASON_SEMAPHORE 0 (task_table s ! c)]"
        "semaphore_table s1 = (semaphore_table s)[j := ring_put (tid (tcb_at c s)) (semaphore_table s ! j)]"
        "current_task s1 = Some c" "dispatcher_module.more s1 = dispatcher_module.more s"
        using wai_sem_begins[OF inv c j] by blast
      from queued_gives_way[OF q inv fit c j(1) v s1(2-6)] s1(1) caller v False show ?thesis by (simp add: asems_abs)
    qed
  qed
qed

lemma twai_sem_allowed:
  fixes s :: "'a pending_module_scheme"
  assumes q: "quiet_env env" and inv: "os_inv s" and fit: "fit s"
  shows "\<exists>r s'. twai_sem env m d s = Some (r, s') \<and> fit s' \<and> allows (Twai_sem m d) (abst s) r (abst s')"
proof (cases "\<exists>c. current_task s = Some c \<and> tstate (tcb_at c s) = TASK_STATE_RUNNING \<and> d \<noteq> 0")
  case False
  then have "\<exists>f. twai_sem env m d s = Some (if current_task s \<noteq> None \<and> d = 0 then E_PAR else E_CTX, say f s)"
    by (auto simp: twai_sem_def dispatcher_get_current_def completed_def say_say Let_def split: option.split)
  then obtain f where f: "twai_sem env m d s = Some (if current_task s \<noteq> None \<and> d = 0 then E_PAR else E_CTX, say f s)"
    by blast
  have "d = 0 \<or> caller (abst s) = None" using False not_running[OF inv] by (cases "d = 0") simp_all
  then have "allows (Twai_sem m d) (abst s) (if current_task s \<noteq> None \<and> d = 0 then E_PAR else E_CTX) (abst s)"
    by (auto simp: acurrent_abs)
  with f fit show ?thesis by (metis fit_say abs_say)
next
  case True
  then obtain c where c: "current_task s = Some c" "tstate (tcb_at c s) = TASK_STATE_RUNNING" and d: "d \<noteq> 0" by blast
  note caller = caller_running[OF inv c]
  have cur: "acurrent (abst s) \<noteq> None" using c(1) by (simp add: acurrent_abs)
  show ?thesis
  proof (cases "sem_view m (semaphore_table s)")
    case None
    then have "\<exists>f. twai_sem env m d s = Some (E_ID, say f s)"
      using c d by (auto simp: twai_sem_def dispatcher_get_current_def completed_def say_say Let_def sem_get_by_id_def
          sem_view_None)
    with None caller cur d fit show ?thesis by (auto simp: asems_abs)
  next
    case (Some v)
    then obtain n mx ks where v: "sem_view m (semaphore_table s) = Some (n, mx, ks)" by (cases v) auto
    show ?thesis
    proof (cases "0 < n")
      case True
      obtain s' where s': "twai_sem env m d s = Some (E_OK, s')" "task_table s' = task_table s"
        "current_task s' = current_task s" "dispatch_pending_state s' = dispatch_pending_state s"
        "\<And>m'. sem_view m' (semaphore_table s')
           = (if m' = m then Some (n - 1, mx, ks) else sem_view m' (semaphore_table s))"
        using twai_sem_takes[OF inv c v True d, of env] by blast
      from abs_sems[OF s'(2-5)] s'(1) fit_cong[OF s'(2)] fit caller cur d v True show ?thesis by (simp add: asems_abs)
    next
      case False
      obtain j where j: "find_semaphore_by_id m s = Some j" "sem_count (sem_at j s) = 0"
        using sem_view_lookup[OF inv v] False by (metis linorder_neqE_linordered_idom not_less)
      obtain s1 where s1: "twai_sem env m d s = wait_switch env ''twai-sem'' ''timeout-wait-switch-failed''
          ''timeout-wait-switch-failed'' ''timeout-wait-queued-switch'' c s1" "os_inv s1"
        "task_table s1 = (task_table s)[c := tcb_enter TASK_STATE_WAITING m TASK_WAIT_REASON_SEMAPHORE_TIMEOUT d (task_table s ! c)]"
        "semaphore_table s1 = (semaphore_table s)[j := ring_put (tid (tcb_at c s)) (semaphore_table s ! j)]"
        "current_task s1 = Some c" "dispatcher_module.more s1 = dispatcher_module.more s"
        using twai_sem_begins[OF inv c j d] by blast
      from queued_gives_way[OF q inv fit c j(1) v s1(2-6)] s1(1) caller cur d v False show ?thesis
        by (simp add: asems_abs)
    qed
  qed
qed

lemma pol_sem_allowed:
  fixes s :: "'a pending_module_scheme"
  assumes inv: "os_inv s" and fit: "fit s"
  shows "fit (snd (pol_sem m s)) \<and> allows (Pol_sem m) (abst s) (fst (pol_sem m s)) (abst (snd (pol_sem m s)))"
proof (cases "\<exists>c. current_task s = Some c \<and> tstate (tcb_at c s) = TASK_STATE_RUNNING")
  case False
  from idle_calls_refused(4)[OF False, of m] not_running[OF inv False] fit show ?thesis by auto
next
  case True
  then obtain c where c: "current_task s = Some c" "tstate (tcb_at c s) = TASK_STATE_RUNNING" by blast
  note caller = caller_running[OF inv c]
  show ?thesis
  proof (cases "sem_view m (semaphore_table s)")
    case None
    then have "\<exists>f. pol_sem m s = (E_ID, say f s)"
      using c by (auto simp: pol_sem_def dispatcher_get_current_def completed_def say_say Let_def sem_get_by_id_def
          sem_view_None)
    with None caller fit show ?thesis by (auto simp: asems_abs)
  next
    case (Some v)
    then obtain n mx ks where v: "v = (n, mx, ks)" by (cases v) auto
    obtain s' where s': "pol_sem m s = (fst (poll_spec v), s')" "task_table s' = task_table s"
      "current_task s' = current_task s" "dispatch_pending_state s' = dispatch_pending_state s"
      "sem_view m (semaphore_table s') = Some (snd (poll_spec v))"
      "\<And>m'. m' \<noteq> m \<Longrightarrow> sem_view m' (semaphore_table s') = sem_view m' (semaphore_table s)"
      using sem_poll_takes[OF inv c Some] by blast
    have "abst s' = set_sem m (snd (poll_spec v)) (abst s)" using s'(5,6) by (intro abs_sems[OF s'(2-4)]) simp
    with s'(1) fit_cong[OF s'(2)] fit caller v Some set_sem_same[of "abst s" m "(n, mx, ks)"] show ?thesis
      by (simp add: asems_abs)
  qed
qed

subsection \<open>New tasks and semaphores\<close>

lemma abs_tasks_insert:
  assumes "i < length tt" and "\<not> tcb_used (tt ! i)" and "tcb_used t" and "0 < tid t" and "lookup_tcb (tid t) tt = None"
  shows "abs_tasks (tt[i := t]) = (abs_tasks tt)(tid t \<mapsto> abs_task_of i t)"
proof
  fix k
  have "lookup_tcb k tt \<noteq> Some i" using assms(2) tasks.lookup_SomeD(2)[of k tt i] by auto
  then show "abs_tasks (tt[i := t]) k = ((abs_tasks tt)(tid t \<mapsto> abs_task_of i t)) k"
    using tasks.lookup_insert[OF assms, of k] assms(1)
    by (cases "lookup_tcb k tt") (auto simp: abs_tasks_def)
qed

lemma task_added:
  fixes s s' :: "'a pending_module_scheme"
  assumes inv: "os_inv s" and fit: "fit s" and i: "find_free_slot s = Some i"
    and t: "tcb_used t" "0 < tid t" "lookup_tcb (tid t) (task_table s) = None" "stack_ok t"
    and s': "task_table s' = (task_table s)[i := t]" "semaphore_table s' = semaphore_table s"
      "current_task s' = current_task s" "dispatch_pending_state s' = dispatch_pending_state s"
  shows "fit s' \<and> adds_task (tid t) (priority t) (activity (abs_task_of i t)) (abst s) (abst s')"
proof -
  note slot = find_free_slot_SomeD[OF i]
  have "tid ((task_table s)[i := t] ! c) = tid (task_table s ! c)" if "current_task s = Some c" for c
    using os_inv_current(2)[OF inv that] slot by (cases "c = i") (auto simp: tcb_at_def)
  then have cur: "map_option (\<lambda>c. tid ((task_table s)[i := t] ! c)) (current_task s)
      = map_option (\<lambda>c. tid (task_table s ! c)) (current_task s)"
    by (cases "current_task s") simp_all
  have "abst s' = (abst s)\<lparr>atasks := (atasks (abst s))(tid t \<mapsto> abs_task_of i t)\<rparr>"
    using s' cur abs_tasks_insert[OF slot t(1-3)] by (simp add: abst_def)
  moreover have "abs_task_of i t = \<lparr>activity = activity (abs_task_of i t), urgency = Urgency (priority t) i\<rparr>"
    by (simp add: abs_task_of_def)
  moreover have "atasks (abst s) (tid t) = None" using t(3) by (simp add: atasks_abs)
  moreover have "urgency_slot (urgency u) \<noteq> i" if "atasks (abst s) j = Some u" for j u
    using that slot(2) tasks.lookup_SomeD(2)[of j "task_table s"] by (auto simp: atasks_abs abs_task_of_def)
  ultimately have "adds_task (tid t) (priority t) (activity (abs_task_of i t)) (abst s) (abst s')"
    unfolding adds_task_def by metis
  moreover have "fit s'" by (rule fit_update[OF fit s'(1)]) (simp add: t(4))
  ultimately show ?thesis by blast
qed

text \<open>The stack of a new task is usable when it has 64 bytes and does not end at the address 0.\<close>

definition good_stack :: "u64 \<Rightarrow> u64 \<Rightarrow> bool" where
  "good_stack base sz \<longleftrightarrow> 64 \<le> sz \<and> base + sz \<noteq> 0"

lemma configured_stack:
  "base \<noteq> 0 \<Longrightarrow> good_stack base sz \<Longrightarrow> stack_ok (task_configure_slot k name ent prio base sz st t)"
  by (simp add: stack_ok_def good_stack_def task_configure_slot_def task_initialize_context_def
      task_calculate_stack_top_def)

lemma configured_fields [simp]:
  "abs_task_of i (task_configure_slot k name ent prio base sz st t)
     = \<lparr>activity = activity_of st 0 TASK_WAIT_REASON_NONE 0, urgency = Urgency prio i\<rparr>"
  by (simp add: abs_task_of_def)

lemma task_register_allowed:
  fixes s :: "'a pending_module_scheme"
  assumes inv: "os_inv s" and fit: "fit s" and stack: "good_stack base sz"
  shows "fit (snd (task_register name ent prio base sz s)) \<and>
    allows (Register_task name ent prio base sz) (abst s) (fst (task_register name ent prio base sz s))
      (abst (snd (task_register name ent prio base sz s)))"
proof (cases "register_result name ent base sz s < 0")
  case True
  have "tasks_inv s" using kernel_invD(1)[OF os_invD(2)[OF inv]] by (simp add: wait_inv_def)
  from register_fails[OF this True, of prio] fit True show ?thesis by simp
next
  case False
  let ?s' = "snd (task_register name ent prio base sz s)"
  have ti: "tasks_inv s" using kernel_invD(1)[OF os_invD(2)[OF inv]] by (simp add: wait_inv_def)
  from register_inserts[OF ti False, of prio] obtain i where i: "find_free_slot s = Some i" "base \<noteq> 0"
    and reg: "fst (task_register name ent prio base sz s) = next_task_id s"
      "task_table ?s' = (task_table s)[i := task_configure_slot (next_task_id s) name ent prio base sz TASK_STATE_READY
        (task_table s ! i)]"
    and k: "0 < next_task_id s" "lookup_tcb (next_task_id s) (task_table s) = None" by metis
  have frame: "semaphore_table ?s' = semaphore_table s" "current_task ?s' = current_task s"
    "dispatch_pending_state ?s' = dispatch_pending_state s"
    by (simp_all add: task_register_def allocate_task_id_def Let_def split: option.split)
  let ?t = "task_configure_slot (next_task_id s) name ent prio base sz TASK_STATE_READY (task_table s ! i)"
  have t: "tcb_used ?t" "0 < tid ?t" "lookup_tcb (tid ?t) (task_table s) = None" "stack_ok ?t"
    using k configured_stack[OF i(2) stack] by (simp_all add: tcb_used_def)
  from task_added[OF inv fit i(1) t reg(2) frame] reg(1) k(1) show ?thesis by simp
qed

lemma cre_tsk_allowed:
  fixes s :: "'a pending_module_scheme"
  assumes inv: "os_inv s" and fit: "fit s"
    and stack: "\<And>p. pk = Some p \<Longrightarrow> good_stack (ctsk_stack_base p) (ctsk_stack_size p)"
  shows "fit (snd (cre_tsk k pk s)) \<and> allows (Cre_tsk k pk) (abst s) (fst (cre_tsk k pk s)) (abst (snd (cre_tsk k pk s)))"
proof -
  let ?s' = "snd (cre_tsk k pk s)"
  have frame: "semaphore_table ?s' = semaphore_table s" "dispatch_pending_state ?s' = dispatch_pending_state s"
    by (auto simp: cre_tsk_def task_create_dormant_def completed_def Let_def split: option.split)
  show ?thesis
  proof (cases "create_result k pk s = E_OK")
    case False
    note rej = cre_tsk_rejects[OF False]
    have "allows (Cre_tsk k pk) (abst s) (create_result k pk s) (abst s)"
      using False by (auto simp: create_result_def bad_param_def doing_none split: option.split if_splits)
    with unchanged[OF fit rej(2) frame(2)] rej(1) show ?thesis by simp
  next
    case True
    then obtain p where p: "pk = Some p" by (auto simp: create_result_def split: if_splits option.splits)
    have par: "\<not> bad_param pk" using True by (auto simp: p bad_param_def create_result_def split: if_splits)
    from cre_tsk_creates[OF True[unfolded p]] obtain i where
      i: "find_free_slot s = Some i" "fst (cre_tsk k pk s) = E_OK" "0 < k" "lookup_tcb k (task_table s) = None"
      "current_task ?s' = current_task s"
      and tt: "task_table ?s' = (task_table s)[i := task_configure_slot k (ctsk_name p)
        (ctsk_entry p) (ctsk_priority p) (ctsk_stack_base p) (ctsk_stack_size p) TASK_STATE_DORMANT (task_table s ! i)]"
      unfolding p by metis
    let ?t = "task_configure_slot k (ctsk_name p) (ctsk_entry p) (ctsk_priority p) (ctsk_stack_base p)
      (ctsk_stack_size p) TASK_STATE_DORMANT (task_table s ! i)"
    have t: "tcb_used ?t" "0 < tid ?t" "lookup_tcb (tid ?t) (task_table s) = None" "stack_ok ?t"
      using i(3,4) par configured_stack[OF _ stack[OF p]] by (simp_all add: tcb_used_def bad_param_def p)
    from task_added[OF inv fit i(1) t tt frame(1) i(5) frame(2)] i(2-4) par p show ?thesis
      by (simp add: doing_none[THEN iffD2])
  qed
qed

lemma sem_create_allowed:
  fixes s :: "'a pending_module_scheme"
  assumes inv: "os_inv s" and fit: "fit s"
  shows "fit (snd (sem_create name n mx s)) \<and>
    allows (Create_sem name n mx) (abst s) (fst (sem_create name n mx s)) (abst (snd (sem_create name n mx s)))"
proof -
  note sems = wait_inv_sems_ok[OF kernel_invD(1)[OF os_invD(2)[OF inv]]]
  let ?s' = "snd (sem_create name n mx s)" and ?k = "next_sem_id s"
  have frame: "task_table ?s' = task_table s" "current_task ?s' = current_task s"
    "dispatch_pending_state ?s' = dispatch_pending_state s"
    by (simp_all add: sem_create_def allocate_sem_id_def Let_def split: option.split)
  show ?thesis
  proof (cases "sem_create_refused name n mx s")
    case True
    from sem_create_fails[OF sems True] fit show ?thesis by simp
  next
    case False
    obtain i where i: "find_free_semaphore_slot s = Some i" and r: "fst (sem_create name n mx s) = ?k"
      and st: "semaphore_table ?s' = (semaphore_table s)[i := new_sem ?k name n mx (semaphore_table s ! i)]"
      and lookup: "\<And>m. lookup_sem m ((semaphore_table s)[i := new_sem ?k name n mx (semaphore_table s ! i)])
        = (if m = ?k then Some i else lookup_sem m (semaphore_table s))"
      and fresh: "lookup_sem ?k (semaphore_table s) = None"
      using sem_create_inserts[OF sems False] by metis
    note slot = find_free_semaphore_SomeD[OF i]
    have "sem_view m (semaphore_table ?s') = (if m = ?k then Some (n, mx, []) else sem_view m (semaphore_table s))" for m
      using lookup[of m] slot sems.lookup_SomeD(2)[of m "semaphore_table s" i]
      by (cases "lookup_sem m (semaphore_table s)") (auto simp: st sem_view_def nth_list_update)
    from abs_sems[OF frame this] have "abst ?s' = set_sem ?k (n, mx, []) (abst s)" by simp
    moreover have "asems (abst s) ?k = None" using fresh by (simp add: asems_abs sem_view_def)
    moreover have "0 \<le> n" "n \<le> mx" using False by (auto simp: sem_create_refused_def)
    ultimately show ?thesis using r fit_cong[OF frame(1)] fit sems_okD(3)[OF sems] by simp
  qed
qed

lemma commit_current_allowed:
  fixes s :: "'a pending_module_scheme"
  assumes inv: "os_inv s" and fit: "fit s"
  shows "fit (snd (dispatcher_commit_current (task_get_by_id k s) s)) \<and>
    allows (Commit_current k) (abst s) (fst (dispatcher_commit_current (task_get_by_id k s) s))
      (abst (snd (dispatcher_commit_current (task_get_by_id k s) s)))"
proof (cases "lookup_tcb k (task_table s)")
  case None
  with fit show ?thesis by (simp add: task_get_by_id_def dispatcher_commit_current_def doing_none[THEN iffD2])
next
  case (Some i)
  then have get: "task_get_by_id k s = Some i" by (simp add: task_get_by_id_def)
  show ?thesis
  proof (cases "tstate (tcb_at i s) = TASK_STATE_READY")
    case False
    then have "dispatcher_commit_current (Some i) s = (DISPATCHER_ERR_BAD_STATE, s)"
      by (simp add: dispatcher_commit_current_def)
    with fit False get Some show ?thesis by (simp add: doing_lookup)
  next
    case True
    let ?s1 = "upd_tcb i (tcb_enter TASK_STATE_RUNNING 0 TASK_WAIT_REASON_NONE 0) s"
    have commit: "dispatcher_commit_current (Some i) s = (DISPATCHER_OK, ?s1\<lparr>current_task := Some i\<rparr>)"
      using commit_current_spec[OF Some] True by (simp add: tcb_at_def)
    have "fit ?s1" using fit used_lookup[OF Some] by (intro fit_upd_enter) (simp_all add: tcb_used_def)
    then have "fit (?s1\<lparr>current_task := Some i\<rparr>)" by (simp add: fit_def)
    moreover have "abst ?s1 = (become k (activity_of TASK_STATE_RUNNING 0 TASK_WAIT_REASON_NONE 0) (abst s))
        \<lparr>asems := (\<lambda>m. sem_view m (semaphore_table ?s1)), arequest := abs_request (dispatch_pending_state ?s1)\<rparr>"
      by (rule abs_enter[OF Some]) (simp_all add: task_table_upd_tcb)
    then have a1: "abst ?s1 = become k Running (abst s)" by (simp add: become_def) (simp add: abst_def)
    have "tid (task_table ?s1 ! i) = k"
      using tasks.lookup_SomeD(1,3)[OF Some] by (simp add: task_table_upd_tcb tcb_enter_def)
    then have "abst (?s1\<lparr>current_task := Some i\<rparr>) = (abst ?s1)\<lparr>acurrent := Some k\<rparr>" by (simp add: abst_def)
    ultimately show ?thesis using commit get True a1 by (simp add: doing_lookup[OF Some])
  qed
qed

subsection \<open>A tick\<close>

lemma tick_activity_tcb:
  assumes "wait_data_ok t"
  shows "activity_of (tstate (tick_tcb t)) (wait_sem_id (tick_tcb t)) (wait_reason (tick_tcb t)) (delay_ticks_remaining (tick_tcb t))
    = tick_activity (activity_of (tstate t) (wait_sem_id t) (wait_reason t) (delay_ticks_remaining t))"
  using assms
  by (cases "tstate t"; cases "wait_reason t")
    (auto simp: wait_data_ok_def tick_tcb_def timed_reason_def tcb_enter_def)

lemma runs_out_tcb:
  assumes "wait_data_ok t"
  shows "runs_out (Some (activity_of (tstate t) (wait_sem_id t) (wait_reason t) (delay_ticks_remaining t)))
    \<longleftrightarrow> timed_wait t = Some 1"
  using assms
  by (cases "tstate t"; cases "wait_reason t")
    (auto simp: wait_data_ok_def runs_out_def timed_wait_def timed_reason_def)

lemma tick_tcb_static:
  assumes "wait_data_ok t"
  shows "tid (tick_tcb t) = tid t" and "tcb_used (tick_tcb t) = tcb_used t" and "priority (tick_tcb t) = priority t"
    and "stack_ok (tick_tcb t) = stack_ok t"
  using assms
  by (auto simp: tick_tcb_def tcb_enter_def stack_ok_def tcb_used_def wait_data_ok_def timed_reason_def)

lemma abs_tasks_tick:
  assumes "\<And>t. t \<in> set tt \<Longrightarrow> wait_data_ok t"
  shows "abs_tasks (map tick_tcb tt) k = map_option (\<lambda>t. t\<lparr>activity := tick_activity (activity t)\<rparr>) (abs_tasks tt k)"
proof -
  have data: "wait_data_ok (tt ! i)" if "i < length tt" for i using that by (intro assms) simp
  have "first_index (\<lambda>t. tcb_used t \<and> tid t = k) (map tick_tcb tt) = first_index (\<lambda>t. tcb_used t \<and> tid t = k) tt"
    using data tick_tcb_static by (intro first_index_cong) simp_all
  then have lookup: "lookup_tcb k (map tick_tcb tt) = lookup_tcb k tt"
    by (simp add: lookup_tcb_def scan_task_id_def)
  show ?thesis
  proof (cases "lookup_tcb k tt")
    case None
    then show ?thesis by (simp add: abs_tasks_def lookup)
  next
    case (Some i)
    note i = tasks.lookup_SomeD(1)[OF Some]
    from Some i show ?thesis
      using tick_activity_tcb[OF data[OF i]] tick_tcb_static(3)[OF data[OF i]]
      by (simp add: abs_tasks_def lookup abs_task_of_def)
  qed
qed

lemma tick_abst:
  fixes s :: "'a pending_module_scheme"
  assumes inv: "os_inv s"
  shows "abst (timer_tick s) = tick (abst s)" and "fit s \<Longrightarrow> fit (timer_tick s)"
proof -
  note kinv = os_invD(2)[OF inv] and w = kernel_invD(1)[OF os_invD(2)[OF inv]]
  note tick = timer_tick_refines(3,6,7)[OF kinv]
  have data: "wait_data_ok t" if "t \<in> set (task_table s)" for t
    using w that by (simp add: wait_inv_def tasks_inv_def tasks_ok_def)
  have out: "k \<notin> set (expired_ids (dq_items s)) \<longleftrightarrow> \<not> runs_out (doing (abst s) k)"
    if k: "k \<in> set (queue_of m (semaphore_table s))" for k m
  proof -
    obtain i where i: "lookup_tcb k (task_table s) = Some i" using queued_task[OF w k] by metis
    have "k \<in> set (expired_ids (dq_items s)) \<longleftrightarrow> (k, 1) \<in> set (dq_items s)" by (force simp: expired_ids_def)
    also have "\<dots> \<longleftrightarrow> timed_wait (tcb_at i s) = Some 1" using queued_delay[OF w i] by (simp add: tcb_at_def)
    finally show ?thesis
      using runs_out_tcb[OF wait_data_lookup[OF inv i]] by (simp add: doing_lookup[OF i])
  qed
  have "sem_view m (semaphore_table (timer_tick s))
      = map_option (\<lambda>(c, mx, q). (c, mx, filter (\<lambda>k. \<not> runs_out (doing (abst s) k)) q)) (sem_view m (semaphore_table s))" for m
  proof (cases "sem_view m (semaphore_table s)")
    case (Some v)
    then have "snd (snd v) = queue_of m (semaphore_table s)" by (cases v) (simp add: sem_view_queue)
    with Some out[of _ m] show ?thesis
      by (cases v) (simp add: timer_tick_sem_view[OF kinv] cong: filter_cong)
  qed (simp add: timer_tick_sem_view[OF kinv])
  moreover have "abs_tasks (task_table (timer_tick s))
      = (\<lambda>k. map_option (\<lambda>t. t\<lparr>activity := tick_activity (activity t)\<rparr>) (abs_tasks (task_table s) k))"
    using abs_tasks_tick[of "task_table s"] data by (auto simp: tick(1))
  moreover have "tid (task_table (timer_tick s) ! c) = tid (task_table s ! c)" if "current_task s = Some c" for c
    using os_inv_current(1)[OF inv that] os_invD(3)[OF inv] tick_tcb_static(1) data by (simp add: tick(1))
  then have "map_option (\<lambda>c. tid (task_table (timer_tick s) ! c)) (current_task s)
      = map_option (\<lambda>c. tid (task_table s ! c)) (current_task s)"
    by (cases "current_task s") simp_all
  ultimately show "abst (timer_tick s) = tick (abst s)"
    by (simp add: abst_def tick_def tick(2,3) doing_def case_prod_beta)
  show "fit (timer_tick s)" if "fit s"
    using that data tick_tcb_static(2,4) by (auto simp: fit_def tick(1))
qed

subsection \<open>The deferred boundary and the timer interrupt\<close>

lemma abst_clear [simp]:
  "abst (dispatch_pending_clear_with_reason l s) = (abst s)\<lparr>arequest := None\<rparr>"
  "fit (dispatch_pending_clear_with_reason l s) = fit s"
proof -
  have "abst (s\<lparr>dispatch_pending_state := no_pending\<rparr>) = (abst s)\<lparr>arequest := None\<rparr>"
    by (simp add: abst_def abs_request_def no_pending_def)
  then show "abst (dispatch_pending_clear_with_reason l s) = (abst s)\<lparr>arequest := None\<rparr>"
    by (simp add: dispatch_pending_clear_with_reason_def Let_def split: option.split)
  show "fit (dispatch_pending_clear_with_reason l s) = fit s" by (rule fit_core) simp
qed

lemma doing_state:
  assumes "lookup_tcb k (task_table s) = Some i"
  shows "doing (abst s) k = Some Running \<longleftrightarrow> tstate (tcb_at i s) = TASK_STATE_RUNNING"
    and "doing (abst s) k = Some Ready \<longleftrightarrow> tstate (tcb_at i s) = TASK_STATE_READY"
  by (simp_all add: doing_lookup[OF assms])

lemma consume_allowed:
  fixes s :: "'a pending_module_scheme"
  assumes q: "quiet_env env" and inv: "os_inv s" and fit: "fit s"
  shows "\<exists>r s'. dispatch_pending_consume_at_deferred_boundary env s = Some (r, s') \<and> fit s' \<and>
    consumes (abst s) r (abst s')"
proof (cases "requested (dispatch_pending_state s)")
  case False
  then show ?thesis using fit
    by (simp add: dispatch_pending_consume_at_deferred_boundary_def dispatch_pending_take_snapshot_def consumes_def
        abst_def abs_request_def)
next
  case True
  define p where "p = dispatch_pending_state s"
  define snap where "snap = \<lparr>snapshot_reason = pending_reason p, from_task_id = current_id p, to_task_id = candidate_id p\<rparr>"
  have take: "dispatch_pending_take_snapshot s = Some snap"
    using True by (simp add: dispatch_pending_take_snapshot_def snap_def p_def Let_def)
  have req: "arequest (abst s) = Some (source p, current_id p, candidate_id p)"
    using True by (simp add: abst_def abs_request_def p_def)
  define s1 where "s1 = dispatch_pending_log_consumed snap s"
  have s1: "os_inv s1" "fit s1" "abst s1 = abst s"
    using inv fit by (simp_all add: s1_def dispatch_pending_log_consumed_def)
  let ?from = "lookup_tcb (current_id p) (task_table s1)" and ?to = "lookup_tcb (candidate_id p) (task_table s1)"
  have get: "task_get_mutable_by_id (from_task_id snap) s1 = ?from" "task_get_mutable_by_id (to_task_id snap) s1 = ?to"
    by (simp_all add: snap_def task_get_mutable_by_id_def)
  have good: "(doing (abst s) (current_id p) = Some Running \<and> doing (abst s) (candidate_id p) = Some Ready) \<longleftrightarrow>
    (\<exists>f t. ?from = Some f \<and> ?to = Some t \<and> tstate (tcb_at f s1) = TASK_STATE_RUNNING \<and> tstate (tcb_at t s1) = TASK_STATE_READY)"
    using doing_state[of "current_id p" s1] doing_state[of "candidate_id p" s1] doing_none[of s1 "current_id p"]
      doing_none[of s1 "candidate_id p"]
    by (cases ?from; cases ?to) (auto simp: s1(3))
  show ?thesis
  proof (cases "\<exists>f t. ?from = Some f \<and> ?to = Some t \<and> tstate (tcb_at f s1) = TASK_STATE_RUNNING \<and>
      tstate (tcb_at t s1) = TASK_STATE_READY")
    case False
    then have "\<exists>g l. dispatch_pending_consume_at_deferred_boundary env s
        = Some (DISPATCH_PENDING_CONSUME_INVALID, dispatch_pending_clear_with_reason l (say g s1))"
      using take get by (fastforce simp: dispatch_pending_consume_at_deferred_boundary_def s1_def[symmetric] Let_def)
    then obtain g l where run: "dispatch_pending_consume_at_deferred_boundary env s
        = Some (DISPATCH_PENDING_CONSUME_INVALID, dispatch_pending_clear_with_reason l (say g s1))" by blast
    have "consumes (abst s) DISPATCH_PENDING_CONSUME_INVALID ((abst s)\<lparr>arequest := None\<rparr>)"
      using False good by (simp add: consumes_def req)
    with run s1 show ?thesis by simp
  next
    case True
    then obtain f t where ft: "?from = Some f" "?to = Some t" "tstate (tcb_at f s1) = TASK_STATE_RUNNING"
      "tstate (tcb_at t s1) = TASK_STATE_READY" by blast
    have l: "f < MAX_TASKS" "t < MAX_TASKS"
      using tasks.lookup_SomeD(1)[OF ft(1)] tasks.lookup_SomeD(1)[OF ft(2)] os_invD(3)[OF s1(1)] by simp_all
    have cur: "current_task s1 = Some f"
      using kernel_invD(2)[OF os_invD(2)[OF s1(1)]] ft(3) l(1) os_invD(3)[OF s1(1)]
      by (auto simp: run_ok_def tcb_at_def)
    have ids: "tid (tcb_at f s1) = current_id p" "tid (tcb_at t s1) = candidate_id p"
      using tasks.lookup_SomeD(3)[OF ft(1)] tasks.lookup_SomeD(3)[OF ft(2)] by (simp_all add: tcb_at_def)
    have "t \<noteq> f" using ft(3,4) by auto
    then obtain s2 where s2: "dispatcher_switch_to env (Some f) (Some t) s1 = Some (DISPATCHER_OK, s2)" "fit s2"
      "abst s2 = enter (current_id p) (candidate_id p) (abst s)"
      using switch_steps[OF q s1(1,2) cur _ l(2) ft(4)] ft(3) ids s1(3) by (auto simp: switchable_def)
    have "dispatch_pending_consume_at_deferred_boundary env s
        = Some (DISPATCHER_OK, dispatch_pending_clear_with_reason (Some ''dispatch-completed'') s2)"
      using take get ft s2(1)
      by (simp add: dispatch_pending_consume_at_deferred_boundary_def s1_def[symmetric] Let_def)
    moreover have "consumes (abst s) DISPATCHER_OK ((enter (current_id p) (candidate_id p) (abst s))\<lparr>arequest := None\<rparr>)"
      using True good by (simp add: consumes_def req)
    ultimately show ?thesis using s2(2,3) by simp
  qed
qed

lemma abs_request_kept:
  "abs_request (kept_request p) = (case abs_request p of Some (src, x) \<Rightarrow>
     if src = DISPATCH_PENDING_SOURCE_IRQ then None else abs_request p | None \<Rightarrow> None)"
  by (simp add: kept_request_def abs_request_def no_pending_def)

text \<open>The task that should preempt the caller, in the tables.\<close>

lemma preempts_slots:
  assumes inv: "os_inv s"
  shows "caller (abst s) = Some k \<and> next_ready (abst s) j \<and> priority_in (abst s) j < priority_in (abst s) k \<longleftrightarrow>
    (\<exists>c n. current_task s = Some c \<and> tstate (tcb_at c s) = TASK_STATE_RUNNING \<and> scheduler_select_next s = Some n \<and>
       priority (tcb_at n s) < priority (tcb_at c s) \<and> k = tid (tcb_at c s) \<and> j = tid (tcb_at n s))"
proof -
  have prio: "priority_in (abst s) (tid (tcb_at c s)) = priority (tcb_at c s)" if "current_task s = Some c" for c
    using os_inv_current(3)[OF inv that] by (rule priority_lookup)
  have prio': "priority_in (abst s) (tid (tcb_at n s)) = priority (tcb_at n s)" if "scheduler_select_next s = Some n" for n
    using select_next_ready(3)[OF inv that] by (rule priority_lookup)
  show ?thesis
    unfolding next_ready_select[OF inv] caller_abs[OF inv]
    by (cases "current_task s"; cases "scheduler_select_next s") (auto simp: prio prio')
qed

lemma preemption_allowed:
  fixes s :: "'a pending_module_scheme"
  assumes inv: "os_inv s"
  shows "evaluates (abst s) (abst (snd (preemption_evaluate_from_irq s)))"
proof -
  let ?s = "snd (preemption_evaluate_from_irq s)" and ?p = "dispatch_pending_state s"
  define old where "old = abs_request (kept_request ?p)"
  define preempts where "preempts = (\<lambda>c n. caller (abst s) = Some c \<and> next_ready (abst s) n \<and>
    priority_in (abst s) n < priority_in (abst s) c)"
  have a: "abst ?s = (abst s)\<lparr>arequest := abs_request (evaluated_request s)\<rparr>"
    using core_eqD[OF core_preemption[of s]] by (simp add: abst_def preemption_evaluated)
  have req: "arequest (abst s) = abs_request ?p" by (simp add: abst_def)
  have from_task: "requested (kept_request ?p) \<and> source (kept_request ?p) = DISPATCH_PENDING_SOURCE_TASK \<longleftrightarrow>
      (\<exists>c n. abs_request ?p = Some (DISPATCH_PENDING_SOURCE_TASK, c, n))"
    by (auto simp: kept_request_def abs_request_def no_pending_def)
  show ?thesis
  proof (cases "\<exists>c n. current_task s = Some c \<and> tstate (tcb_at c s) = TASK_STATE_RUNNING \<and>
      scheduler_select_next s = Some n \<and> priority (tcb_at n s) < priority (tcb_at c s)")
    case True
    then obtain c n where c: "current_task s = Some c" "tstate (tcb_at c s) = TASK_STATE_RUNNING"
      and n: "scheduler_select_next s = Some n" "priority (tcb_at n s) < priority (tcb_at c s)" by blast
    have pre: "preempts (tid (tcb_at c s)) (tid (tcb_at n s))"
      unfolding preempts_def using preempts_slots[OF inv] c n by blast
    have ev: "evaluated_request s = (if requested (kept_request ?p) \<and> source (kept_request ?p) = DISPATCH_PENDING_SOURCE_TASK
      then kept_request ?p
      else \<lparr>requested = True, request_logged = False, source = DISPATCH_PENDING_SOURCE_IRQ,
        pending_reason = DISPATCH_PENDING_FROM_IRQ, pending_current = Some c,
        pending_candidate = Some n, current_id = tid (tcb_at c s), candidate_id = tid (tcb_at n s)\<rparr>)"
      using c n by (simp add: evaluated_request_def scheduler_select_preemption_candidate_def Let_def)
    show ?thesis
    proof (cases "requested (kept_request ?p) \<and> source (kept_request ?p) = DISPATCH_PENDING_SOURCE_TASK")
      case True
      then have "abst ?s = (abst s)\<lparr>arequest := old\<rparr>" using ev by (simp add: a old_def)
      with True from_task show ?thesis
        unfolding evaluates_def Let_def old_def req abs_request_kept by auto
    next
      case False
      then have "abst ?s = (abst s)\<lparr>arequest := Some (DISPATCH_PENDING_SOURCE_IRQ, tid (tcb_at c s), tid (tcb_at n s))\<rparr>"
        using ev by (simp add: a abs_request_def)
      with False from_task pre show ?thesis
        unfolding evaluates_def Let_def preempts_def req by auto
    qed
  next
    case False
    then have none: "\<not> preempts k j" for k j
      unfolding preempts_def preempts_slots[OF inv] by blast
    have "evaluated_request s = kept_request ?p"
      using False
      by (auto simp: evaluated_request_def scheduler_select_preemption_candidate_def Let_def split: option.split)
    then have "abst ?s = (abst s)\<lparr>arequest := old\<rparr>" by (simp add: a old_def)
    with none show ?thesis
      unfolding evaluates_def Let_def preempts_def old_def req abs_request_kept by auto
  qed
qed

text \<open>Reporting a request changes its flag only.\<close>

lemma abst_log_state [simp]:
  fixes s :: "'a pending_module_scheme"
  shows "abst (dispatch_pending_log_state_from_irq nr s) = abst s"
    and "fit (dispatch_pending_log_state_from_irq nr s) = fit s"
proof -
  have "fit (s\<lparr>dispatch_pending_state := p\<rparr>) = fit s" for p and s :: "'a pending_module_scheme"
    by (simp add: fit_def)
  then show "fit (dispatch_pending_log_state_from_irq nr s) = fit s"
    by (simp add: dispatch_pending_log_state_from_irq_def)
  show "abst (dispatch_pending_log_state_from_irq nr s) = abst s"
    by (simp add: dispatch_pending_log_state_from_irq_def) (simp add: abst_def abs_request_def)
qed

lemma irq_evaluated_allowed:
  fixes s :: "'a pending_module_scheme"
  assumes inv: "os_inv s" and fit: "fit s"
  shows "fit (irq_evaluated s)" and "evaluates (tick (abst s)) (abst (irq_evaluated s))"
proof -
  define s1 where "s1 = timer_tick (say (\<lambda>s. [''[timer-irq] entry reached: vector=32 irq=0\<newline>'']) s)"
  have s1: "os_inv s1" "fit s1" "abst s1 = tick (abst s)"
    using inv fit by (simp_all add: s1_def os_inv_timer_tick tick_abst)
  have "abst (irq_evaluated s) = abst (snd (preemption_evaluate_from_irq s1))"
    "fit (irq_evaluated s) = fit (snd (preemption_evaluate_from_irq s1))"
    by (simp_all add: irq_evaluated_def s1_def case_prod_beta)
  with preemption_allowed[OF s1(1)] fit_core[OF core_preemption[of s1]] s1
  show "fit (irq_evaluated s)" and "evaluates (tick (abst s)) (abst (irq_evaluated s))" by simp_all
qed

lemma timer_irq_allowed:
  fixes s :: "'a pic_module_scheme"
  assumes q: "quiet_env env" and inv: "os_inv s" and fit: "fit s"
  shows "\<exists>s'. arch_timer_irq_handle env s = Some s' \<and> fit s' \<and> allows Timer_irq (abst s) 0 (abst s')"
proof -
  obtain f g where steps: "arch_timer_irq_handle env s
    = map_option (\<lambda>(r, s'). say (\<lambda>s. [''[timer-irq] eoi sent: irq=0\<newline>'']) (arch_pic_send_eoi ARCH_TIMER_IRQ_LINE s'))
        (dispatch_pending_consume_at_deferred_boundary env (say f (say g (irq_evaluated s))))"
    by (rule timer_irq_steps)
  note ev = irq_evaluated_allowed[OF inv fit]
  obtain r s' where s': "dispatch_pending_consume_at_deferred_boundary env (say f (say g (irq_evaluated s))) = Some (r, s')"
    "fit s'" "consumes (abst (irq_evaluated s)) r (abst s')"
    using consume_allowed[OF q, of "say f (say g (irq_evaluated s))"] os_inv_irq_evaluated[OF inv] ev(1) by auto
  have "fit (arch_pic_send_eoi irq s') = fit s'" "abst (arch_pic_send_eoi irq s') = abst s'" for irq
    by (rule fit_cong abs_cong; simp add: arch_pic_send_eoi_def arch_pic_outb_def say_def writes_def)+
  with steps s' ev(2) show ?thesis by auto
qed

subsection \<open>Every call\<close>

text \<open>The stacks that the creation calls are given.\<close>

fun call_fits :: "kernel_call \<Rightarrow> bool" where
  "call_fits (Register_task name ent prio base sz) \<longleftrightarrow> good_stack base sz"
| "call_fits (Cre_tsk k pk) \<longleftrightarrow>
     (case pk of None \<Rightarrow> True | Some p \<Rightarrow> good_stack (ctsk_stack_base p) (ctsk_stack_size p))"
| "call_fits _ \<longleftrightarrow> True"

lemma returned:
  "fit (snd x) \<and> allows call a (fst x) (abst (snd x)) \<Longrightarrow>
   \<exists>r s'. Some x = Some (r, s') \<and> fit s' \<and> allows call a r (abst s')"
  by (cases x) simp

lemma call_allowed_step:
  fixes s :: "'a pic_module_scheme"
  assumes q: "quiet_env env" and inv: "os_inv s" and fit: "fit s" and fits: "call_fits call"
  shows "\<exists>r s'. run_call env call s = Some (r, s') \<and> fit s' \<and> allows call (abst s) r (abst s')"
proof -
  note pure = sem_create_allowed commit_current_allowed sta_tsk_allowed wup_tsk_allowed sig_sem_allowed pol_sem_allowed
  note blocking = slp_tsk_allowed yield_tsk_allowed dly_tsk_allowed wai_sem_allowed twai_sem_allowed consume_allowed
  note step = pure[OF inv fit, THEN returned] blocking[OF q inv fit]
  show ?thesis
  proof (cases call)
    case (Register_task name ent prio base sz)
    then have "good_stack base sz" using fits by simp
    from returned[OF task_register_allowed[OF inv fit this]] Register_task show ?thesis by simp
  next
    case (Cre_tsk k pk)
    then have "\<And>p. pk = Some p \<Longrightarrow> good_stack (ctsk_stack_base p) (ctsk_stack_size p)" using fits by simp
    from returned[OF cre_tsk_allowed[OF inv fit this]] Cre_tsk show ?thesis by simp
  next
    case Timer_irq
    then show ?thesis using timer_irq_allowed[OF q inv fit] by auto
  next
    case Consume_pending
    then show ?thesis using consume_allowed[OF q inv fit] by simp
  qed (simp_all only: run_call.simps step)
qed

end
