(* ===== verification/Abstract_Runs.thy ===== *)
theory Abstract_Runs
  imports Refinement
begin

section \<open>Runs of the abstract kernel\<close>

text \<open>
  Sequences of calls, in the kernel and in the abstract kernel, and what can be read from the abstract
  kernel alone: the calls that can end a wait.
\<close>

subsection \<open>Runs\<close>

fun allows_run :: "kernel_call list \<Rightarrow> abs_kernel \<Rightarrow> int list \<Rightarrow> abs_kernel \<Rightarrow> bool" where
  "allows_run [] a rs a' \<longleftrightarrow> rs = [] \<and> a' = a"
| "allows_run (c # cs) a [] a' \<longleftrightarrow> False"
| "allows_run (c # cs) a (r # rs) a' \<longleftrightarrow> (\<exists>b. allows c a r b \<and> allows_run cs b rs a')"

lemma call_refines:
  fixes s :: "'a pic_module_scheme"
  assumes q: "quiet_env env" and "os_inv s" and "fit s" and "call_fits call" and "call_allowed call s"
  shows "\<exists>r s'. run_call env call s = Some (r, s') \<and> os_inv s' \<and> fit s' \<and> allows call (abst s) r (abst s')"
  using call_allowed_step[OF q assms(2-4)] run_call_returns[OF quiet_contract[OF q] assms(2,5)] by auto

lemma run_refines:
  fixes s :: "'a pic_module_scheme"
  assumes q: "quiet_env env"
  shows "os_inv s \<Longrightarrow> fit s \<Longrightarrow> list_all call_fits cs \<Longrightarrow> calls_allowed env cs s \<Longrightarrow>
    \<exists>rs s'. run_calls env cs s = Some (rs, s') \<and> os_inv s' \<and> fit s' \<and> allows_run cs (abst s) rs (abst s')"
proof (induction cs arbitrary: s)
  case (Cons c cs)
  then have c: "call_fits c" "call_allowed c s" by simp_all
  obtain r s1 where s1: "run_call env c s = Some (r, s1)" "os_inv s1" "fit s1" "allows c (abst s) r (abst s1)"
    using call_refines[OF q Cons.prems(1,2) c] by blast
  with Cons.prems have "list_all call_fits cs" "calls_allowed env cs s1" by simp_all
  from Cons.IH[OF s1(2,3) this] obtain rs s' where "run_calls env cs s1 = Some (rs, s')" "os_inv s'" "fit s'"
    "allows_run cs (abst s1) rs (abst s')" by blast
  with s1 show ?case by (intro exI[of _ "r # rs"] exI[of _ s']) auto
qed simp

text \<open>Runs of calls without limits of their own are allowed everywhere.\<close>

lemma calls_allowed_always:
  fixes s :: "'a pic_module_scheme"
  assumes env: "entry_contract env" and always: "\<And>c s. c \<in> set cs \<Longrightarrow> call_allowed c (s :: 'a pic_module_scheme)"
  shows "os_inv s \<Longrightarrow> calls_allowed env cs s"
  using always
proof (induction cs arbitrary: s)
  case (Cons c cs)
  then have "call_allowed c s" by simp
  with run_call_returns[OF env Cons.prems(1), of c] obtain r s1 where "run_call env c s = Some (r, s1)" "os_inv s1"
    by blast
  with Cons show ?case by simp
qed simp

subsection \<open>Waiting\<close>

definition waits :: "activity \<Rightarrow> bool" where
  "waits v \<longleftrightarrow> v \<noteq> Dormant \<and> v \<noteq> Ready \<and> v \<noteq> Running"

text \<open>The calls that can end a wait, or change what is left of it.\<close>

fun ends_wait :: "int \<Rightarrow> activity \<Rightarrow> kernel_call \<Rightarrow> bool" where
  "ends_wait k Asleep c \<longleftrightarrow> c = Wup_tsk k"
| "ends_wait k (Delayed d) c \<longleftrightarrow> c = Timer_irq"
| "ends_wait k (Queued m None) c \<longleftrightarrow> c = Sig_sem m"
| "ends_wait k (Queued m (Some d)) c \<longleftrightarrow> c = Sig_sem m \<or> c = Timer_irq"
| "ends_wait k v c \<longleftrightarrow> True"

text \<open>Who is in a queue waits for this semaphore.\<close>

definition queues_wait :: "abs_kernel \<Rightarrow> bool" where
  "queues_wait a \<longleftrightarrow>
     (\<forall>m n mx q k. asems a m = Some (n, mx, q) \<longrightarrow> k \<in> set q \<longrightarrow> (\<exists>d. doing a k = Some (Queued m d)))"

lemma doing_simps [simp]:
  "doing (become j v a) k = (if j = k then map_option (\<lambda>_. v) (doing a k) else doing a k)"
  "doing (a\<lparr>acurrent := x\<rparr>) k = doing a k" "doing (a\<lparr>arequest := y\<rparr>) k = doing a k"
  "doing (set_sem m w a) k = doing a k" "doing (urges j a) k = doing a k"
  "doing (tick a) k = map_option tick_activity (doing a k)"
  by (auto simp: doing_def become_def set_sem_def urges_def tick_def option.map_comp o_def split: option.split)

lemma caller_doing: "caller a = Some c \<Longrightarrow> doing a c = Some Running"
  by (simp add: caller_def split: option.splits if_splits)

lemma enter_waits:
  assumes "doing a k = Some v" and "waits v" and "doing a n = Some Ready"
  shows "doing (enter c n a) k = Some v"
  using assms by (auto simp: enter_def waits_def)

lemma next_ready_doing: "next_ready a n \<Longrightarrow> doing a n = Some Ready"
  by (auto simp: next_ready_def doing_def)

lemma gives_way_waits:
  assumes "gives_way c a a'" and "doing a k = Some v" and "waits v"
  shows "doing a' k = Some v"
  using assms(1) enter_waits[OF assms(2,3) next_ready_doing] assms(2)
  by (auto simp: gives_way_def split: if_splits)

lemma caller_blocks_waits:
  assumes "caller a = Some c" and "gives_way c (become c w b) a'" and "doing b k = doing a k"
    and "doing a k = Some v" and "waits v"
  shows "doing a' k = Some v"
proof -
  have "c \<noteq> k" using caller_doing[OF assms(1)] assms(4,5) by (auto simp: waits_def)
  then show ?thesis using gives_way_waits[OF assms(2)] assms(3-5) by simp
qed

lemma consumes_waits:
  assumes "consumes a r a'" and "doing a k = Some v" and "waits v"
  shows "doing a' k = Some v"
  using assms enter_waits[OF assms(2,3)] by (auto simp: consumes_def split: option.splits if_splits)

lemma evaluates_doing: "evaluates a a' \<Longrightarrow> doing a' k = doing a k"
  by (auto simp: evaluates_def Let_def split: if_splits)

lemma adds_task_doing: "adds_task j p v a a' \<Longrightarrow> doing a k = Some w \<Longrightarrow> doing a' k = Some w"
  by (auto simp: adds_task_def doing_def)

lemma tick_waits: "waits v \<Longrightarrow> \<not> ends_wait k v Timer_irq \<Longrightarrow> tick_activity v = v"
  by (cases "(k, v, Timer_irq)" rule: ends_wait.cases) (simp_all add: waits_def)

text \<open>No other call touches a task that waits.\<close>

lemma allows_waits:
  assumes step: "allows call a r a'" and queues: "queues_wait a"
    and v: "doing a k = Some v" "waits v" and other: "\<not> ends_wait k v call"
  shows "doing a' k = Some v"
proof (cases call)
  case (Sig_sem m)
  have "k \<noteq> j" if "asems a m = Some (n, mx, j # q)" for n mx j q
  proof
    assume "k = j"
    moreover have "\<exists>d. doing a j = Some (Queued m d)" using queues that unfolding queues_wait_def by fastforce
    ultimately obtain d where "v = Queued m d" using v by auto
    with other Sig_sem show False by (cases d) simp_all
  qed
  with step v Sig_sem show ?thesis by (auto split: option.splits list.splits if_splits prod.splits)
next
  case Timer_irq
  with step obtain b x where b: "evaluates (tick a) b" "consumes b x a'" by auto
  have "doing b k = Some v"
    using evaluates_doing[OF b(1)] v tick_waits[OF v(2)] other Timer_irq by simp
  with consumes_waits[OF b(2)] v(2) show ?thesis by blast
next
  case (Wup_tsk j)
  with step v other show ?thesis by (auto split: option.splits if_splits)
next
  case Consume_pending
  with step consumes_waits[OF _ v] show ?thesis by simp
next
  case (Sta_tsk j)
  with step v show ?thesis by (auto simp: waits_def split: option.splits if_splits)
next
  case (Commit_current j)
  with step v show ?thesis by (auto simp: waits_def split: if_splits)
next
  case (Register_task nm e p b z)
  with step v adds_task_doing show ?thesis by (auto split: if_splits)
next
  case (Cre_tsk j pk)
  with step v adds_task_doing show ?thesis by (auto split: if_splits)
next
  case (Create_sem nm n mx)
  with step v show ?thesis by (auto split: if_splits)
next
  case (Pol_sem m)
  with step v show ?thesis by (auto split: option.splits if_splits)
next
  case Slp_tsk
  with step v caller_blocks_waits[OF _ _ refl v] show ?thesis by (auto split: option.splits)
next
  case Yield_tsk
  with step v caller_blocks_waits[OF _ _ refl v] show ?thesis by (auto split: option.splits)
next
  case (Dly_tsk d)
  with step v caller_blocks_waits[OF _ _ refl v] show ?thesis by (auto split: option.splits if_splits)
next
  case (Wai_sem m)
  with step v caller_blocks_waits[OF _ _ doing_simps(4) v] show ?thesis by (auto split: option.splits if_splits)
next
  case (Twai_sem m d)
  with step v caller_blocks_waits[OF _ _ doing_simps(4) v] show ?thesis by (auto split: option.splits if_splits)
qed

subsection \<open>Waiting in the kernel\<close>

lemma queues_wait_abst:
  fixes s :: "'a pending_module_scheme"
  assumes inv: "os_inv s"
  shows "queues_wait (abst s)"
  unfolding queues_wait_def
proof (intro allI impI)
  fix m n mx q k
  assume q: "asems (abst s) m = Some (n, mx, q)" and k: "k \<in> set q"
  have "k \<in> set (queue_of m (semaphore_table s))" using q k by (simp add: asems_abs sem_view_queue)
  then have "wait_of k (task_table s) = Some m"
    using wait_invD(4)[OF kernel_invD(1)[OF os_invD(2)[OF inv]], of k] by (simp add: link_ok_def)
  then obtain i where i: "lookup_tcb k (task_table s) = Some i" "sem_wait (tcb_at i s) = Some m"
    by (auto simp: wait_of_def tcb_of_def tcb_at_def split: bind_splits)
  have "wait_data_ok (tcb_at i s)" by (rule wait_data_lookup[OF inv i(1)])
  with i show "\<exists>d. doing (abst s) k = Some (Queued m d)"
    by (cases "wait_reason (tcb_at i s)"; cases "tstate (tcb_at i s)")
      (auto simp: doing_lookup sem_wait_def sem_reason_def wait_data_ok_def split: if_splits)
qed

lemma run_waits:
  fixes s :: "'a pic_module_scheme"
  assumes q: "quiet_env env" and wait: "waits v"
  shows "os_inv s \<Longrightarrow> fit s \<Longrightarrow> list_all call_fits cs \<Longrightarrow> calls_allowed env cs s \<Longrightarrow>
    doing (abst s) k = Some v \<Longrightarrow> \<forall>c \<in> set cs. \<not> ends_wait k v c \<Longrightarrow>
    \<exists>rs s'. run_calls env cs s = Some (rs, s') \<and> os_inv s' \<and> doing (abst s') k = Some v"
proof (induction cs arbitrary: s)
  case (Cons c cs)
  then have c: "call_fits c" "call_allowed c s" "\<not> ends_wait k v c" by simp_all
  obtain r s1 where s1: "run_call env c s = Some (r, s1)" "os_inv s1" "fit s1" "allows c (abst s) r (abst s1)"
    using call_refines[OF q Cons.prems(1,2) c(1,2)] by blast
  have "doing (abst s1) k = Some v"
    by (rule allows_waits[OF s1(4) queues_wait_abst[OF Cons.prems(1)] Cons.prems(5) wait c(3)])
  moreover have "list_all call_fits cs" "calls_allowed env cs s1" "\<forall>c \<in> set cs. \<not> ends_wait k v c"
    using Cons.prems s1(1) by simp_all
  ultimately show ?case using Cons.IH[OF s1(2,3)] s1(1) by fastforce
qed simp

text \<open>What a TCB says of its wait.\<close>

definition may_end :: "tcb_t \<Rightarrow> kernel_call \<Rightarrow> bool" where
  "may_end t c \<longleftrightarrow>
     (case wait_reason t of
        TASK_WAIT_REASON_SLEEP \<Rightarrow> c = Wup_tsk (tid t)
      | TASK_WAIT_REASON_DELAY \<Rightarrow> c = Timer_irq
      | TASK_WAIT_REASON_SEMAPHORE \<Rightarrow> c = Sig_sem (wait_sem_id t)
      | TASK_WAIT_REASON_SEMAPHORE_TIMEOUT \<Rightarrow> c = Sig_sem (wait_sem_id t) \<or> c = Timer_irq
      | TASK_WAIT_REASON_NONE \<Rightarrow> True)"

definition same_wait :: "tcb_t \<Rightarrow> tcb_t \<Rightarrow> bool" where
  "same_wait t u \<longleftrightarrow> tstate u = tstate t \<and> wait_reason u = wait_reason t \<and> wait_sem_id u = wait_sem_id t \<and>
     delay_ticks_remaining u = delay_ticks_remaining t"

lemma waiting_activity:
  assumes "wait_data_ok t" and "tstate t = TASK_STATE_WAITING"
  defines "v \<equiv> activity_of (tstate t) (wait_sem_id t) (wait_reason t) (delay_ticks_remaining t)"
  shows "waits v" and "ends_wait (tid t) v c = may_end t c"
  using assms(1,2) unfolding v_def by (cases "wait_reason t"; simp add: waits_def may_end_def wait_data_ok_def)+

lemma same_activity:
  assumes "wait_data_ok t" and "tstate t = TASK_STATE_WAITING" and "wait_data_ok u"
    and "activity_of (tstate u) (wait_sem_id u) (wait_reason u) (delay_ticks_remaining u)
      = activity_of (tstate t) (wait_sem_id t) (wait_reason t) (delay_ticks_remaining t)"
  shows "same_wait t u"
  using assms
  by (cases "wait_reason t"; cases "tstate u"; cases "wait_reason u")
    (simp_all add: same_wait_def wait_data_ok_def sem_reason_def timed_reason_def)

lemma run_keeps_wait:
  fixes s :: "'a pic_module_scheme"
  assumes q: "quiet_env env" and s: "os_inv s" "fit s" and cs: "list_all call_fits cs" "calls_allowed env cs s"
    and k: "tcb_of k (task_table s) = Some t" "tstate t = TASK_STATE_WAITING" and other: "\<forall>c \<in> set cs. \<not> may_end t c"
  shows "\<exists>rs s' u. run_calls env cs s = Some (rs, s') \<and> tcb_of k (task_table s') = Some u \<and> same_wait t u"
proof -
  obtain i where i: "lookup_tcb k (task_table s) = Some i" "t = tcb_at i s"
    using k(1) by (auto simp: tcb_of_def tcb_at_def)
  have ok: "wait_data_ok t" using wait_data_lookup[OF s(1) i(1)] i(2) by simp
  have "tid t = k" using tasks.lookup_SomeD(3)[OF i(1)] i(2) by (simp add: tcb_at_def)
  note v = waiting_activity[OF ok k(2), unfolded this]
  let ?v = "activity_of (tstate t) (wait_sem_id t) (wait_reason t) (delay_ticks_remaining t)"
  have "doing (abst s) k = Some ?v" using doing_lookup[OF i(1)] i(2) by simp
  from run_waits[OF q v(1) s cs this] other obtain rs s' where
    run: "run_calls env cs s = Some (rs, s')" "os_inv s'" "doing (abst s') k = Some ?v"
    using v(2) by auto
  then obtain j where j: "lookup_tcb k (task_table s') = Some j"
    using doing_none[of s' k] by (cases "lookup_tcb k (task_table s')") auto
  have "same_wait t (tcb_at j s')"
    using same_activity[OF ok k(2) wait_data_lookup[OF run(2) j]] run(3) doing_lookup[OF j] by simp
  with run(1) j show ?thesis by (auto simp: tcb_of_def tcb_at_def)
qed

end
