(* ===== verification/Refine_Props.thy ===== *)
theory Refine_Props
  imports Abstract_Runs Boot_Inv
begin

section \<open>The kernel refines the abstract kernel\<close>

text \<open>
  Every run of allowed calls is a run of \<open>Abstract_Kernel\<close> with the same results, and a wait
  ends only by the calls that are meant to end it.
\<close>

subsection \<open>Boot\<close>

text \<open>The entries of \<open>kernel.c\<close> only print; the live registers point to a stack.\<close>

lemma boot_env_quiet: "(\<And>site s. rsp (cxt site s) \<noteq> 0) \<Longrightarrow> quiet_env (boot_env placed tramp base cxt)"
  unfolding quiet_env_def boot_env_entry kernel_entry_run_def by (auto simp: boot_env_def)

interpretation boot_tables: switch_trace "boot_env placed tramp base cxt" table_view stop_task
  for placed tramp base cxt
  by unfold_locales (auto simp: kernel_entry_run_def)

definition empty_kernel :: "(dispatch_pending_source_t \<times> int \<times> int) option \<Rightarrow> abs_kernel" where
  "empty_kernel r = \<lparr>atasks = Map.empty, asems = Map.empty, acurrent = None, arequest = r\<rparr>"

lemma tick_empty: "tick (empty_kernel r) = empty_kernel r"
  by (simp add: tick_def empty_kernel_def)

lemma timer_smoke_abst:
  fixes s :: "'a pending_module_scheme"
  assumes inv: "os_inv s" and "fit s" and "abst s = empty_kernel r"
  shows "abst (kernel_run_timer_smoke s) = empty_kernel r" and "fit (kernel_run_timer_smoke s)"
proof -
  let ?s = "say (\<lambda>s. [''[timer] init: tick='', ulong_str (system_ticks s), ''\<newline>''])
      ((say (\<lambda>s. [''[timer-smoke] begin\<newline>'']) s)\<lparr>system_ticks := 0\<rparr>)"
  have "os_inv ?s = os_inv s" by (rule os_inv_core) (simp_all add: core_def)
  moreover have "abst ?s = abst s" by (rule abs_cong) simp_all
  moreover have "fit ?s = fit s" by (rule fit_cong) simp
  ultimately have s: "os_inv ?s" "abst ?s = empty_kernel r" "fit ?s" using assms by simp_all
  then have "abst (timer_tick (timer_tick (timer_tick ?s))) = empty_kernel r"
    "fit (timer_tick (timer_tick (timer_tick ?s)))"
    by (simp_all only: tick_abst os_inv_timer_tick tick_empty)
  then show "abst (kernel_run_timer_smoke s) = empty_kernel r" and "fit (kernel_run_timer_smoke s)"
    by (simp_all only: kernel_run_timer_smoke_def timer_init_def Let_def abs_say fit_say)
qed

lemma static_abst:
  fixes s :: "'a pending_module_scheme"
  assumes "static_state s"
  shows "abst (kernel_main_init s) = empty_kernel (abs_request (dispatch_pending_state s))"
    and "fit (kernel_main_init s)"
proof -
  define s1 where "s1 = cleared s"
  note tables = cleared_state[OF assms, folded s1_def]
  have "lookup_sem m (replicate MAX_SEMAPHORES zero_sem) = None" for m
    by (cases "0 < m") (simp_all add: sems.lookup_scan sems.lookup_nonpos sem_used_def zero_sem_def)
  then have abst: "abst s1 = empty_kernel (abs_request (dispatch_pending_state s))"
    by (simp add: abst_def empty_kernel_def tables abs_tasks_def no_tasks sem_view_def fun_eq_iff)
  have fit: "fit s1" by (simp add: fit_def tables)
  note smoke = timer_smoke_abst[OF tables(1) fit abst]
  have "kernel_main_init s = kernel_log_scheduler_selection (Some ''before_register'')
      (scheduler_select_next (kernel_run_timer_smoke s1)) (kernel_run_timer_smoke s1)"
    by (simp add: kernel_main_init_def s1_def Let_def)
  moreover have "abst (kernel_log_scheduler_selection l t s') = abst s'" "fit (kernel_log_scheduler_selection l t s') = fit s'"
    for l t and s' :: "'a pending_module_scheme"
    by (simp_all add: kernel_log_scheduler_selection_def Let_def split: option.split)
  ultimately show "abst (kernel_main_init s) = empty_kernel (abs_request (dispatch_pending_state s))"
    and "fit (kernel_main_init s)" using smoke by simp_all
qed

subsection \<open>Runs\<close>

text \<open>
  C3. The kernel refines the abstract kernel, within limits: from a state of the invariant, every run of
  allowed calls comes back, and its results and its last state are those of a run of the abstract kernel,
  call by call. The abstract kernel has no tables, no rings and no delay queue: it is a map of tasks and a
  map of semaphores. The limits: the task entries only print, as those of \<open>kernel.c\<close> (\<open>quiet_env\<close>); every
  task, also every task that the run creates, has a stack the switch accepts, so of at least 64 bytes
  (\<open>fit\<close>, \<open>call_fits\<close>; the creation calls accept smaller ones, and a switch to such a task fails halfway);
  no commit while the current task is RUNNING and no task id \<open>INT_MAX\<close> (\<open>calls_allowed\<close>; the code has no such
  checks, and the boot smokes of \<open>kernel.c\<close> break the first).
\<close>

theorem runs_refine_abstract_kernel:
  fixes s :: "'a pic_module_scheme"
  assumes "quiet_env env" and "os_inv s" and "fit s" and "list_all call_fits cs" and "calls_allowed env cs s"
  shows "\<exists>rs s'. run_calls env cs s = Some (rs, s') \<and> kreach env s s' \<and> os_inv s' \<and> fit s' \<and>
    allows_run cs (abst s) rs (abst s')"
  using run_refines[OF assms] run_calls_reach[OF assms(5) _ kreach_start] by blast

definition print_env :: "'a console_scheme kernel_env" where
  "print_env = boot_env (\<lambda>a. Task_a) 4194304 8388608 (\<lambda>site s. (tcontext zero_tcb)\<lparr>rsp := 65536\<rparr>)"

lemma print_env_quiet: "quiet_env print_env"
  unfolding print_env_def by (rule boot_env_quiet) simp

lemma machine_abst [simp]: "abst (machine_of s) = abst s" "fit (machine_of s) = fit s"
  by (simp_all add: abst_def fit_def)

lemma busy_fit: "fit busy"
proof -
  have "\<forall>t \<in> set sample_tasks. stack_ok t" by code_simp
  then show ?thesis by (auto simp: fit_def busy_lookup(1) padded_tasks_def)
qed

lemma busy_doing:
  "doing (abst busy) 9 = Some Dormant" "doing (abst busy) 77 = None"
  "tcb_of 5 (task_table busy) = Some (sample_task 5 2 TASK_STATE_WAITING 0 TASK_WAIT_REASON_SLEEP 0)"
proof -
  have "first_index (\<lambda>t. tid t = 9) sample_tasks = Some 8" "first_index (\<lambda>t. tid t = 77) sample_tasks = None"
    "first_index (\<lambda>t. tid t = 5) sample_tasks = Some 4"
    by code_simp+
  then have k: "lookup_tcb 9 (task_table busy) = Some 8" "lookup_tcb 77 (task_table busy) = None"
    "lookup_tcb 5 (task_table busy) = Some 4"
    by (simp_all add: busy_lookup(2))
  show "doing (abst busy) 9 = Some Dormant"
    using doing_lookup[OF k(1)] by (simp add: tcb_at_def busy_tcb) (simp add: sample_tasks_def sample_task_def)
  show "doing (abst busy) 77 = None" using k(2) by (simp add: doing_none)
  show "tcb_of 5 (task_table busy) = Some (sample_task 5 2 TASK_STATE_WAITING 0 TASK_WAIT_REASON_SLEEP 0)"
    using k(3) by (simp add: tcb_of_def busy_tcb) (simp add: sample_tasks_def)
qed

lemma runs_refine_abstract_kernel_witness:
  "\<exists>s'. run_calls print_env [Sta_tsk 9, Wup_tsk 77, Timer_irq] (machine_of busy) = Some ([E_OK, E_ID, 0], s') \<and> os_inv s'"
proof -
  let ?cs = "[Sta_tsk 9, Wup_tsk 77, Timer_irq]"
  have inv: "os_inv (machine_of busy)" by (simp add: busy_os_inv)
  have ok: "calls_allowed print_env ?cs (machine_of busy)"
    by (rule calls_allowed_always[OF quiet_contract[OF print_env_quiet] _ inv]) auto
  have fits: "list_all call_fits ?cs" "fit (machine_of busy)" by (simp_all add: busy_fit)
  obtain rs s' where run: "run_calls print_env ?cs (machine_of busy) = Some (rs, s')" "os_inv s'"
    "allows_run ?cs (abst busy) rs (abst s')"
    using runs_refine_abstract_kernel[OF print_env_quiet inv fits(2,1) ok] by auto
  have "rs = [E_OK, E_ID, 0]"
    using run(3) busy_doing by (cases rs; cases "tl rs"; cases "tl (tl rs)"; cases "tl (tl (tl rs))") auto
  with run show ?thesis by blast
qed

text \<open>
  C9. No spurious wakeup: a task that waits keeps its wait, with the ticks that are left of it, through
  any run of calls, unless the run has a call that is meant to end the wait: \<open>wup_tsk\<close> on this task for a
  sleeper, \<open>sig_sem\<close> on its semaphore for a waiter, the timer interrupt for a wait with a limit. The limits
  of the run are those of C3.
\<close>

theorem waits_end_only_as_asked:
  fixes s :: "'a pic_module_scheme"
  assumes "quiet_env env" and "os_inv s" and "fit s" and "list_all call_fits cs" and "calls_allowed env cs s"
    and "tcb_of k (task_table s) = Some t" and "tstate t = TASK_STATE_WAITING" and "\<forall>c \<in> set cs. \<not> may_end t c"
  shows "\<exists>rs s' u. run_calls env cs s = Some (rs, s') \<and> tcb_of k (task_table s') = Some u \<and>
    tstate u = TASK_STATE_WAITING \<and> wait_reason u = wait_reason t \<and> wait_sem_id u = wait_sem_id t \<and>
    delay_ticks_remaining u = delay_ticks_remaining t"
  using run_keeps_wait[OF assms] assms(7) by (simp add: same_wait_def)

lemma waits_end_only_as_asked_witness:
  "\<exists>rs s' u. run_calls print_env [Sta_tsk 9, Timer_irq, Sig_sem 1, Slp_tsk] (machine_of busy) = Some (rs, s') \<and>
     tcb_of 5 (task_table s') = Some u \<and> tstate u = TASK_STATE_WAITING \<and> wait_reason u = TASK_WAIT_REASON_SLEEP"
proof -
  let ?cs = "[Sta_tsk 9, Timer_irq, Sig_sem 1, Slp_tsk]"
  have inv: "os_inv (machine_of busy)" by (simp add: busy_os_inv)
  have ok: "calls_allowed print_env ?cs (machine_of busy)"
    by (rule calls_allowed_always[OF quiet_contract[OF print_env_quiet] _ inv]) auto
  have fits: "list_all call_fits ?cs" "fit (machine_of busy)" by (simp_all add: busy_fit)
  have t: "tcb_of 5 (task_table (machine_of busy)) = Some (sample_task 5 2 TASK_STATE_WAITING 0 TASK_WAIT_REASON_SLEEP 0)"
    by (simp add: busy_doing)
  show ?thesis
    using waits_end_only_as_asked[OF print_env_quiet inv fits(2,1) ok t] by (auto simp: sample_task_def may_end_def)
qed

end
