(* ===== verification/Spec2Isabelle.thy ===== *)
theory Spec2Isabelle
  imports Semaphore_Props Time_Props Preempt_Props Service_Props Hardware_Props Refine_Props
begin

text \<open>
  A model of the \<open>itron-rtos\<close> kernel (the C code under \<open>src/kernel\<close> and \<open>src/arch/x86_64\<close>): a
  single-processor, fixed-priority kernel with uITRON-like services, static tables and a deferred
  dispatch at the end of the timer interrupt.

  \<^bold>\<open>The state.\<close> Every C file with static variables is a record that extends that of the files it uses:
  \<open>console\<close> (what the HAL console has printed), \<open>task_module\<close> (\<open>task.c\<close>), \<open>semaphore_module\<close>
  (\<open>semaphore.c\<close>), \<open>delay_module\<close> (\<open>delay_queue.c\<close>), \<open>timer_module\<close> (\<open>timer.c\<close>), \<open>context_module\<close>
  (\<open>task_context.c\<close>, with the words of the task stacks), \<open>dispatcher_module\<close> (\<open>dispatcher.c\<close>),
  \<open>pending_module\<close> (\<open>dispatch_pending.c\<close>), \<open>pic_module\<close>, \<open>interrupt_module\<close> and \<open>machine\<close> (\<open>pic.c\<close>,
  \<open>interrupt.c\<close>, and the COM1 port). An operation works on any extension of its own record. It takes
  the state last and returns the C result with the new state. A pointer to a TCB, a semaphore or a
  name is an index or a text, \<open>None\<close> for NULL. Ids, priorities and counts are \<open>int\<close>, with \<open>wrap_int\<close>
  where the source lets a signed operation overflow; ticks are \<open>32 word\<close>, the tick counter, the
  addresses and the registers \<open>64 word\<close>. Log lines are part of the model: a run of consecutive writes
  is one \<open>say\<close>.

  \<^bold>\<open>The code.\<close> \<open>Kernel_Prelude\<close>: C integers, table scans, the interfaces \<open>id_table\<close> (a static table
  keyed by an id) and \<open>fifo\<close>. \<open>Console\<close>, \<open>Serial\<close>: the texts of the formatters, the HAL console, \<open>serial.c\<close>.
  \<open>Formatters\<close>: the copies of the formatters, with their buffers. \<open>Task\<close>,
  \<open>Scheduler\<close>, \<open>Semaphore\<close>, \<open>Sem_Legacy\<close> (the signal path kept in \<open>semaphore.c\<close>), \<open>Delay_Queue\<close>, \<open>Timer\<close>,
  \<open>Task_Context\<close>, \<open>Dispatcher\<close>, \<open>Dispatch_Pending\<close>, \<open>Preemption\<close>, \<open>Itron_API\<close>, \<open>Pic\<close>, \<open>Interrupt\<close>: the
  file of that name. \<open>Boot_Log\<close>, \<open>Boot_Smoke\<close>, \<open>Boot\<close>: \<open>kernel.c\<close>, the HAL adapters and \<open>kernel_main\<close>.

  \<^bold>\<open>The parameters.\<close> What is not C code or is chosen by the linker is in \<open>kernel_env\<close> and \<open>interrupt_env\<close>:
  the effect of the code at a task entry address, the addresses of the trampoline, the stubs and the
  TCBs, the live registers at a switch. \<open>entry_contract\<close> states what the kernel relies on of a task
  entry: in a state of the invariant it returns, keeps the invariant and leaves the contexts and the
  prepared stacks alone. \<open>Boot_Inv\<close> shows that the entries of \<open>kernel.c\<close> do so. A switch that does not
  come back is the value \<open>None\<close>; that a service returns is always proved, not assumed.

  \<^bold>\<open>The invariant.\<close> \<open>Wait_Links\<close> and \<open>Kernel_Inv\<close> define \<open>kernel_inv\<close>: the tables are well formed, a task
  is in the queue of a semaphore exactly when its TCB says so, and in the delay queue exactly with
  the ticks in its TCB; no semaphore has waiters beside a count; only the current task is RUNNING.
  \<open>Tick\<close> and \<open>Tick_Frame\<close> show that the tick loop, which removes entries of the array it walks, is one
  simultaneous step on the abstract queue. \<open>Switching\<close> and \<open>Dispatch_Inv\<close> carry the invariant through
  the switches (\<open>os_inv\<close> adds non-null entries and no reserved task pair), with \<open>Switch_Trace\<close> for the
  task states a switch leaves, \<open>Blocking\<close> through the
  waiting services, between whose steps it does not hold. \<open>System\<close> makes the calls a transition
  system with reachability.

  \<^bold>\<open>Coming back.\<close> What a switch needs to return is less than the invariant. The locale \<open>switch_inv\<close>
  (\<open>Switching\<close>) lists the laws of a predicate that the switch code keeps, and \<open>switch_contract\<close> adds
  task entries that return under it; the lemmas on switches are proved once there. It is used with two
  predicates: the invariant (\<open>entry_contract\<close>), and the weak \<open>live_inv\<close> of \<open>Liveness\<close> (\<open>live_contract\<close>),
  which every operation keeps in every state. The boot sequence of \<open>kernel.c\<close> needs the weak one, since it
  leaves the invariant on its way; \<open>Boot_Live\<close> follows it to its end. \<open>Service_Codes\<close>: the result codes
  that \<open>itron_api.h\<close> declares, and that the services keep to them.

  \<^bold>\<open>The abstract kernel.\<close> \<open>Abstract_Kernel\<close> says what the kernel promises without its tables: a task has
  an activity and an urgency, a semaphore a count, a limit and waiters; \<open>abst\<close> reads this off a state,
  \<open>allows\<close> says what each call may do. \<open>Refinement\<close> proves it for every call and the timer interrupt,
  \<open>Abstract_Switch\<close> for the switch (locales \<open>switch_view\<close> and \<open>switch_trace\<close> of \<open>Switch_Trace\<close>), \<open>Abstract_Runs\<close> for
  sequences, where the abstract kernel alone shows which calls can end a wait. Three hypotheses say
  when: \<open>quiet_env\<close> (entries only print, as those of \<open>kernel.c\<close>; the live stack pointer is not 0), \<open>fit\<close>
  (every task has a stack the switch accepts) and \<open>call_fits\<close> (so have the tasks a call creates).

  \<^bold>\<open>The properties.\<close> \<open>Semaphore_Props\<close>: the services refine an abstract semaphore (count, limit, list of
  waiters). \<open>Time_Props\<close>: the delay queue refines a list, a wait of \<open>d\<close> ticks lasts \<open>d\<close> ticks.
  \<open>Task_Props\<close>: creation, start, sleep and wakeup with all their error codes. \<open>Dispatch_Props\<close>: the choice
  of the scheduler, the pending request, the first frame of a task, the refusals of the switch, and
  two ways the code can leave the invariant. \<open>Preempt_Props\<close>: how an urgent task gets to run, from the
  service or the tick that makes it READY to the switch at the end of the timer interrupt.
  \<open>Service_Props\<close>: the result codes, and that \<open>kernel_main\<close> comes back. \<open>Hardware_Props\<close>: formatters, IDT, PIC, serial line.
  \<open>Refine_Props\<close>: runs refine the abstract kernel, no spurious wakeup. This
  theory: what spans components. The instances of the properties are on the states of
  \<open>Sample_States\<close>.

  \<^bold>\<open>Bounds.\<close> The tables have the sizes of the source (256 tasks, delay entries and waiters). No fuel is
  used: the tick loop and the serial polling have their own termination arguments, the nested
  entries of a switch are a \<open>partial_function\<close>. \<open>call_allowed\<close> states the three limits the invariant
  needs: a task id below the largest \<open>int\<close>, a semaphore limit that is an \<open>int\<close>, and no direct commit
  while the current task is RUNNING. These are hypotheses, not checks of the code: \<open>Task_Props\<close> and
  \<open>Dispatch_Props\<close> show what happens without the first and the last, and \<open>kernel.c\<close> itself commits a task
  while another one is RUNNING, which is why its boot sequence is followed with the weak invariant.

  \<^bold>\<open>Not modelled.\<close> The boot assembly, the interrupt stubs and the register moves of
  \<open>context_switch.asm\<close> (their contract is the resume rule of \<open>Task_Context\<close>); the port instructions
  themselves. \<open>task_context_switch\<close>, which no code calls, is modelled in two parts, before and after
  the moment at which its caller is resumed. The timer interrupt is its C handler, which can be run any
  number of times in the model; the stub that calls it halts after the first time (it has no \<open>iretq\<close>), so
  that on the machine the ticks of a run are those of \<open>timer_tick\<close> calls and one interrupt. A running task
  does not write into \<open>stack_mem\<close>: the model speaks for tasks with separate stacks. A write to
  the console always comes back in the kernel model; \<open>on_line\<close> of \<open>Serial\<close> runs it with the serial
  driver, which polls without a limit, and a statement that a call returns holds on the machine when the
  device gets ready again and again (\<open>live_device\<close>). An interrupt is a
  step between calls, never inside one: the kernel runs with interrupts disabled except in the idle
  loop of the validation build.
\<close>

section \<open>The semaphore services\<close>

text \<open>C2. \<open>sig_sem\<close> implements the abstract semaphore: it wakes the first waiter or raises the count.\<close>

theorem sig_sem_refines:
  assumes "kernel_inv s" and "sem_view m (semaphore_table s) = Some v"
  shows "case signal_spec v of (r, v', w) \<Rightarrow>
    \<exists>s'. sig_sem m s = (r, s') \<and> kernel_inv s' \<and>
      sem_view m (semaphore_table s') = Some v' \<and>
      (\<forall>m'. m' \<noteq> m \<longrightarrow> sem_view m' (semaphore_table s') = sem_view m' (semaphore_table s)) \<and>
      (\<forall>k. tcb_of k (task_table s')
         = (if w = Some k then map_option woken (tcb_of k (task_table s)) else tcb_of k (task_table s))) \<and>
      dq_items s' = filter (\<lambda>p. w \<noteq> Some (fst p)) (dq_items s)"
proof -
  obtain c mx q where v: "v = (c, mx, q)" by (metis prod_cases3)
  show ?thesis
  proof (cases q)
    case Nil
    with assms(2) v have "sem_view m (semaphore_table s) = Some (c, mx, [])" by simp
    from sig_sem_counts[OF assms(1) this] show ?thesis by (auto simp: v Nil)
  next
    case (Cons k ks)
    with assms(2) v have view: "sem_view m (semaphore_table s) = Some (c, mx, k # ks)" by simp
    from sig_sem_wakes[OF assms(1) view] obtain s' where *: "sig_sem m s = (E_OK, s')"
      "\<forall>m'. m' \<noteq> m \<longrightarrow> sem_view m' (semaphore_table s') = sem_view m' (semaphore_table s)" by blast
    with sig_sem_wakes_tcb[OF assms(1) view] show ?thesis by (auto simp: v Cons eq_commute[of k])
  qed
qed

lemma sig_sem_refines_witness:
  "\<exists>s'. sig_sem 1 busy = (E_OK, s') \<and> kernel_inv s' \<and> sem_view 1 (semaphore_table s') = Some (0, 1, [3, 4])"
  using sig_sem_refines[OF busy_inv busy_views(1)] by auto

section \<open>The kernel as a whole\<close>

text \<open>
  C4. Every service returns: when the task entries meet their contract, each call of a task and each
  timer interrupt comes back to its caller with a result, in a state of the invariant.
  \<open>call_allowed\<close> limits the calls as in C1. The writes to the console come back when the serial device does
  (\<open>on_line\<close>).
\<close>

theorem every_call_returns:
  fixes s :: "'a pic_module_scheme"
  assumes "entry_contract env" and "os_inv s" and "call_allowed call s"
  shows "\<exists>r s'. run_call env call s = Some (r, s') \<and> os_inv s'"
  by (rule run_call_returns[OF assms])

lemma every_call_returns_witness:
  "\<exists>r s'. run_call demo_env (Twai_sem 1 5) (machine_of busy) = Some (r, s') \<and> os_inv s'"
  using every_call_returns[OF demo_env_contract, of "machine_of busy" "Twai_sem 1 5"] by (simp add: busy_os_inv)

text \<open>
  C1. Every run of allowed calls from the initialisation of \<open>kernel_main\<close> comes back, and in the state it
  reaches: at most one task is RUNNING, and it is the current one; no two tasks have the same id; a task
  is in the queue of a semaphore exactly when its TCB says it waits for this semaphore, and in the delay
  queue with \<open>d\<close> ticks exactly when its TCB says it waits for \<open>d\<close> more ticks. The run is limited by
  \<open>calls_allowed\<close>: no \<open>dispatcher_commit_current\<close> while the current task is RUNNING, no \<open>cre_tsk\<close> with the
  id \<open>INT_MAX\<close>, no semaphore limit beyond an \<open>int\<close>. The code has no such checks; what happens without the first two is
  shown in \<open>Dispatch_Props\<close> and \<open>Task_Props\<close>, and the boot smokes of \<open>kernel.c\<close> do commit a task while
  another one is RUNNING.
\<close>

theorem reachable_states_consistent:
  fixes s0 :: "'a pic_module_scheme"
  assumes "entry_contract env" and "static_state s0" and "calls_allowed env cs (kernel_main_init s0)"
  shows "\<exists>rs s. run_calls env cs (kernel_main_init s0) = Some (rs, s) \<and>
    (\<forall>i < MAX_TASKS. tstate (tcb_at i s) = TASK_STATE_RUNNING \<longrightarrow> current_task s = Some i) \<and>
    unique_ids tcb_used tid (task_table s) \<and>
    (\<forall>k m. k \<in> set (queue_of m (semaphore_table s)) \<longleftrightarrow> wait_of k (task_table s) = Some m) \<and>
    (\<forall>k d. (k, d) \<in> set (dq_items s) \<longleftrightarrow> delay_of k (task_table s) = Some d)"
proof -
  obtain rs s where run: "run_calls env cs (kernel_main_init s0) = Some (rs, s)" and inv: "os_inv s"
    using run_calls_returns[OF assms(1) kernel_main_init_inv[OF assms(2)] assms(3)] by blast
  note w = kernel_invD(1)[OF os_invD(2)[OF inv]] and r = kernel_invD(2)[OF os_invD(2)[OF inv]]
  have "current_task s = Some i" if "i < MAX_TASKS" "tstate (tcb_at i s) = TASK_STATE_RUNNING" for i
    using r that os_invD(3)[OF inv] by (auto simp: run_ok_def tcb_at_def)
  with run wait_inv_unique[OF w] wait_invD(4)[OF w] show ?thesis by (auto simp: link_ok_def)
qed

lemma reachable_states_consistent_witness:
  "\<exists>rs s. run_calls demo_env [Register_task (Some ''a'') 1 2 4096 512, Yield_tsk, Timer_irq] (kernel_main_init power_on)
      = Some (rs, s) \<and> unique_ids tcb_used tid (task_table s)"
proof -
  have "calls_allowed demo_env [Register_task (Some ''a'') 1 2 4096 512, Yield_tsk, Timer_irq] (kernel_main_init power_on)"
    by (rule calls_allowed_always[OF demo_env_contract _ kernel_main_init_inv[OF power_on_static]]) auto
  from reachable_states_consistent[OF demo_env_contract power_on_static this] show ?thesis by blast
qed

text \<open>
  C18. The timer interrupt returns: it takes the tick and the deferred dispatch, leaves no request
  pending, keeps the invariant, and its last port write is the EOI of the timer line.
\<close>

theorem timer_interrupt_completes:
  fixes s :: "'a pic_module_scheme"
  assumes "entry_contract env" and "os_inv s"
  shows "\<exists>s'. arch_timer_irq_handle env s = Some s' \<and> os_inv s' \<and>
    dispatch_pending_is_requested s' = False \<and>
    (\<exists>ws. port_writes s' = ws @ [(ARCH_PIC_MASTER_COMMAND, ARCH_PIC_EOI)])"
  using timer_irq_returns[OF assms] by (simp add: dispatch_pending_is_requested_def)

lemma timer_interrupt_completes_witness:
  "\<exists>s'. arch_timer_irq_handle demo_env (machine_of busy) = Some s' \<and> os_inv s'"
  using timer_interrupt_completes[OF demo_env_contract, of "machine_of busy"] busy_os_inv by auto

text \<open>
  C32. Boot establishes the invariant: from the zeroed static variables the initialisation of
  \<open>kernel_main\<close> reaches a state of the invariant without a RUNNING task, three ticks after the start, in which the
  abstract kernel is empty; a registration, which comes next, keeps the invariant.
\<close>

theorem boot_establishes_invariant:
  fixes s :: "'a pending_module_scheme"
  assumes "static_state s"
  shows "os_inv (kernel_main_init s) \<and> idle (kernel_main_init s) \<and> timer_get_ticks (kernel_main_init s) = 3 \<and>
    fit (kernel_main_init s) \<and>
    abst (kernel_main_init s) = empty_kernel (abs_request (dispatch_pending_state s)) \<and>
    os_inv (snd (kernel_register img e nm prio (kernel_main_init s)))"
proof -
  have inv: "os_inv (kernel_main_init s)" by (rule kernel_main_init_inv[OF assms])
  have "os_inv (snd (kernel_register img e nm prio s'))" if "os_inv s'" for s' :: "'a pending_module_scheme"
    using os_inv_task_register[OF that] that
    by (simp add: kernel_register_def kernel_log_task_register_result_def Let_def case_prod_beta)
  with inv kernel_main_init_fields[OF assms] static_abst[OF assms] show ?thesis by (simp add: timer_get_ticks_def)
qed

lemma boot_establishes_invariant_witness: "os_inv (kernel_main_init power_on)"
  using boot_establishes_invariant[OF power_on_static] by blast

end
